theory Spec2Isabelle
  imports Main "HOL-Library.Word"
begin

unbundle bit_operations_syntax

section \<open>AB8500 charger driver: lookup tables\<close>

text \<open>
  The model follows \<^verbatim>\<open>drivers/power/ab8500_charger.c\<close>. C \<^verbatim>\<open>int\<close> values are
  modelled as \<open>int\<close>: the functions below only compare them and subtract one from an
  array index, so no 32-bit overflow can occur. Register bytes (\<^verbatim>\<open>u8\<close>) are \<open>8 word\<close>.
\<close>

type_synonym u8 = "8 word"
type_synonym u32 = "32 word"

definition LOW_VOLT_REG :: int where
  "LOW_VOLT_REG = 0x4E"

definition ENXIO :: int where "ENXIO = 6"
definition EBUSY :: int where "EBUSY = 16"
definition EPERM :: int where "EPERM = 1"
definition EINVAL :: int where "EINVAL = 22"

definition ab8500_charger_voltage_map :: "int list" where
  "ab8500_charger_voltage_map =
    [3500, 3525, 3550, 3575, 3600, 3625, 3650, 3675, 3700, 3725,
     3750, 3775, 3800, 3825, 3850, 3875, 3900, 3925, 3950, 3975,
     4000, 4025, 4050, 4060, 4070, 4080, 4090, 4100, 4110, 4120,
     4130, 4140, 4150, 4160, 4170, 4180, 4190, 4200, 4210, 4220,
     4230, 4240, 4250, 4260, 4270, 4280, 4290, 4300, 4310, 4320,
     4330, 4340, 4350, 4360, 4370, 4380, 4390, 4400, 4410, 4420,
     4430, 4440, 4450, 4460, 4470, 4480, 4490, 4500, 4510, 4520,
     4530, 4540, 4550, 4560, 4570, 4580, 4590, 4600]"

definition ab8500_charger_current_map :: "int list" where
  "ab8500_charger_current_map =
    [100, 200, 300, 400, 500, 600, 700, 800, 900, 1000,
     1100, 1200, 1300, 1400, 1500]"

definition ab8500_charger_vbus_in_curr_map :: "int list" where
  "ab8500_charger_vbus_in_curr_map =
    [50, 98, 193, 290, 380, 450, 500, 600, 700, 800,
     900, 1000, 1100, 1300, 1400, 1500]"

text \<open>
  The three encoders share one loop shape:
  \<^verbatim>\<open>for (i = start; i < ARRAY_SIZE(map); i++) if (v < map[i]) return i - 1;\<close>
  \<open>regval_scan\<close> is that loop; \<open>None\<close> means the loop ran off the end of the table.
\<close>

function regval_scan :: "int list \<Rightarrow> int \<Rightarrow> nat \<Rightarrow> int option" where
  "regval_scan tbl v i =
     (if i < length tbl
      then (if v < tbl ! i then Some (int i - 1) else regval_scan tbl v (Suc i))
      else None)"
  by pat_completeness auto
termination
  by (relation "measure (\<lambda>(tbl, v, i). length tbl - i)") auto

declare regval_scan.simps [simp del]

definition regval_last :: "int list \<Rightarrow> int \<Rightarrow> int" where
  \<comment> \<open>the tail of each encoder: only an exact match of the last element is accepted\<close>
  "regval_last tbl v =
     (let i = int (length tbl) - 1 in if v = tbl ! nat i then i else - 1)"

definition ab8500_voltage_to_regval :: "int \<Rightarrow> int" where
  "ab8500_voltage_to_regval voltage =
     (if voltage < ab8500_charger_voltage_map ! 0 then LOW_VOLT_REG
      else case regval_scan ab8500_charger_voltage_map voltage 1 of
             Some r \<Rightarrow> r
           | None \<Rightarrow> regval_last ab8500_charger_voltage_map voltage)"

definition ab8500_current_to_regval :: "int \<Rightarrow> int" where
  "ab8500_current_to_regval cur =
     (if cur < ab8500_charger_current_map ! 0 then 0
      else case regval_scan ab8500_charger_current_map cur 0 of
             Some r \<Rightarrow> r
           | None \<Rightarrow> regval_last ab8500_charger_current_map cur)"

definition ab8500_vbus_in_curr_to_regval :: "int \<Rightarrow> int" where
  "ab8500_vbus_in_curr_to_regval cur =
     (if cur < ab8500_charger_vbus_in_curr_map ! 0 then 0
      else case regval_scan ab8500_charger_vbus_in_curr_map cur 0 of
             Some r \<Rightarrow> r
           | None \<Rightarrow> regval_last ab8500_charger_vbus_in_curr_map cur)"

text \<open>An executable check that a table is strictly increasing (adjacent entries).\<close>

fun ascending :: "int list \<Rightarrow> bool" where
  "ascending (x # y # zs) = (x < y \<and> ascending (y # zs))"
| "ascending _ = True"

text \<open>What one encoder computes on an increasing table, in terms of the table alone.\<close>

definition encodes :: "int list \<Rightarrow> (int \<Rightarrow> int) \<Rightarrow> bool" where
  "encodes tbl enc \<longleftrightarrow>
     (\<forall>j v. Suc j < length tbl \<and> tbl ! j \<le> v \<and> v < tbl ! Suc j \<longrightarrow> enc v = int j) \<and>
     enc (last tbl) = int (length tbl) - 1 \<and>
     (\<forall>v. last tbl < v \<longrightarrow> enc v = - 1)"

section \<open>Register access\<close>

text \<open>
  Register names come from \<^verbatim>\<open>linux/mfd/abx500/ab8500-bm.h\<close>, which is not among the
  sources; they are kept symbolic. The constructors are distinct, as the case labels of
  the C \<^verbatim>\<open>switch\<close> statements have to be. \<open>AB8500_REG n\<close> is a register given by its
  number (the driver polls \<^verbatim>\<open>AB8500_CHARGER, 0x02\<close>) or any other register id.
\<close>

datatype ab8500_bank = AB8500_CHARGER | AB8500_USB | AB8500_INTERRUPT | AB8500_BANK nat

datatype ab8500_reg =
    AB8500_CH_USBCH_STAT1_REG
  | AB8500_CH_USBCH_STAT2_REG
  | AB8500_MCH_IPT_CURLVL_REG
  | AB8500_USBCH_IPT_CRNTLVL_REG
  | AB8500_CH_OPT_CRNTLVL_REG
  | AB8500_USBCH_CTRL1_REG
  | AB8500_CHARGER_CTRL
  | AB8500_MAIN_WDOG_CTRL_REG
  | AB8500_USB_LINE_STAT_REG
  | AB8500_USB_LINE_CTRL2_REG
  | AB8500_IT_SOURCE21_REG
  | AB8500_REG nat

datatype gpadc_channel = VBUS_V | USB_CHARGER_C

datatype abx500_xfer =
    Xfer_get ab8500_bank ab8500_reg
  | Xfer_set ab8500_bank ab8500_reg u8
  | Xfer_mask_set ab8500_bank ab8500_reg u8 u8

text \<open>
  The chip as the driver sees it: register contents, the result code the bus gives to a
  read or a write of each register (negative for a failed read, non-zero for a failed
  write), the ADC, and the trace of every bus transaction the driver has issued.
\<close>

record ab8500_hw =
  regs :: "ab8500_bank \<Rightarrow> ab8500_reg \<Rightarrow> u8"
  get_ret :: "ab8500_bank \<Rightarrow> ab8500_reg \<Rightarrow> int"
  set_ret :: "ab8500_bank \<Rightarrow> ab8500_reg \<Rightarrow> int"
  gpadc :: "gpadc_channel \<Rightarrow> int"
  xfers :: "abx500_xfer list"

text \<open>
  Modelled from the spec: the register access interface
  (\<^verbatim>\<open>abx500_get_register_interruptible\<close>, \<^verbatim>\<open>abx500_set_register_interruptible\<close>,
  \<^verbatim>\<open>abx500_mask_and_set_register_interruptible\<close> are only declared in
  \<^verbatim>\<open>linux/mfd/abx500.h\<close>): a read gives a byte or an I/O error, a write or a
  read-modify-write succeeds or gives an I/O error. A failed read leaves the caller's
  buffer \<open>val\<close> as it was; a failed write changes no register.
\<close>

definition abx500_get_register_interruptible ::
  "ab8500_hw \<Rightarrow> ab8500_bank \<Rightarrow> ab8500_reg \<Rightarrow> u8 \<Rightarrow> int \<times> u8 \<times> ab8500_hw" where
  "abx500_get_register_interruptible hw bank reg val =
     (get_ret hw bank reg,
      (if get_ret hw bank reg < 0 then val else regs hw bank reg),
      hw\<lparr>xfers := xfers hw @ [Xfer_get bank reg]\<rparr>)"

definition abx500_set_register_interruptible ::
  "ab8500_hw \<Rightarrow> ab8500_bank \<Rightarrow> ab8500_reg \<Rightarrow> u8 \<Rightarrow> int \<times> ab8500_hw" where
  "abx500_set_register_interruptible hw bank reg v =
     (set_ret hw bank reg,
      hw\<lparr>regs := (if set_ret hw bank reg = 0
                   then (regs hw)(bank := (regs hw bank)(reg := v))
                   else regs hw),
         xfers := xfers hw @ [Xfer_set bank reg v]\<rparr>)"

definition abx500_mask_and_set_register_interruptible ::
  "ab8500_hw \<Rightarrow> ab8500_bank \<Rightarrow> ab8500_reg \<Rightarrow> u8 \<Rightarrow> u8 \<Rightarrow> int \<times> ab8500_hw" where
  "abx500_mask_and_set_register_interruptible hw bank reg bitmask bitvalues =
     (set_ret hw bank reg,
      hw\<lparr>regs := (if set_ret hw bank reg = 0
                   then (regs hw)(bank := (regs hw bank)
                          (reg := (NOT bitmask AND regs hw bank reg) OR (bitmask AND bitvalues)))
                   else regs hw),
         xfers := xfers hw @ [Xfer_mask_set bank reg bitmask bitvalues]\<rparr>)"

fun is_write :: "abx500_xfer \<Rightarrow> bool" where
  "is_write (Xfer_get _ _) = False"
| "is_write _ = True"

definition hw_writes :: "ab8500_hw \<Rightarrow> abx500_xfer list" where
  \<comment> \<open>the register writes issued so far, in order\<close>
  "hw_writes hw = filter is_write (xfers hw)"

section \<open>Driver state\<close>

definition NO_PW_CONN :: int where "NO_PW_CONN = 0"
definition AC_PW_CONN :: int where "AC_PW_CONN = 1"
definition USB_PW_CONN :: int where "USB_PW_CONN = 2"

definition USB_CH_ENA :: u8 where "USB_CH_ENA = 0x01"
definition AB8500_USB_LINK_STATUS :: u8 where "AB8500_USB_LINK_STATUS = 0x78"
definition USB_CH_CV_ON :: u8 where "USB_CH_CV_ON = 0x08"
definition VBUS_DET_DBNC100 :: u8 where "VBUS_DET_DBNC100 = 0x02"
definition VBUS_DET_DBNC1 :: u8 where "VBUS_DET_DBNC1 = 0x01"
definition VBUS_CH_NOK :: u8 where "VBUS_CH_NOK = 0x08"
definition USB_CH_TH_PROT :: u8 where "USB_CH_TH_PROT = 0x02"
definition VBUS_OVV_TH :: u8 where "VBUS_OVV_TH = 0x01"

definition MAIN_CH_INPUT_CURR_SHIFT :: nat where "MAIN_CH_INPUT_CURR_SHIFT = 4"
definition VBUS_IN_CURR_LIM_SHIFT :: nat where "VBUS_IN_CURR_LIM_SHIFT = 4"
definition AUTO_VBUS_IN_CURR_LIM_SHIFT :: nat where "AUTO_VBUS_IN_CURR_LIM_SHIFT = 4"
definition VBUS_IN_CURR_LIM_RETRY_SET_TIME :: u32 where "VBUS_IN_CURR_LIM_RETRY_SET_TIME = 30"
definition VBUS_IN_CURR_LIM_RETRY_MAX_TIME :: int where "VBUS_IN_CURR_LIM_RETRY_MAX_TIME = 3840"

definition USB_CH_IP_CUR_LVL_0P05 :: int where "USB_CH_IP_CUR_LVL_0P05 = 50"
definition USB_CH_IP_CUR_LVL_0P09 :: int where "USB_CH_IP_CUR_LVL_0P09 = 98"
definition USB_CH_IP_CUR_LVL_0P19 :: int where "USB_CH_IP_CUR_LVL_0P19 = 193"
definition USB_CH_IP_CUR_LVL_0P29 :: int where "USB_CH_IP_CUR_LVL_0P29 = 290"
definition USB_CH_IP_CUR_LVL_0P38 :: int where "USB_CH_IP_CUR_LVL_0P38 = 380"
definition USB_CH_IP_CUR_LVL_0P45 :: int where "USB_CH_IP_CUR_LVL_0P45 = 450"
definition USB_CH_IP_CUR_LVL_0P5 :: int where "USB_CH_IP_CUR_LVL_0P5 = 500"
definition USB_CH_IP_CUR_LVL_0P9 :: int where "USB_CH_IP_CUR_LVL_0P9 = 900"
definition USB_CH_IP_CUR_LVL_1P3 :: int where "USB_CH_IP_CUR_LVL_1P3 = 1300"
definition USB_CH_IP_CUR_LVL_1P5 :: int where "USB_CH_IP_CUR_LVL_1P5 = 1500"

definition VBAT_TRESH_IP_CUR_RED :: int where "VBAT_TRESH_IP_CUR_RED = 3800"

datatype ab8500_charger_link_status =
    USB_STAT_NOT_CONFIGURED
  | USB_STAT_STD_HOST_NC
  | USB_STAT_STD_HOST_C_NS
  | USB_STAT_STD_HOST_C_S
  | USB_STAT_HOST_CHG_NM
  | USB_STAT_HOST_CHG_HS
  | USB_STAT_HOST_CHG_HS_CHIRP
  | USB_STAT_DEDICATED_CHG
  | USB_STAT_ACA_RID_A
  | USB_STAT_ACA_RID_B
  | USB_STAT_ACA_RID_C_NM
  | USB_STAT_ACA_RID_C_HS
  | USB_STAT_ACA_RID_C_HS_CHIRP
  | USB_STAT_HM_IDGND
  | USB_STAT_RESERVED
  | USB_STAT_NOT_VALID_LINK

datatype ab8500_usb_state =
    AB8500_BM_USB_STATE_RESET_HS
  | AB8500_BM_USB_STATE_RESET_FS
  | AB8500_BM_USB_STATE_CONFIGURED
  | AB8500_BM_USB_STATE_SUSPEND
  | AB8500_BM_USB_STATE_RESUME
  | AB8500_BM_USB_STATE_MAX

record ab8500_charger_info =
  charger_connected :: int
  charger_online :: int
  charger_voltage :: int
  cv_active :: int
  wd_expired :: bool

record ab8500_charger_event_flags =
  mainextchnotok :: bool
  main_thermal_prot :: bool
  usb_thermal_prot :: bool
  vbus_ovv :: bool
  usbchargernotok :: bool
  chgwdexp :: bool
  vbus_collapse :: bool
  vbus_drop_end :: bool
  report_charger_no_charge :: bool

record ab8500_charger_usb_state =
  usb_current :: int
  usb_current_tmp :: int
  state :: ab8500_usb_state
  state_tmp :: ab8500_usb_state

text \<open>
  \<^verbatim>\<open>int real_max_usb_in_curr[2]\<close> is the pair of its two elements;
  \<^verbatim>\<open>unsigned int retry_current_time\<close> is a 32-bit word.
\<close>

record ab8500_vbus_drop =
  real_max_usb_in_curr :: "int \<times> int"
  retry_current_time :: u32

text \<open>
  The fields of \<^verbatim>\<open>struct ab8500_charger\<close> that the modelled functions read or write.
  \<open>usb_curr_max\<close> and \<open>usb_curr_max_nc\<close> are \<^verbatim>\<open>di->bat->chg_params->usb_curr_max\<close>
  and \<^verbatim>\<open>...->usb_curr_max_nc\<close> of the platform data. Work queueing, power-supply
  notifications, locks and sleeps have no effect on these fields and are left out.
\<close>

record ab8500_charger =
  max_usb_in_curr :: int
  vbus_detected :: bool
  vbat :: int
  is_usb_host :: bool
  is_aca_rid :: int
  invalid_charger_detect_state :: int
  current_stepping_sessions :: int
  usb_curr_max :: int
  usb_curr_max_nc :: int
  flags :: ab8500_charger_event_flags
  usb_state :: ab8500_charger_usb_state
  ac :: ab8500_charger_info
  usb :: ab8500_charger_info
  vbus_drop :: ab8500_vbus_drop

definition bool_to_int :: "bool \<Rightarrow> int" where
  "bool_to_int b = (if b then 1 else 0)"

definition ab8500_charger_set_usb_connected :: "ab8500_charger \<Rightarrow> bool \<Rightarrow> ab8500_charger" where
  "ab8500_charger_set_usb_connected di connected =
     (if bool_to_int connected \<noteq> charger_connected (usb di) then
        (let di1 = di\<lparr>usb := (usb di)\<lparr>charger_connected := bool_to_int connected\<rparr>\<rparr>
         in if \<not> connected then
              di1\<lparr>vbus_drop := (vbus_drop di1)
                      \<lparr>real_max_usb_in_curr := (0, 0),
                       retry_current_time := VBUS_IN_CURR_LIM_RETRY_SET_TIME\<rparr>,
                  flags := (flags di1)
                      \<lparr>vbus_drop_end := False, report_charger_no_charge := False\<rparr>,
                  is_usb_host := False,
                  is_aca_rid := 0\<rparr>
            else di1)
      else di)"

text \<open>
  The state \<^verbatim>\<open>ab8500_charger_probe\<close> gives the USB link bookkeeping: the structure is
  zero-allocated and \<^verbatim>\<open>usb_state.usb_current\<close> is then set to -1.
\<close>

definition probe_usb_state :: ab8500_charger_usb_state where
  "probe_usb_state =
     \<lparr>usb_current = - 1, usb_current_tmp = 0,
      state = AB8500_BM_USB_STATE_RESET_HS, state_tmp = AB8500_BM_USB_STATE_RESET_HS\<rparr>"

section \<open>Charger detection and USB classification\<close>

text \<open>
  \<^verbatim>\<open>ab8500_charger_detect_chargers\<close>: the 110 ms sleep taken when \<open>probe\<close> is false does
  not change the state. The local \<^verbatim>\<open>val\<close> is only read after a successful read.
\<close>

definition ab8500_charger_detect_chargers :: "ab8500_hw \<Rightarrow> bool \<Rightarrow> int \<times> ab8500_hw" where
  "ab8500_charger_detect_chargers hw probe =
     (case abx500_get_register_interruptible hw AB8500_CHARGER AB8500_CH_USBCH_STAT1_REG 0 of
        (ret, val, hw1) \<Rightarrow>
          if ret < 0 then (ret, hw1)
          else if val AND VBUS_DET_DBNC1 \<noteq> 0 \<and> val AND VBUS_DET_DBNC100 \<noteq> 0
               then (NO_PW_CONN OR USB_PW_CONN, hw1)
               else (NO_PW_CONN, hw1))"

definition set_usb_type :: "ab8500_charger \<Rightarrow> int \<Rightarrow> bool \<Rightarrow> int \<Rightarrow> ab8500_charger" where
  \<comment> \<open>the three assignments every plain case of the classification switch makes\<close>
  "set_usb_type di cur host rid =
     di\<lparr>max_usb_in_curr := cur, is_usb_host := host, is_aca_rid := rid\<rparr>"

text \<open>
  The \<^verbatim>\<open>USB_STAT_RESERVED\<close> case. The VBUS voltage measured first is only printed.
  No result code of the five bus transactions is checked; \<open>val0\<close> is the indeterminate
  initial content of the local \<^verbatim>\<open>u8 val\<close>, which is what the final test reads when
  both reads fail.
\<close>

definition usb_stat_reserved :: "ab8500_charger \<Rightarrow> ab8500_hw \<Rightarrow> u8 \<Rightarrow> int \<times> ab8500_charger \<times> ab8500_hw" where
  "usb_stat_reserved di hw val0 =
     (case abx500_get_register_interruptible hw (AB8500_BANK 0x02) AB8500_MAIN_WDOG_CTRL_REG val0 of
        (ret1, val1, hw1) \<Rightarrow>
     (case abx500_mask_and_set_register_interruptible hw1 AB8500_CHARGER AB8500_USBCH_CTRL1_REG 0x03 0x02 of
        (ret2, hw2) \<Rightarrow>
     (case abx500_set_register_interruptible hw2 AB8500_CHARGER AB8500_CHARGER_CTRL 0x01 of
        (ret3, hw3) \<Rightarrow>
     (case abx500_mask_and_set_register_interruptible hw3 AB8500_CHARGER AB8500_USBCH_CTRL1_REG 0x03 0x03 of
        (ret4, hw4) \<Rightarrow>
     (case abx500_get_register_interruptible hw4 AB8500_CHARGER (AB8500_REG 0x02) val1 of
        (ret5, val, hw5) \<Rightarrow>
          if val AND 0x04 \<noteq> 0
          then (0, di\<lparr>flags := (flags di)\<lparr>vbus_collapse := False\<rparr>\<rparr>, hw5)
          else (- EBUSY, di\<lparr>flags := (flags di)\<lparr>vbus_collapse := True\<rparr>\<rparr>, hw5))))))"

definition usb_stat_not_configured :: "ab8500_charger \<Rightarrow> int \<times> ab8500_charger" where
  \<comment> \<open>\<^verbatim>\<open>USB_STAT_NOT_CONFIGURED\<close>, which falls through to \<^verbatim>\<open>USB_STAT_HM_IDGND\<close>\<close>
  "usb_stat_not_configured di =
     (if usb_curr_max_nc di \<noteq> 0 then (0, di\<lparr>max_usb_in_curr := usb_curr_max_nc di\<rparr>)
      else (- ENXIO, di\<lparr>max_usb_in_curr := USB_CH_IP_CUR_LVL_0P05\<rparr>))"

text \<open>
  \<^verbatim>\<open>ab8500_charger_max_usb_curr\<close>. Both callers pass \<^verbatim>\<open>(val & 0x78) >> 3\<close>, one of the
  sixteen enumerators, so the \<^verbatim>\<open>default\<close> branch of the switch is never taken.
\<close>

definition ab8500_charger_max_usb_curr ::
  "ab8500_charger \<Rightarrow> ab8500_hw \<Rightarrow> u8 \<Rightarrow> ab8500_charger_link_status \<Rightarrow> int \<times> ab8500_charger \<times> ab8500_hw" where
  "ab8500_charger_max_usb_curr di hw val0 link_status =
     (case (case link_status of
              USB_STAT_STD_HOST_NC \<Rightarrow> (0, set_usb_type di USB_CH_IP_CUR_LVL_0P5 True 0, hw)
            | USB_STAT_STD_HOST_C_NS \<Rightarrow> (0, set_usb_type di USB_CH_IP_CUR_LVL_0P5 True 0, hw)
            | USB_STAT_STD_HOST_C_S \<Rightarrow> (0, set_usb_type di USB_CH_IP_CUR_LVL_0P5 True 0, hw)
            | USB_STAT_HOST_CHG_HS_CHIRP \<Rightarrow> (0, set_usb_type di USB_CH_IP_CUR_LVL_0P5 True 0, hw)
            | USB_STAT_HOST_CHG_HS \<Rightarrow> (0, set_usb_type di USB_CH_IP_CUR_LVL_0P5 True 0, hw)
            | USB_STAT_ACA_RID_C_HS \<Rightarrow> (0, set_usb_type di USB_CH_IP_CUR_LVL_0P9 False 0, hw)
            | USB_STAT_ACA_RID_A \<Rightarrow> (0, set_usb_type di USB_CH_IP_CUR_LVL_0P5 False 1, hw)
            | USB_STAT_ACA_RID_B \<Rightarrow> (0, set_usb_type di USB_CH_IP_CUR_LVL_1P3 False 1, hw)
            | USB_STAT_HOST_CHG_NM \<Rightarrow> (0, set_usb_type di USB_CH_IP_CUR_LVL_0P5 True 0, hw)
            | USB_STAT_DEDICATED_CHG \<Rightarrow> (0, set_usb_type di USB_CH_IP_CUR_LVL_1P5 False 0, hw)
            | USB_STAT_ACA_RID_C_HS_CHIRP \<Rightarrow> (0, set_usb_type di USB_CH_IP_CUR_LVL_1P5 False 1, hw)
            | USB_STAT_ACA_RID_C_NM \<Rightarrow> (0, set_usb_type di USB_CH_IP_CUR_LVL_1P5 False 1, hw)
            | USB_STAT_RESERVED \<Rightarrow> usb_stat_reserved di hw val0
            | USB_STAT_NOT_VALID_LINK \<Rightarrow>
                (fst (usb_stat_not_configured di), snd (usb_stat_not_configured di), hw)
            | USB_STAT_NOT_CONFIGURED \<Rightarrow>
                (fst (usb_stat_not_configured di), snd (usb_stat_not_configured di), hw)
            | USB_STAT_HM_IDGND \<Rightarrow>
                (- ENXIO, di\<lparr>max_usb_in_curr := USB_CH_IP_CUR_LVL_0P05\<rparr>, hw)) of
        (ret, di1, hw1) \<Rightarrow>
          (ret,
           di1\<lparr>vbus_drop := (vbus_drop di1)
                  \<lparr>real_max_usb_in_curr :=
                     (max_usb_in_curr di1, snd (real_max_usb_in_curr (vbus_drop di1)))\<rparr>\<rparr>,
           hw1))"

text \<open>
  The link status of the line-status byte: \<^verbatim>\<open>(val & AB8500_USB_LINK_STATUS) >> 3\<close> is
  a number from 0 to 15, cast to the enumeration, whose sixteen enumerators are numbered in
  this order.
\<close>

definition usb_link_status :: "u8 \<Rightarrow> u8" where
  "usb_link_status val = drop_bit 3 (val AND AB8500_USB_LINK_STATUS)"

definition link_status_of :: "u8 \<Rightarrow> ab8500_charger_link_status" where
  "link_status_of v =
     [USB_STAT_NOT_CONFIGURED, USB_STAT_STD_HOST_NC, USB_STAT_STD_HOST_C_NS,
      USB_STAT_STD_HOST_C_S, USB_STAT_HOST_CHG_NM, USB_STAT_HOST_CHG_HS,
      USB_STAT_HOST_CHG_HS_CHIRP, USB_STAT_DEDICATED_CHG, USB_STAT_ACA_RID_A,
      USB_STAT_ACA_RID_B, USB_STAT_ACA_RID_C_NM, USB_STAT_ACA_RID_C_HS,
      USB_STAT_ACA_RID_C_HS_CHIRP, USB_STAT_HM_IDGND, USB_STAT_RESERVED,
      USB_STAT_NOT_VALID_LINK] ! unat v"

text \<open>
  \<^verbatim>\<open>ab8500_charger_read_usb_type\<close>. The local \<^verbatim>\<open>val\<close> is only read after a successful
  read; \<open>val0\<close> is the indeterminate local of the classification it ends in.
\<close>

definition ab8500_charger_read_usb_type ::
  "ab8500_charger \<Rightarrow> ab8500_hw \<Rightarrow> u8 \<Rightarrow> int \<times> ab8500_charger \<times> ab8500_hw" where
  "ab8500_charger_read_usb_type di hw val0 =
     (case abx500_get_register_interruptible hw AB8500_INTERRUPT AB8500_IT_SOURCE21_REG 0 of
        (ret, val, hw1) \<Rightarrow>
          if ret < 0 then (ret, di, hw1)
          else
            (case abx500_get_register_interruptible hw1 AB8500_USB AB8500_USB_LINE_STAT_REG val of
               (ret2, val2, hw2) \<Rightarrow>
                 if ret2 < 0 then (ret2, di, hw2)
                 else ab8500_charger_max_usb_curr di hw2 val0
                        (link_status_of (usb_link_status val2))))"

section \<open>Current stepping\<close>

definition ab8500_charger_get_usb_cur :: "ab8500_charger \<Rightarrow> int \<times> ab8500_charger" where
  "ab8500_charger_get_usb_cur di =
     (case (if usb_current (usb_state di) = 100 then (0, di\<lparr>max_usb_in_curr := USB_CH_IP_CUR_LVL_0P09\<rparr>)
            else if usb_current (usb_state di) = 200 then (0, di\<lparr>max_usb_in_curr := USB_CH_IP_CUR_LVL_0P19\<rparr>)
            else if usb_current (usb_state di) = 300 then (0, di\<lparr>max_usb_in_curr := USB_CH_IP_CUR_LVL_0P29\<rparr>)
            else if usb_current (usb_state di) = 400 then (0, di\<lparr>max_usb_in_curr := USB_CH_IP_CUR_LVL_0P38\<rparr>)
            else if usb_current (usb_state di) = 500 then (0, di\<lparr>max_usb_in_curr := USB_CH_IP_CUR_LVL_0P5\<rparr>)
            else (- EPERM, di\<lparr>max_usb_in_curr := USB_CH_IP_CUR_LVL_0P05\<rparr>)) of
        (ret, di1) \<Rightarrow>
          (ret,
           di1\<lparr>vbus_drop := (vbus_drop di1)
                  \<lparr>real_max_usb_in_curr :=
                     (max_usb_in_curr di1, snd (real_max_usb_in_curr (vbus_drop di1)))\<rparr>\<rparr>))"

definition ab8500_charger_check_continue_stepping :: "ab8500_charger \<Rightarrow> ab8500_reg \<Rightarrow> bool" where
  "ab8500_charger_check_continue_stepping di reg =
     (case reg of
        AB8500_USBCH_IPT_CRNTLVL_REG \<Rightarrow> \<not> vbus_drop_end (flags di)
      | _ \<Rightarrow> True)"

definition ab8500_charger_vbuschdropend_handler :: "ab8500_charger \<Rightarrow> ab8500_charger" where
  "ab8500_charger_vbuschdropend_handler di = di\<lparr>flags := (flags di)\<lparr>vbus_drop_end := True\<rparr>\<rparr>"

definition ab8500_charger_vbusovv_handler :: "ab8500_charger \<Rightarrow> ab8500_charger" where
  "ab8500_charger_vbusovv_handler di = di\<lparr>flags := (flags di)\<lparr>vbus_ovv := True\<rparr>\<rparr>"

definition reg_code :: "nat \<Rightarrow> int \<Rightarrow> u8" where
  \<comment> \<open>\<^verbatim>\<open>(u8) i << shift_value\<close>, passed on as the \<^verbatim>\<open>u8\<close> argument of the register write\<close>
  "reg_code shift_value i = push_bit shift_value (word_of_int i)"

text \<open>
  The step-down loop
  \<^verbatim>\<open>for (i = prev_curr_index - 1; i >= curr_index; i--)\<close>:
  a failed write leaves through \<^verbatim>\<open>exit_set_current\<close> with the write's result code.
  \<open>ret\<close> is the current value of the C variable. The sleep between steps changes nothing.
\<close>

function step_down :: "ab8500_reg \<Rightarrow> nat \<Rightarrow> int \<Rightarrow> int \<Rightarrow> int \<Rightarrow> ab8500_hw \<Rightarrow> int \<times> ab8500_hw" where
  "step_down reg shift_value curr_index i ret hw =
     (if i \<ge> curr_index then
        (let r = abx500_set_register_interruptible hw AB8500_CHARGER reg (reg_code shift_value i)
         in if fst r \<noteq> 0 then r
            else step_down reg shift_value curr_index (i - 1) (fst r) (snd r))
      else (ret, hw))"
  by pat_completeness auto
termination
  by (relation "measure (\<lambda>(reg, shift_value, curr_index, i, ret, hw). nat (i + 1 - curr_index))") auto

declare step_down.simps [simp del]

text \<open>
  The step-up loop
  \<^verbatim>\<open>for (i = prev_curr_index + 1; i <= curr_index && allow; i++)\<close>.
  The flag that \<^verbatim>\<open>ab8500_charger_check_continue_stepping\<close> reads is set by the
  \<^verbatim>\<open>VBUS_CH_DROP_END\<close> interrupt handler, which runs concurrently with the loop:
  \<open>irq i\<close> says whether that interrupt is served while the loop body for code \<open>i\<close>
  runs (after its register write, before the check that ends the body).
\<close>

function step_up ::
  "(int \<Rightarrow> bool) \<Rightarrow> ab8500_reg \<Rightarrow> nat \<Rightarrow> int \<Rightarrow> int \<Rightarrow> bool \<Rightarrow> int \<Rightarrow>
   ab8500_charger \<Rightarrow> ab8500_hw \<Rightarrow> int \<times> ab8500_charger \<times> ab8500_hw" where
  "step_up irq reg shift_value curr_index i allow ret di hw =
     (if i \<le> curr_index \<and> allow then
        (let r = abx500_set_register_interruptible hw AB8500_CHARGER reg (reg_code shift_value i)
         in if fst r \<noteq> 0 then (fst r, di, snd r)
            else (let di1 = (if irq i then ab8500_charger_vbuschdropend_handler di else di)
                  in step_up irq reg shift_value curr_index (i + 1)
                       (ab8500_charger_check_continue_stepping di1 reg) (fst r) di1 (snd r)))
      else (ret, di, hw))"
  by pat_completeness auto
termination
  by (relation "measure (\<lambda>(irq, reg, shift_value, curr_index, i, allow, ret, di, hw).
                  nat (curr_index + 1 - i))") auto

declare step_up.simps [simp del]

definition exit_set_current ::
  "int \<Rightarrow> ab8500_charger \<Rightarrow> ab8500_hw \<Rightarrow> int \<times> ab8500_charger \<times> ab8500_hw" where
  \<comment> \<open>the label \<^verbatim>\<open>exit_set_current\<close>: the session counter is decremented on every path\<close>
  "exit_set_current ret di hw =
     (ret, di\<lparr>current_stepping_sessions := current_stepping_sessions di - 1\<rparr>, hw)"

definition set_current_steps ::
  "(int \<Rightarrow> bool) \<Rightarrow> ab8500_charger \<Rightarrow> ab8500_hw \<Rightarrow> ab8500_reg \<Rightarrow> int \<Rightarrow> nat \<Rightarrow> int \<Rightarrow> int \<Rightarrow> bool \<Rightarrow>
   int \<times> ab8500_charger \<times> ab8500_hw" where
  \<comment> \<open>\<^verbatim>\<open>ab8500_charger_set_current\<close> from the range check after the switch to the end\<close>
  "set_current_steps irq di hw reg ret shift_value prev_curr_index curr_index no_stepping =
     (if curr_index < 0 then exit_set_current (- ENXIO) di hw
      else if prev_curr_index = curr_index then exit_set_current 0 di hw
      else if no_stepping then
        (let r = abx500_set_register_interruptible hw AB8500_CHARGER reg (reg_code shift_value curr_index)
         in exit_set_current (fst r) di (snd r))
      else if prev_curr_index > curr_index then
        (let r = step_down reg shift_value curr_index (prev_curr_index - 1) ret hw
         in exit_set_current (fst r) di (snd r))
      else
        (case step_up irq reg shift_value curr_index (prev_curr_index + 1) True ret di hw of
           (ret1, di1, hw1) \<Rightarrow> exit_set_current ret1 di1 hw1))"

text \<open>
  \<^verbatim>\<open>ab8500_charger_set_current(di, ich, reg)\<close>. The local \<^verbatim>\<open>reg_value\<close> is only read
  after a successful register read. The step delay \<^verbatim>\<open>step_mdelay\<close> only sets how long
  the loops sleep and is left out.
\<close>

definition ab8500_charger_set_current ::
  "(int \<Rightarrow> bool) \<Rightarrow> ab8500_charger \<Rightarrow> ab8500_hw \<Rightarrow> int \<Rightarrow> ab8500_reg \<Rightarrow>
   int \<times> ab8500_charger \<times> ab8500_hw" where
  "ab8500_charger_set_current irq di0 hw0 ich reg =
     (let di = di0\<lparr>current_stepping_sessions := current_stepping_sessions di0 + 1\<rparr> in
      case abx500_get_register_interruptible hw0 AB8500_CHARGER reg 0 of
        (ret, reg_value, hw) \<Rightarrow>
          if ret < 0 then exit_set_current ret di hw
          else
            (case reg of
               AB8500_MCH_IPT_CURLVL_REG \<Rightarrow>
                 set_current_steps irq di hw reg ret MAIN_CH_INPUT_CURR_SHIFT
                   (uint (drop_bit MAIN_CH_INPUT_CURR_SHIFT reg_value))
                   (ab8500_current_to_regval ich)
                   (charger_connected (ac di) = 0)
             | AB8500_USBCH_IPT_CRNTLVL_REG \<Rightarrow>
                 (case abx500_get_register_interruptible hw AB8500_CHARGER
                         AB8500_CH_USBCH_STAT2_REG reg_value of
                    (ret2, reg_value2, hw2) \<Rightarrow>
                      if ret2 < 0 then exit_set_current ret2 di hw2
                      else
                        set_current_steps irq di hw2 reg ret2 VBUS_IN_CURR_LIM_SHIFT
                          (min (uint (drop_bit VBUS_IN_CURR_LIM_SHIFT reg_value))
                               (uint (drop_bit AUTO_VBUS_IN_CURR_LIM_SHIFT reg_value2)))
                          (ab8500_vbus_in_curr_to_regval ich)
                          (charger_connected (usb di) = 0))
             | AB8500_CH_OPT_CRNTLVL_REG \<Rightarrow>
                 set_current_steps irq di hw reg ret 0
                   (uint reg_value)
                   (ab8500_current_to_regval ich)
                   (charger_connected (usb di) = 0 \<and> charger_connected (ac di) = 0)
             | _ \<Rightarrow> exit_set_current (- ENXIO) di hw))"

definition ab8500_charger_set_vbus_in_curr ::
  "(int \<Rightarrow> bool) \<Rightarrow> ab8500_charger \<Rightarrow> ab8500_hw \<Rightarrow> int \<Rightarrow> int \<times> ab8500_charger \<times> ab8500_hw" where
  "ab8500_charger_set_vbus_in_curr irq di hw ich_in =
     (let m0 = min (usb_curr_max di) ich_in;
          m1 = (if fst (real_max_usb_in_curr (vbus_drop di)) > 0
                then min (fst (real_max_usb_in_curr (vbus_drop di))) m0 else m0);
          m2 = (if usb_current (usb_state di) \<ge> 100
                then min (usb_current (usb_state di)) m1 else m1);
          min_value =
            (if m2 = 100 then (if vbat di < VBAT_TRESH_IP_CUR_RED then USB_CH_IP_CUR_LVL_0P05 else m2)
             else if m2 = 500 then (if vbat di < VBAT_TRESH_IP_CUR_RED then USB_CH_IP_CUR_LVL_0P45 else m2)
             else m2)
      in ab8500_charger_set_current irq di hw min_value AB8500_USBCH_IPT_CRNTLVL_REG)"

definition ab8500_charger_set_output_curr ::
  "(int \<Rightarrow> bool) \<Rightarrow> ab8500_charger \<Rightarrow> ab8500_hw \<Rightarrow> int \<Rightarrow> int \<times> ab8500_charger \<times> ab8500_hw" where
  "ab8500_charger_set_output_curr irq di hw ich_out =
     ab8500_charger_set_current irq di hw ich_out AB8500_CH_OPT_CRNTLVL_REG"

section \<open>Deferred work and interrupt handlers\<close>

definition ab8500_charger_check_hw_failure_work :: "ab8500_charger \<Rightarrow> ab8500_hw \<Rightarrow> ab8500_charger \<times> ab8500_hw" where
  "ab8500_charger_check_hw_failure_work di hw =
     (if vbus_ovv (flags di) then
        (case abx500_get_register_interruptible hw AB8500_CHARGER AB8500_CH_USBCH_STAT2_REG 0 of
           (ret, reg_value, hw1) \<Rightarrow>
             if ret < 0 then (di, hw1)
             else if reg_value AND VBUS_OVV_TH = 0
                  then (di\<lparr>flags := (flags di)\<lparr>vbus_ovv := False\<rparr>\<rparr>, hw1)
                  else (di, hw1))
      else (di, hw))"

definition ab8500_charger_check_usbchargernotok_work :: "ab8500_charger \<Rightarrow> ab8500_hw \<Rightarrow> ab8500_charger \<times> ab8500_hw" where
  "ab8500_charger_check_usbchargernotok_work di hw =
     (case abx500_get_register_interruptible hw AB8500_CHARGER AB8500_CH_USBCH_STAT2_REG 0 of
        (ret, reg_value, hw1) \<Rightarrow>
          if ret < 0 then (di, hw1)
          else if reg_value AND VBUS_CH_NOK \<noteq> 0
               then (di\<lparr>flags := (flags di)\<lparr>usbchargernotok := True\<rparr>\<rparr>, hw1)
               else (di\<lparr>flags := (flags di)\<lparr>usbchargernotok := False, vbus_collapse := False\<rparr>\<rparr>, hw1))"

definition ab8500_charger_check_usb_thermal_prot_work :: "ab8500_charger \<Rightarrow> ab8500_hw \<Rightarrow> ab8500_charger \<times> ab8500_hw" where
  "ab8500_charger_check_usb_thermal_prot_work di hw =
     (case abx500_get_register_interruptible hw AB8500_CHARGER AB8500_CH_USBCH_STAT2_REG 0 of
        (ret, reg_value, hw1) \<Rightarrow>
          if ret < 0 then (di, hw1)
          else if reg_value AND USB_CH_TH_PROT \<noteq> 0
               then (di\<lparr>flags := (flags di)\<lparr>usb_thermal_prot := True\<rparr>\<rparr>, hw1)
               else (di\<lparr>flags := (flags di)\<lparr>usb_thermal_prot := False\<rparr>\<rparr>, hw1))"

text \<open>
  \<^verbatim>\<open>ab8500_charger_usb_link_status_work\<close>. \<open>usb_link_status_detected\<close> is its second
  half, from the test of \<^verbatim>\<open>detected_chargers & USB_PW_CONN\<close> that decides between teardown
  and classification. The local \<^verbatim>\<open>val\<close> is only read after a successful read.
\<close>

definition usb_link_status_detected ::
  "ab8500_charger \<Rightarrow> ab8500_hw \<Rightarrow> int \<Rightarrow> u8 \<Rightarrow> ab8500_charger \<times> ab8500_hw" where
  "usb_link_status_detected di hw detected_chargers val0 =
     (if detected_chargers AND USB_PW_CONN = 0 then
        (ab8500_charger_set_usb_connected (di\<lparr>vbus_detected := False\<rparr>) False, hw)
      else
        (case ab8500_charger_read_usb_type (di\<lparr>vbus_detected := True\<rparr>) hw val0 of
           (ret, di1, hw1) \<Rightarrow>
             if ret = 0 then
               (if is_aca_rid di1 = 1 then (di1\<lparr>is_aca_rid := is_aca_rid di1 + 1\<rparr>, hw1)
                else (di1, hw1))
             else if ret = - ENXIO then
               (ab8500_charger_set_usb_connected
                  (di1\<lparr>flags := (flags di1)\<lparr>report_charger_no_charge := True\<rparr>,
                       is_usb_host := True\<rparr>) True, hw1)
             else (di1, hw1)))"

definition ab8500_charger_usb_link_status_work ::
  "ab8500_charger \<Rightarrow> ab8500_hw \<Rightarrow> u8 \<Rightarrow> ab8500_charger \<times> ab8500_hw" where
  "ab8500_charger_usb_link_status_work di hw val0 =
     (case ab8500_charger_detect_chargers hw False of
        (detected_chargers, hw1) \<Rightarrow>
          if detected_chargers < 0 then (di, hw1)
          else if detected_chargers AND USB_PW_CONN \<noteq> 0 then
            (case abx500_get_register_interruptible hw1 AB8500_USB AB8500_USB_LINE_STAT_REG 0 of
               (ret, val, hw2) \<Rightarrow>
                 if ret \<ge> 0 \<and> link_status_of (usb_link_status val) = USB_STAT_NOT_VALID_LINK \<and>
                    invalid_charger_detect_state di = 0
                 then
                   (let hw3 = snd (abx500_mask_and_set_register_interruptible hw2
                                     AB8500_CHARGER AB8500_USBCH_CTRL1_REG USB_CH_ENA USB_CH_ENA);
                        hw4 = snd (abx500_mask_and_set_register_interruptible hw3
                                     AB8500_USB AB8500_USB_LINE_CTRL2_REG 0x01 0x01)
                    in (di\<lparr>invalid_charger_detect_state := 1\<rparr>, hw4))
                 else if invalid_charger_detect_state di = 1 then
                   usb_link_status_detected (di\<lparr>invalid_charger_detect_state := 2\<rparr>)
                     (snd (abx500_mask_and_set_register_interruptible hw2
                             AB8500_USB AB8500_USB_LINE_CTRL2_REG 0x01 0x00))
                     detected_chargers val0
                 else usb_link_status_detected di hw2 detected_chargers val0)
          else
            usb_link_status_detected (di\<lparr>invalid_charger_detect_state := 0\<rparr>) hw1
              detected_chargers val0)"

definition ab8500_charger_chwdexp_handler :: "ab8500_charger \<Rightarrow> ab8500_charger" where
  "ab8500_charger_chwdexp_handler di =
     (let di1 = (if charger_online (ac di) \<noteq> 0 then di\<lparr>ac := (ac di)\<lparr>wd_expired := True\<rparr>\<rparr> else di)
      in if charger_online (usb di1) \<noteq> 0 then di1\<lparr>usb := (usb di1)\<lparr>wd_expired := True\<rparr>\<rparr> else di1)"

definition drop_end_retry :: "(int \<Rightarrow> bool) \<Rightarrow> ab8500_charger \<Rightarrow> ab8500_hw \<Rightarrow> ab8500_charger \<times> ab8500_hw" where
  \<comment> \<open>the last statement of the drop-end work: re-apply the input current if still connected\<close>
  "drop_end_retry irq di hw =
     (if charger_connected (usb di) \<noteq> 0
      then snd (ab8500_charger_set_vbus_in_curr irq di hw (max_usb_in_curr di))
      else (di, hw))"

text \<open>
  \<^verbatim>\<open>ab8500_charger_vbus_drop_end_work\<close>. \<^verbatim>\<open>int new_time = vd->retry_current_time << 1\<close>
  shifts an \<^verbatim>\<open>unsigned int\<close> and reads the result as a signed \<^verbatim>\<open>int\<close>. The index
  \<^verbatim>\<open>reg_value >> 4\<close> is below 16, the size of the table.
\<close>

definition ab8500_charger_vbus_drop_end_work ::
  "(int \<Rightarrow> bool) \<Rightarrow> ab8500_charger \<Rightarrow> ab8500_hw \<Rightarrow> ab8500_charger \<times> ab8500_hw" where
  "ab8500_charger_vbus_drop_end_work irq di0 hw0 =
     (let di = di0\<lparr>flags := (flags di0)\<lparr>vbus_drop_end := False\<rparr>\<rparr>;
          hw1 = snd (abx500_set_register_interruptible hw0 AB8500_CHARGER AB8500_CHARGER_CTRL 0x01)
      in case abx500_get_register_interruptible hw1 AB8500_CHARGER AB8500_CH_USBCH_STAT2_REG 0 of
           (ret, reg_value, hw) \<Rightarrow>
             if ret < 0 then drop_end_retry irq di hw
             else
               (let cur = ab8500_charger_vbus_in_curr_map !
                            unat (drop_bit AUTO_VBUS_IN_CURR_LIM_SHIFT reg_value)
                in if snd (real_max_usb_in_curr (vbus_drop di)) \<noteq> cur then
                     drop_end_retry irq
                       (di\<lparr>vbus_drop := (vbus_drop di)
                              \<lparr>real_max_usb_in_curr := (fst (real_max_usb_in_curr (vbus_drop di)), cur),
                               retry_current_time := VBUS_IN_CURR_LIM_RETRY_SET_TIME\<rparr>\<rparr>) hw
                   else
                     (let new_time = sint (push_bit 1 (retry_current_time (vbus_drop di)))
                      in if new_time > VBUS_IN_CURR_LIM_RETRY_MAX_TIME then
                           (di\<lparr>vbus_drop := (vbus_drop di)
                                  \<lparr>real_max_usb_in_curr :=
                                     (snd (real_max_usb_in_curr (vbus_drop di)),
                                      snd (real_max_usb_in_curr (vbus_drop di)))\<rparr>\<rparr>, hw)
                         else
                           drop_end_retry irq
                             (di\<lparr>vbus_drop := (vbus_drop di)
                                    \<lparr>retry_current_time := word_of_int new_time\<rparr>\<rparr>) hw)))"

text \<open>
  One drop-end observation: the interrupt handler sets the flag and queues the work, the
  work then runs. \<open>drop_end_events\<close> is a run of \<open>n\<close> such observations; \<open>irqs k\<close> is
  the interrupt schedule during the stepping of the \<open>k\<close>-th one.
\<close>

definition drop_end_event ::
  "(int \<Rightarrow> bool) \<Rightarrow> ab8500_charger \<times> ab8500_hw \<Rightarrow> ab8500_charger \<times> ab8500_hw" where
  "drop_end_event irq s =
     ab8500_charger_vbus_drop_end_work irq (ab8500_charger_vbuschdropend_handler (fst s)) (snd s)"

fun drop_end_events ::
  "(nat \<Rightarrow> int \<Rightarrow> bool) \<Rightarrow> nat \<Rightarrow> ab8500_charger \<times> ab8500_hw \<Rightarrow> ab8500_charger \<times> ab8500_hw" where
  "drop_end_events irqs 0 s = s"
| "drop_end_events irqs (Suc n) s = drop_end_event (irqs n) (drop_end_events irqs n s)"

section \<open>Power-supply properties\<close>

datatype power_supply_type =
    POWER_SUPPLY_TYPE_BATTERY | POWER_SUPPLY_TYPE_UPS | POWER_SUPPLY_TYPE_MAINS | POWER_SUPPLY_TYPE_USB

datatype power_supply_property =
    POWER_SUPPLY_PROP_STATUS
  | POWER_SUPPLY_PROP_HEALTH
  | POWER_SUPPLY_PROP_CURRENT_AVG
  | POWER_SUPPLY_PROP_PRESENT
  | POWER_SUPPLY_PROP_ONLINE
  | POWER_SUPPLY_PROP_VOLTAGE_NOW
  | POWER_SUPPLY_PROP_VOLTAGE_AVG
  | POWER_SUPPLY_PROP_CURRENT_NOW

datatype power_supply_health =
    POWER_SUPPLY_HEALTH_UNKNOWN
  | POWER_SUPPLY_HEALTH_GOOD
  | POWER_SUPPLY_HEALTH_OVERHEAT
  | POWER_SUPPLY_HEALTH_DEAD
  | POWER_SUPPLY_HEALTH_OVERVOLTAGE
  | POWER_SUPPLY_HEALTH_UNSPEC_FAILURE

text \<open>\<^verbatim>\<open>val->intval\<close>: a health enumerator or a plain number.\<close>

datatype power_supply_propval = Health power_supply_health | Intval int

definition ab8500_charger_get_vbus_voltage :: "ab8500_charger \<Rightarrow> ab8500_hw \<Rightarrow> int" where
  "ab8500_charger_get_vbus_voltage di hw =
     (if charger_connected (usb di) \<noteq> 0 then gpadc hw VBUS_V else 0)"

definition ab8500_charger_get_usb_current :: "ab8500_charger \<Rightarrow> ab8500_hw \<Rightarrow> int" where
  "ab8500_charger_get_usb_current di hw =
     (if charger_online (usb di) \<noteq> 0 then gpadc hw USB_CHARGER_C else 0)"

definition ab8500_charger_usb_cv :: "ab8500_charger \<Rightarrow> ab8500_hw \<Rightarrow> int \<times> ab8500_hw" where
  "ab8500_charger_usb_cv di hw =
     (if charger_online (usb di) \<noteq> 0 then
        (case abx500_get_register_interruptible hw AB8500_CHARGER AB8500_CH_USBCH_STAT1_REG 0 of
           (ret, val, hw1) \<Rightarrow>
             if ret < 0 then (0, hw1)
             else if val AND USB_CH_CV_ON \<noteq> 0 then (1, hw1) else (0, hw1))
      else (0, hw))"

definition present_intval :: "ab8500_charger \<Rightarrow> power_supply_type \<Rightarrow> int" where
  \<comment> \<open>the shared body of \<^verbatim>\<open>POWER_SUPPLY_PROP_ONLINE\<close> and \<^verbatim>\<open>POWER_SUPPLY_PROP_PRESENT\<close>\<close>
  "present_intval di psy_type =
     (if psy_type = POWER_SUPPLY_TYPE_MAINS
      then (if is_usb_host di then 0 else charger_connected (usb di))
      else (if is_usb_host di then charger_connected (usb di) else 0))"

text \<open>
  \<^verbatim>\<open>ab8500_charger_usb_get_property\<close>, the property function of both registered power
  supplies. The result is the return code, the value stored through \<^verbatim>\<open>val\<close> (if any),
  and the updated driver and chip state. The products by 1000 of the voltage and current
  properties are taken over the integers, without the wrap-around of a C \<^verbatim>\<open>int\<close>; the
  statements below concern the health property only.
\<close>

definition ab8500_charger_usb_get_property ::
  "ab8500_charger \<Rightarrow> ab8500_hw \<Rightarrow> power_supply_type \<Rightarrow> power_supply_property \<Rightarrow>
   int \<times> power_supply_propval option \<times> ab8500_charger \<times> ab8500_hw" where
  "ab8500_charger_usb_get_property di hw psy_type psp =
     (if psy_type \<noteq> POWER_SUPPLY_TYPE_MAINS \<and> psy_type \<noteq> POWER_SUPPLY_TYPE_USB
      then (- ENXIO, None, di, hw)
      else
        (case psp of
           POWER_SUPPLY_PROP_HEALTH \<Rightarrow>
             (0,
              Some (Health
                (if report_charger_no_charge (flags di) then POWER_SUPPLY_HEALTH_UNKNOWN
                 else if usbchargernotok (flags di) then POWER_SUPPLY_HEALTH_UNSPEC_FAILURE
                 else if wd_expired (ac di) \<or> wd_expired (usb di) then POWER_SUPPLY_HEALTH_DEAD
                 else if usb_thermal_prot (flags di) then POWER_SUPPLY_HEALTH_OVERHEAT
                 else if vbus_ovv (flags di) then POWER_SUPPLY_HEALTH_OVERVOLTAGE
                 else POWER_SUPPLY_HEALTH_GOOD)),
              di, hw)
         | POWER_SUPPLY_PROP_ONLINE \<Rightarrow> (0, Some (Intval (present_intval di psy_type)), di, hw)
         | POWER_SUPPLY_PROP_PRESENT \<Rightarrow> (0, Some (Intval (present_intval di psy_type)), di, hw)
         | POWER_SUPPLY_PROP_VOLTAGE_NOW \<Rightarrow>
             (let v = ab8500_charger_get_vbus_voltage di hw
              in (0, Some (Intval (v * 1000)), di\<lparr>usb := (usb di)\<lparr>charger_voltage := v\<rparr>\<rparr>, hw))
         | POWER_SUPPLY_PROP_VOLTAGE_AVG \<Rightarrow>
             (case ab8500_charger_usb_cv di hw of
                (cv, hw1) \<Rightarrow> (0, Some (Intval cv), di\<lparr>usb := (usb di)\<lparr>cv_active := cv\<rparr>\<rparr>, hw1))
         | POWER_SUPPLY_PROP_CURRENT_NOW \<Rightarrow>
             (0, Some (Intval (ab8500_charger_get_usb_current di hw * 1000)), di, hw)
         | POWER_SUPPLY_PROP_CURRENT_AVG \<Rightarrow>
             (0, Some (Intval (if vbus_collapse (flags di) then 1 else 0)), di, hw)
         | _ \<Rightarrow> (- EINVAL, None, di, hw)))"

section \<open>Vocabulary for the statements\<close>

text \<open>
  \<open>drop_seen irq di i j\<close>: the flag \<^verbatim>\<open>flags.vbus_drop_end\<close> as the step-up loop finds
  it at the check that follows the write of code \<open>j\<close>, when the loop started at code
  \<open>i\<close> in state \<open>di\<close>: it was set on entry, or the interrupt came during one of the
  steps \<open>i..j\<close>. \<open>saw_drop irq i j di\<close> is the driver state at that check.
\<close>

definition drop_seen :: "(int \<Rightarrow> bool) \<Rightarrow> ab8500_charger \<Rightarrow> int \<Rightarrow> int \<Rightarrow> bool" where
  "drop_seen irq di i j \<longleftrightarrow> vbus_drop_end (flags di) \<or> list_ex irq [i..j]"

text \<open>
  \<open>wrote hw reg sh ks\<close>: the chip after the codes \<open>ks\<close> have been written, in this order
  and without error, to register \<open>reg\<close> of the charger bank.
\<close>

definition wrote :: "ab8500_hw \<Rightarrow> ab8500_reg \<Rightarrow> nat \<Rightarrow> int list \<Rightarrow> ab8500_hw" where
  "wrote hw reg sh ks =
     (if ks = [] then hw
      else hw\<lparr>regs := (regs hw)(AB8500_CHARGER := (regs hw AB8500_CHARGER)(reg := reg_code sh (last ks))),
              xfers := xfers hw @ map (\<lambda>k. Xfer_set AB8500_CHARGER reg (reg_code sh k)) ks\<rparr>)"

definition saw_drop :: "(int \<Rightarrow> bool) \<Rightarrow> int \<Rightarrow> int \<Rightarrow> ab8500_charger \<Rightarrow> ab8500_charger" where
  "saw_drop irq i j di = di\<lparr>flags := (flags di)\<lparr>vbus_drop_end := drop_seen irq di i j\<rparr>\<rparr>"

text \<open>
  What the \<^verbatim>\<open>switch (reg)\<close> of \<^verbatim>\<open>ab8500_charger_set_current\<close> computes for a register:
  the shift, the previous code \<^verbatim>\<open>prev_curr_index\<close> read from the chip (for the USB input
  register the minimum of the register's code and the auto-limit code), the target code
  \<^verbatim>\<open>curr_index\<close>, and whether the charger the register belongs to is connected
  (\<^verbatim>\<open>no_stepping\<close> is the negation).
\<close>

definition shift_of :: "ab8500_reg \<Rightarrow> nat" where
  "shift_of reg =
     (if reg = AB8500_MCH_IPT_CURLVL_REG then MAIN_CH_INPUT_CURR_SHIFT
      else if reg = AB8500_USBCH_IPT_CRNTLVL_REG then VBUS_IN_CURR_LIM_SHIFT
      else 0)"

definition prev_curr_index :: "ab8500_hw \<Rightarrow> ab8500_reg \<Rightarrow> int" where
  "prev_curr_index hw reg =
     (if reg = AB8500_USBCH_IPT_CRNTLVL_REG
      then min (uint (drop_bit VBUS_IN_CURR_LIM_SHIFT (regs hw AB8500_CHARGER reg)))
               (uint (drop_bit AUTO_VBUS_IN_CURR_LIM_SHIFT
                        (regs hw AB8500_CHARGER AB8500_CH_USBCH_STAT2_REG)))
      else uint (drop_bit (shift_of reg) (regs hw AB8500_CHARGER reg)))"

definition curr_index :: "ab8500_reg \<Rightarrow> int \<Rightarrow> int" where
  "curr_index reg ich =
     (if reg = AB8500_USBCH_IPT_CRNTLVL_REG then ab8500_vbus_in_curr_to_regval ich
      else ab8500_current_to_regval ich)"

definition charger_present :: "ab8500_charger \<Rightarrow> ab8500_reg \<Rightarrow> bool" where
  "charger_present di reg =
     (if reg = AB8500_MCH_IPT_CURLVL_REG then charger_connected (ac di) \<noteq> 0
      else if reg = AB8500_USBCH_IPT_CRNTLVL_REG then charger_connected (usb di) \<noteq> 0
      else charger_connected (usb di) \<noteq> 0 \<or> charger_connected (ac di) \<noteq> 0)"

text \<open>
  The three registers the switch accepts; \<open>reads_ok\<close>: the register reads that precede
  the stepping succeed; \<open>read_done\<close>: the chip after these reads; \<open>read_ret\<close>: the value
  they leave in \<^verbatim>\<open>ret\<close>; \<open>session_begin\<close>: the session counter incremented on entry.
\<close>

definition supported_reg :: "ab8500_reg \<Rightarrow> bool" where
  "supported_reg reg \<longleftrightarrow>
     reg = AB8500_MCH_IPT_CURLVL_REG \<or> reg = AB8500_USBCH_IPT_CRNTLVL_REG \<or>
     reg = AB8500_CH_OPT_CRNTLVL_REG"

definition reads_ok :: "ab8500_hw \<Rightarrow> ab8500_reg \<Rightarrow> bool" where
  "reads_ok hw reg \<longleftrightarrow>
     0 \<le> get_ret hw AB8500_CHARGER reg \<and>
     (if reg = AB8500_USBCH_IPT_CRNTLVL_REG
      then 0 \<le> get_ret hw AB8500_CHARGER AB8500_CH_USBCH_STAT2_REG else True)"

definition read_done :: "ab8500_hw \<Rightarrow> ab8500_reg \<Rightarrow> ab8500_hw" where
  "read_done hw reg =
     hw\<lparr>xfers := xfers hw @
        (if reg = AB8500_USBCH_IPT_CRNTLVL_REG
         then [Xfer_get AB8500_CHARGER reg, Xfer_get AB8500_CHARGER AB8500_CH_USBCH_STAT2_REG]
         else [Xfer_get AB8500_CHARGER reg])\<rparr>"

definition read_ret :: "ab8500_hw \<Rightarrow> ab8500_reg \<Rightarrow> int" where
  "read_ret hw reg =
     (if reg = AB8500_USBCH_IPT_CRNTLVL_REG
      then get_ret hw AB8500_CHARGER AB8500_CH_USBCH_STAT2_REG
      else get_ret hw AB8500_CHARGER reg)"

definition session_begin :: "ab8500_charger \<Rightarrow> ab8500_charger" where
  "session_begin di = di\<lparr>current_stepping_sessions := current_stepping_sessions di + 1\<rparr>"

text \<open>
  A concrete driver state (USB host connected and charging) and a concrete chip on which
  every transaction succeeds, for evaluating the functions on explicit inputs.
  \<open>witness_regs\<close>: input-current register at code 1, auto-limit at code 15, output
  current at code 0. \<open>no_irq\<close>: no drop-end interrupt arrives.
\<close>

definition example_di :: ab8500_charger where
  "example_di =
     \<lparr>max_usb_in_curr = 500, vbus_detected = True, vbat = 4000, is_usb_host = True,
      is_aca_rid = 0, invalid_charger_detect_state = 0, current_stepping_sessions = 0,
      usb_curr_max = 1500, usb_curr_max_nc = 0,
      flags = \<lparr>mainextchnotok = False, main_thermal_prot = False, usb_thermal_prot = False,
               vbus_ovv = False, usbchargernotok = False, chgwdexp = False,
               vbus_collapse = False, vbus_drop_end = False, report_charger_no_charge = False\<rparr>,
      usb_state = \<lparr>usb_current = 500, usb_current_tmp = 500,
                   state = AB8500_BM_USB_STATE_CONFIGURED,
                   state_tmp = AB8500_BM_USB_STATE_CONFIGURED\<rparr>,
      ac = \<lparr>charger_connected = 0, charger_online = 0, charger_voltage = 0, cv_active = 0,
            wd_expired = False\<rparr>,
      usb = \<lparr>charger_connected = 1, charger_online = 1, charger_voltage = 0, cv_active = 0,
             wd_expired = False\<rparr>,
      vbus_drop = \<lparr>real_max_usb_in_curr = (500, 0), retry_current_time = 30\<rparr>\<rparr>"

definition example_hw :: "(ab8500_reg \<Rightarrow> u8) \<Rightarrow> ab8500_hw" where
  "example_hw charger_regs =
     \<lparr>regs = (\<lambda>bank. if bank = AB8500_CHARGER then charger_regs else (\<lambda>reg. 0)),
      get_ret = (\<lambda>bank reg. 0), set_ret = (\<lambda>bank reg. 0), gpadc = (\<lambda>ch. 5000), xfers = []\<rparr>"

definition witness_regs :: "ab8500_reg \<Rightarrow> u8" where
  "witness_regs reg =
     (if reg = AB8500_USBCH_IPT_CRNTLVL_REG then 0x10
      else if reg = AB8500_CH_USBCH_STAT2_REG then 0xF0
      else if reg = AB8500_CH_OPT_CRNTLVL_REG then 0x00
      else 0)"

definition no_irq :: "int \<Rightarrow> bool" where
  "no_irq i = False"

text \<open>
  \<open>keeps_sample hw hw'\<close>: the chip \<open>hw'\<close> answers a read of the auto-limit register as
  \<open>hw\<close> does. \<open>keeps_di di di'\<close>: the driver state \<open>di'\<close> differs from \<open>di\<close> at most in
  the flag \<^verbatim>\<open>vbus_drop_end\<close>.
\<close>

definition keeps_sample :: "ab8500_hw \<Rightarrow> ab8500_hw \<Rightarrow> bool" where
  "keeps_sample hw hw' \<longleftrightarrow>
     get_ret hw' = get_ret hw \<and> set_ret hw' = set_ret hw \<and>
     regs hw' AB8500_CHARGER AB8500_CH_USBCH_STAT2_REG =
       regs hw AB8500_CHARGER AB8500_CH_USBCH_STAT2_REG"

definition keeps_di :: "ab8500_charger \<Rightarrow> ab8500_charger \<Rightarrow> bool" where
  "keeps_di di di' \<longleftrightarrow>
     (\<exists>b. di' = di\<lparr>flags := (flags di)\<lparr>vbus_drop_end := b\<rparr>\<rparr>)"

definition auto_limit_curr :: "ab8500_hw \<Rightarrow> int" where
  "auto_limit_curr hw =
     ab8500_charger_vbus_in_curr_map !
       unat (drop_bit AUTO_VBUS_IN_CURR_LIM_SHIFT
               (regs hw AB8500_CHARGER AB8500_CH_USBCH_STAT2_REG))"

definition sampled :: "ab8500_hw \<Rightarrow> ab8500_hw" where
  \<comment> \<open>the chip after the drop-end work has reset the drop counter and read the auto-limit\<close>
  "sampled hw =
     snd (snd (abx500_get_register_interruptible
       (snd (abx500_set_register_interruptible hw AB8500_CHARGER AB8500_CHARGER_CTRL 0x01))
       AB8500_CHARGER AB8500_CH_USBCH_STAT2_REG 0))"

definition drop_cleared :: "ab8500_charger \<Rightarrow> ab8500_charger" where
  "drop_cleared di = di\<lparr>flags := (flags di)\<lparr>vbus_drop_end := False\<rparr>\<rparr>"

text \<open>
  Inputs for evaluating the drop-end work: a chip whose auto-limit register reports code 5
  (450 mA), a driver state with a given last observed ceiling and backoff, and a run
  without interrupts.
\<close>

definition drop_regs :: "ab8500_reg \<Rightarrow> u8" where
  "drop_regs reg =
     (if reg = AB8500_USBCH_IPT_CRNTLVL_REG then 0x60
      else if reg = AB8500_CH_USBCH_STAT2_REG then 0x50
      else 0)"

definition drop_di :: "int \<Rightarrow> u32 \<Rightarrow> ab8500_charger" where
  "drop_di observed backoff =
     example_di\<lparr>vbus_drop := \<lparr>real_max_usb_in_curr = (500, observed),
                               retry_current_time = backoff\<rparr>\<rparr>"

definition no_irqs :: "nat \<Rightarrow> int \<Rightarrow> bool" where
  "no_irqs k i = False"

definition usb_health :: "ab8500_charger \<Rightarrow> ab8500_hw \<Rightarrow> power_supply_type \<Rightarrow> power_supply_propval option" where
  \<comment> \<open>the value the property function stores for \<^verbatim>\<open>POWER_SUPPLY_PROP_HEALTH\<close>\<close>
  "usb_health di hw psy_type =
     fst (snd (ab8500_charger_usb_get_property di hw psy_type POWER_SUPPLY_PROP_HEALTH))"

definition health_di :: "bool \<Rightarrow> ab8500_charger" where
  \<comment> \<open>USB watchdog expired and USB thermal protection active; the argument is the
      no-charger flag\<close>
  "health_di no_charge =
     example_di\<lparr>flags := (flags example_di)
                   \<lparr>usb_thermal_prot := True, report_charger_no_charge := no_charge\<rparr>,
                usb := (usb example_di)\<lparr>wd_expired := True\<rparr>\<rparr>"

text \<open>
  \<open>reg_curr_index\<close>: the code a current register holds; \<open>auto_limit_index\<close>: the code of
  the chip's automatic input-current limit; \<open>auto_limit_from hw reg k\<close>: for the USB input
  register the automatic limit is not below code \<open>k\<close>, so that the ramp starts from the
  register's own code (the other two registers have no such limit). \<open>limited_regs\<close>: the
  input-current register at code 1 with the automatic limit at code 0.
\<close>

definition reg_curr_index :: "ab8500_hw \<Rightarrow> ab8500_reg \<Rightarrow> int" where
  "reg_curr_index hw reg = uint (drop_bit (shift_of reg) (regs hw AB8500_CHARGER reg))"

definition auto_limit_index :: "ab8500_hw \<Rightarrow> int" where
  "auto_limit_index hw =
     uint (drop_bit AUTO_VBUS_IN_CURR_LIM_SHIFT (regs hw AB8500_CHARGER AB8500_CH_USBCH_STAT2_REG))"

definition auto_limit_from :: "ab8500_hw \<Rightarrow> ab8500_reg \<Rightarrow> int \<Rightarrow> bool" where
  "auto_limit_from hw reg k =
     (if reg = AB8500_USBCH_IPT_CRNTLVL_REG then k \<le> auto_limit_index hw else True)"

definition limited_regs :: "ab8500_reg \<Rightarrow> u8" where
  "limited_regs reg = (if reg = AB8500_USBCH_IPT_CRNTLVL_REG then 0x10 else 0)"

text \<open>
  \<open>auto_limit_reports hw v\<close>: the chip once its status register
  \<^verbatim>\<open>AB8500_CH_USBCH_STAT2_REG\<close> has changed to \<open>v\<close>. \<open>frozen_state\<close>: driver and chip
  after a drop-end observation at the backoff cap with an unchanged 450 mA sample.
\<close>

definition auto_limit_reports :: "ab8500_hw \<Rightarrow> u8 \<Rightarrow> ab8500_hw" where
  "auto_limit_reports hw v =
     hw\<lparr>regs := (regs hw)(AB8500_CHARGER :=
                   (regs hw AB8500_CHARGER)(AB8500_CH_USBCH_STAT2_REG := v))\<rparr>"

definition frozen_state :: "ab8500_charger \<times> ab8500_hw" where
  "frozen_state = drop_end_event no_irq (drop_di 450 3840, example_hw drop_regs)"

text \<open>
  The functions of the driver in which a field of \<^verbatim>\<open>di->flags\<close> is assigned (source lines
  408 and 413, 686 and 689, 1675, 1892, 1984 to 1990, 2020 and 2022, 2036, 2249, 2271), each
  with the inputs it depends on besides the driver and chip state. No other function assigns
  a flag; the structure is zero-allocated by the probe function. The first two are routines
  called from the detection tasks, the next five are deferred tasks, the last two are
  interrupt handlers. \<open>flags_after w di hw\<close> are the event flags once \<open>w\<close> has run in
  state \<open>di\<close> on chip \<open>hw\<close>.
\<close>

datatype flag_writer =
    Set_usb_connected bool
  | Max_usb_curr u8 ab8500_charger_link_status
  | Check_hw_failure_work
  | Check_usbchargernotok_work
  | Check_usb_thermal_prot_work
  | Usb_link_status_work u8
  | Vbus_drop_end_work "int \<Rightarrow> bool"
  | Vbuschdropend_handler
  | Vbusovv_handler

fun flag_writer_run ::
  "flag_writer \<Rightarrow> ab8500_charger \<Rightarrow> ab8500_hw \<Rightarrow> ab8500_charger \<times> ab8500_hw" where
  "flag_writer_run (Set_usb_connected connected) di hw =
     (ab8500_charger_set_usb_connected di connected, hw)"
| "flag_writer_run (Max_usb_curr val0 link_status) di hw =
     snd (ab8500_charger_max_usb_curr di hw val0 link_status)"
| "flag_writer_run Check_hw_failure_work di hw = ab8500_charger_check_hw_failure_work di hw"
| "flag_writer_run Check_usbchargernotok_work di hw =
     ab8500_charger_check_usbchargernotok_work di hw"
| "flag_writer_run Check_usb_thermal_prot_work di hw =
     ab8500_charger_check_usb_thermal_prot_work di hw"
| "flag_writer_run (Usb_link_status_work val0) di hw =
     ab8500_charger_usb_link_status_work di hw val0"
| "flag_writer_run (Vbus_drop_end_work irq) di hw = ab8500_charger_vbus_drop_end_work irq di hw"
| "flag_writer_run Vbuschdropend_handler di hw = (ab8500_charger_vbuschdropend_handler di, hw)"
| "flag_writer_run Vbusovv_handler di hw = (ab8500_charger_vbusovv_handler di, hw)"

text \<open>
  \<open>tears_down w hw\<close>: \<open>w\<close> performs the USB teardown
  \<^verbatim>\<open>ab8500_charger_set_usb_connected(di, false)\<close>, called directly or by the link-status
  task when the detection finds no USB charger. \<open>classifies_reserved w hw\<close>: \<open>w\<close> is the
  classification of the \<^verbatim>\<open>RESERVED\<close> link status, called directly or by the link-status
  task when the line-status register holds that status.
\<close>

definition tears_down :: "flag_writer \<Rightarrow> ab8500_hw \<Rightarrow> bool" where
  "tears_down w hw =
     (case w of
        Set_usb_connected connected \<Rightarrow> \<not> connected
      | Usb_link_status_work val0 \<Rightarrow>
          fst (ab8500_charger_detect_chargers hw False) AND USB_PW_CONN = 0
      | _ \<Rightarrow> False)"

definition classifies_reserved :: "flag_writer \<Rightarrow> ab8500_hw \<Rightarrow> bool" where
  "classifies_reserved w hw =
     (case w of
        Max_usb_curr val0 link_status \<Rightarrow> link_status = USB_STAT_RESERVED
      | Usb_link_status_work val0 \<Rightarrow>
          link_status_of (usb_link_status (regs hw AB8500_USB AB8500_USB_LINE_STAT_REG)) =
            USB_STAT_RESERVED
      | _ \<Rightarrow> False)"

definition is_link_status_work :: "flag_writer \<Rightarrow> bool" where
  "is_link_status_work w = (case w of Usb_link_status_work val0 \<Rightarrow> True | _ \<Rightarrow> False)"

definition is_drop_end_work :: "flag_writer \<Rightarrow> bool" where
  "is_drop_end_work w = (case w of Vbus_drop_end_work irq \<Rightarrow> True | _ \<Rightarrow> False)"

definition flags_after ::
  "flag_writer \<Rightarrow> ab8500_charger \<Rightarrow> ab8500_hw \<Rightarrow> ab8500_charger_event_flags" where
  "flags_after w di hw = flags (fst (flag_writer_run w di hw))"

section \<open>Properties of the encoders\<close>

lemma ascending_sorted: "ascending xs \<Longrightarrow> sorted_wrt (<) xs"
proof (induction xs rule: ascending.induct)
  case (1 x y zs)
  then have "x < y" and s: "sorted_wrt (<) (y # zs)" by simp_all
  from s have "\<forall>z \<in> set zs. y < z" by simp
  with \<open>x < y\<close> have "\<forall>z \<in> set (y # zs). x < z" by auto
  with s show ?case by simp
qed simp_all

lemma ascending_nth_less:
  assumes "ascending xs" "i < j" "j < length xs"
  shows "xs ! i < xs ! j"
  using ascending_sorted [OF assms(1)] assms(2,3)
  by (simp add: sorted_wrt_iff_nth_less)

lemma ascending_nth_le:
  assumes "ascending xs" "i \<le> j" "j < length xs"
  shows "xs ! i \<le> xs ! j"
proof (cases "i = j")
  case False
  with assms have "xs ! i < xs ! j" by (intro ascending_nth_less) auto
  then show ?thesis by simp
qed simp

lemma regval_scan_found:
  assumes asc: "ascending tbl"
      and j: "Suc j < length tbl" "tbl ! j \<le> v" "v < tbl ! Suc j"
  shows "s \<le> Suc j \<Longrightarrow> regval_scan tbl v s = Some (int j)"
proof (induction "Suc j - s" arbitrary: s)
  case 0
  then have "s = Suc j" by simp
  with j show ?case by (simp add: regval_scan.simps)
next
  case (Suc n)
  then have s: "s \<le> j" by simp
  with asc j have "tbl ! s \<le> tbl ! j" by (intro ascending_nth_le) auto
  with j have "\<not> v < tbl ! s" by simp
  moreover from s j have "s < length tbl" by simp
  moreover from Suc have "regval_scan tbl v (Suc s) = Some (int j)" by simp
  ultimately show ?case by (subst regval_scan.simps) simp
qed

lemma regval_scan_none:
  assumes asc: "ascending tbl" and top: "tbl \<noteq> []" "last tbl \<le> v"
  shows "regval_scan tbl v s = None"
proof (induction "length tbl - s" arbitrary: s)
  case 0
  then show ?case by (simp add: regval_scan.simps)
next
  case (Suc n)
  then have s: "s < length tbl" by simp
  with asc have "tbl ! s \<le> tbl ! (length tbl - 1)" by (intro ascending_nth_le) auto
  with top have "\<not> v < tbl ! s" by (simp add: last_conv_nth)
  moreover from Suc have "regval_scan tbl v (Suc s) = None" by simp
  ultimately show ?case using s by (subst regval_scan.simps) simp
qed

lemma encodes_intro:
  assumes asc: "ascending tbl" and ne: "tbl \<noteq> []"
      and enc: "\<And>v. tbl ! 0 \<le> v \<Longrightarrow>
                 enc v = (case regval_scan tbl v s of Some r \<Rightarrow> r | None \<Rightarrow> regval_last tbl v)"
      and s: "s \<le> 1"
  shows "encodes tbl enc"
  unfolding encodes_def
proof (intro conjI allI impI)
  fix j v
  assume a: "Suc j < length tbl \<and> tbl ! j \<le> v \<and> v < tbl ! Suc j"
  with asc have "tbl ! 0 \<le> tbl ! j" by (intro ascending_nth_le) auto
  with a have "tbl ! 0 \<le> v" by simp
  moreover from s have "s \<le> Suc j" by simp
  ultimately show "enc v = int j"
    using a regval_scan_found [OF asc, of j v s] by (simp add: enc)
next
  from ne asc have "tbl ! 0 \<le> last tbl"
    by (simp add: last_conv_nth ascending_nth_le)
  moreover have "regval_scan tbl (last tbl) s = None"
    using regval_scan_none [OF asc ne] by simp
  ultimately show "enc (last tbl) = int (length tbl) - 1"
    using ne by (simp add: enc regval_last_def last_conv_nth nat_diff_distrib')
next
  fix v
  assume v: "last tbl < v"
  from ne asc have "tbl ! 0 \<le> last tbl"
    by (simp add: last_conv_nth ascending_nth_le)
  with v have "tbl ! 0 \<le> v" by simp
  moreover have "regval_scan tbl v s = None"
    using regval_scan_none [OF asc ne] v by simp
  moreover from v ne have "v \<noteq> tbl ! nat (int (length tbl) - 1)"
    by (simp add: last_conv_nth nat_diff_distrib')
  ultimately show "enc v = - 1"
    by (simp add: enc regval_last_def)
qed

lemma encodes_nth:
  assumes asc: "ascending tbl" and enc: "encodes tbl enc" and k: "k < length tbl"
  shows "enc (tbl ! k) = int k"
proof (cases "Suc k < length tbl")
  case True
  with asc have "tbl ! k < tbl ! Suc k" by (intro ascending_nth_less) auto
  with True enc show ?thesis unfolding encodes_def by blast
next
  case False
  with k have kl: "k = length tbl - 1" and ne: "tbl \<noteq> []" by auto
  from ne have "0 < length tbl" by simp
  with kl have "int k = int (length tbl) - 1" by linarith
  moreover from kl ne have "tbl ! k = last tbl" by (simp add: last_conv_nth)
  ultimately have "tbl ! k = last tbl" and "int k = int (length tbl) - 1" by simp_all
  with enc show ?thesis unfolding encodes_def by simp
qed

lemma encodes_roundtrip:
  assumes "ascending tbl" "encodes tbl enc" "v \<in> set tbl"
  shows "0 \<le> enc v \<and> nat (enc v) < length tbl \<and> tbl ! nat (enc v) = v"
proof -
  from assms(3) obtain k where "k < length tbl" "tbl ! k = v"
    by (auto simp: in_set_conv_nth)
  with encodes_nth [OF assms(1,2), of k] show ?thesis by auto
qed

lemma encodes_floor:
  assumes "encodes tbl enc" "Suc j < length tbl" "tbl ! j < v" "v < tbl ! Suc j"
  shows "enc v = int j"
  using assms unfolding encodes_def by force

lemma encodes_above:
  assumes "encodes tbl enc" "last tbl < v"
  shows "enc v = - 1"
  using assms unfolding encodes_def by blast

lemma ascending_voltage_map: "ascending ab8500_charger_voltage_map"
  by (simp add: ab8500_charger_voltage_map_def)

lemma ascending_current_map: "ascending ab8500_charger_current_map"
  by (simp add: ab8500_charger_current_map_def)

lemma ascending_vbus_in_curr_map: "ascending ab8500_charger_vbus_in_curr_map"
  by (simp add: ab8500_charger_vbus_in_curr_map_def)

lemma voltage_map_nonempty: "ab8500_charger_voltage_map \<noteq> []"
  by (simp add: ab8500_charger_voltage_map_def)

lemma current_map_nonempty: "ab8500_charger_current_map \<noteq> []"
  by (simp add: ab8500_charger_current_map_def)

lemma vbus_in_curr_map_nonempty: "ab8500_charger_vbus_in_curr_map \<noteq> []"
  by (simp add: ab8500_charger_vbus_in_curr_map_def)

lemma encodes_voltage: "encodes ab8500_charger_voltage_map ab8500_voltage_to_regval"
  by (rule encodes_intro [where s = 1, OF ascending_voltage_map voltage_map_nonempty])
     (simp_all add: ab8500_voltage_to_regval_def)

lemma encodes_current: "encodes ab8500_charger_current_map ab8500_current_to_regval"
  by (rule encodes_intro [where s = 0, OF ascending_current_map current_map_nonempty])
     (simp_all add: ab8500_current_to_regval_def)

lemma encodes_vbus_in_curr: "encodes ab8500_charger_vbus_in_curr_map ab8500_vbus_in_curr_to_regval"
  by (rule encodes_intro [where s = 0, OF ascending_vbus_in_curr_map vbus_in_curr_map_nonempty])
     (simp_all add: ab8500_vbus_in_curr_to_regval_def)

text \<open>
  C2. Encoding a table entry and reading the table at the returned code gives the entry
  back, for the output-current, VBUS-input-current and voltage tables. A value strictly
  between two neighbouring entries is encoded as the index of the lower one. A value
  below the first entry of either current table is encoded as code 0. A value above the
  last entry of a table is rejected with a negative result.
\<close>

theorem regval_roundtrip_and_floor:
  "(\<forall>v \<in> set ab8500_charger_current_map.
      0 \<le> ab8500_current_to_regval v \<and>
      ab8500_charger_current_map ! nat (ab8500_current_to_regval v) = v) \<and>
   (\<forall>v \<in> set ab8500_charger_vbus_in_curr_map.
      0 \<le> ab8500_vbus_in_curr_to_regval v \<and>
      ab8500_charger_vbus_in_curr_map ! nat (ab8500_vbus_in_curr_to_regval v) = v) \<and>
   (\<forall>v \<in> set ab8500_charger_voltage_map.
      0 \<le> ab8500_voltage_to_regval v \<and>
      ab8500_charger_voltage_map ! nat (ab8500_voltage_to_regval v) = v) \<and>
   (\<forall>j v. Suc j < length ab8500_charger_current_map \<and>
      ab8500_charger_current_map ! j < v \<and> v < ab8500_charger_current_map ! Suc j \<longrightarrow>
      ab8500_current_to_regval v = int j) \<and>
   (\<forall>j v. Suc j < length ab8500_charger_vbus_in_curr_map \<and>
      ab8500_charger_vbus_in_curr_map ! j < v \<and> v < ab8500_charger_vbus_in_curr_map ! Suc j \<longrightarrow>
      ab8500_vbus_in_curr_to_regval v = int j) \<and>
   (\<forall>j v. Suc j < length ab8500_charger_voltage_map \<and>
      ab8500_charger_voltage_map ! j < v \<and> v < ab8500_charger_voltage_map ! Suc j \<longrightarrow>
      ab8500_voltage_to_regval v = int j) \<and>
   (\<forall>v. v < ab8500_charger_current_map ! 0 \<longrightarrow> ab8500_current_to_regval v = 0) \<and>
   (\<forall>v. v < ab8500_charger_vbus_in_curr_map ! 0 \<longrightarrow> ab8500_vbus_in_curr_to_regval v = 0) \<and>
   (\<forall>v. last ab8500_charger_current_map < v \<longrightarrow> ab8500_current_to_regval v < 0) \<and>
   (\<forall>v. last ab8500_charger_vbus_in_curr_map < v \<longrightarrow> ab8500_vbus_in_curr_to_regval v < 0) \<and>
   (\<forall>v. last ab8500_charger_voltage_map < v \<longrightarrow> ab8500_voltage_to_regval v < 0)"
proof (intro conjI ballI allI impI)
  fix v assume "v \<in> set ab8500_charger_current_map"
  from encodes_roundtrip [OF ascending_current_map encodes_current this]
  show "0 \<le> ab8500_current_to_regval v"
    and "ab8500_charger_current_map ! nat (ab8500_current_to_regval v) = v" by simp_all
next
  fix v assume "v \<in> set ab8500_charger_vbus_in_curr_map"
  from encodes_roundtrip [OF ascending_vbus_in_curr_map encodes_vbus_in_curr this]
  show "0 \<le> ab8500_vbus_in_curr_to_regval v"
    and "ab8500_charger_vbus_in_curr_map ! nat (ab8500_vbus_in_curr_to_regval v) = v" by simp_all
next
  fix v assume "v \<in> set ab8500_charger_voltage_map"
  from encodes_roundtrip [OF ascending_voltage_map encodes_voltage this]
  show "0 \<le> ab8500_voltage_to_regval v"
    and "ab8500_charger_voltage_map ! nat (ab8500_voltage_to_regval v) = v" by simp_all
next
  fix j v
  assume "Suc j < length ab8500_charger_current_map \<and>
      ab8500_charger_current_map ! j < v \<and> v < ab8500_charger_current_map ! Suc j"
  then show "ab8500_current_to_regval v = int j"
    using encodes_floor [OF encodes_current] by blast
next
  fix j v
  assume "Suc j < length ab8500_charger_vbus_in_curr_map \<and>
      ab8500_charger_vbus_in_curr_map ! j < v \<and> v < ab8500_charger_vbus_in_curr_map ! Suc j"
  then show "ab8500_vbus_in_curr_to_regval v = int j"
    using encodes_floor [OF encodes_vbus_in_curr] by blast
next
  fix j v
  assume "Suc j < length ab8500_charger_voltage_map \<and>
      ab8500_charger_voltage_map ! j < v \<and> v < ab8500_charger_voltage_map ! Suc j"
  then show "ab8500_voltage_to_regval v = int j"
    using encodes_floor [OF encodes_voltage] by blast
next
  fix v :: int assume "v < ab8500_charger_current_map ! 0"
  then show "ab8500_current_to_regval v = 0" by (simp add: ab8500_current_to_regval_def)
next
  fix v :: int assume "v < ab8500_charger_vbus_in_curr_map ! 0"
  then show "ab8500_vbus_in_curr_to_regval v = 0" by (simp add: ab8500_vbus_in_curr_to_regval_def)
next
  fix v assume "last ab8500_charger_current_map < v"
  then show "ab8500_current_to_regval v < 0"
    using encodes_above [OF encodes_current] by simp
next
  fix v assume "last ab8500_charger_vbus_in_curr_map < v"
  then show "ab8500_vbus_in_curr_to_regval v < 0"
    using encodes_above [OF encodes_vbus_in_curr] by simp
next
  fix v assume "last ab8500_charger_voltage_map < v"
  then show "ab8500_voltage_to_regval v < 0"
    using encodes_above [OF encodes_voltage] by simp
qed

theorem regval_roundtrip_and_floor_witness:
  "(1300::int) \<in> set ab8500_charger_vbus_in_curr_map \<and>
   ab8500_charger_vbus_in_curr_map ! nat (ab8500_vbus_in_curr_to_regval 1300) = 1300 \<and>
   (4050::int) \<in> set ab8500_charger_voltage_map \<and>
   ab8500_charger_voltage_map ! nat (ab8500_voltage_to_regval 4050) = 4050 \<and>
   Suc 1 < length ab8500_charger_current_map \<and>
   ab8500_charger_current_map ! 1 < (250::int) \<and> (250::int) < ab8500_charger_current_map ! Suc 1 \<and>
   ab8500_current_to_regval 250 = 1 \<and>
   (20::int) < ab8500_charger_vbus_in_curr_map ! 0 \<and>
   ab8500_vbus_in_curr_to_regval 20 = 0 \<and>
   last ab8500_charger_voltage_map < (4601::int) \<and>
   ab8500_voltage_to_regval 4601 < 0"
proof -
  have a: "(1300::int) \<in> set ab8500_charger_vbus_in_curr_map"
    by (simp add: ab8500_charger_vbus_in_curr_map_def)
  have b: "(4050::int) \<in> set ab8500_charger_voltage_map"
    by (simp add: ab8500_charger_voltage_map_def)
  have c: "Suc 1 < length ab8500_charger_current_map \<and>
      ab8500_charger_current_map ! 1 < (250::int) \<and> (250::int) < ab8500_charger_current_map ! Suc 1"
    by (simp add: ab8500_charger_current_map_def)
  have d: "(20::int) < ab8500_charger_vbus_in_curr_map ! 0"
    by (simp add: ab8500_charger_vbus_in_curr_map_def)
  have e: "last ab8500_charger_voltage_map < (4601::int)"
    by (simp add: ab8500_charger_voltage_map_def)
  from a b c d e regval_roundtrip_and_floor show ?thesis by auto
qed

section \<open>Properties of the stepping engine\<close>

lemma drop_seen_iff:
  "drop_seen irq di i j \<longleftrightarrow> vbus_drop_end (flags di) \<or> (\<exists>m. i \<le> m \<and> m \<le> j \<and> irq m)"
  by (auto simp: drop_seen_def list_ex_iff)

lemma set_ok:
  "set_ret hw AB8500_CHARGER reg = 0 \<Longrightarrow>
   abx500_set_register_interruptible hw AB8500_CHARGER reg v =
     (0, hw\<lparr>regs := (regs hw)(AB8500_CHARGER := (regs hw AB8500_CHARGER)(reg := v)),
            xfers := xfers hw @ [Xfer_set AB8500_CHARGER reg v]\<rparr>)"
  by (simp add: abx500_set_register_interruptible_def)

lemma wrote_set_ret [simp]: "set_ret (wrote hw reg sh ks) = set_ret hw"
  by (simp add: wrote_def)

lemma wrote_Cons:
  "wrote (hw\<lparr>regs := (regs hw)(AB8500_CHARGER := (regs hw AB8500_CHARGER)(reg := reg_code sh k)),
            xfers := xfers hw @ [Xfer_set AB8500_CHARGER reg (reg_code sh k)]\<rparr>) reg sh ks
   = wrote hw reg sh (k # ks)"
  by (simp add: wrote_def)

lemma step_down_ok:
  assumes wr: "set_ret hw AB8500_CHARGER reg = 0"
  shows "c \<le> i \<Longrightarrow> step_down reg sh c i ret hw = (0, wrote hw reg sh (rev [c..i]))"
  using wr
proof (induction "nat (i - c)" arbitrary: i ret hw)
  case 0
  then have "i = c" by simp
  with 0 show ?case
    by (simp add: step_down.simps [of _ _ c c] step_down.simps [of _ _ c "c - 1"] set_ok Let_def wrote_def)
next
  case (Suc n)
  then have lt: "c < i" by simp
  let ?hw = "hw\<lparr>regs := (regs hw)(AB8500_CHARGER := (regs hw AB8500_CHARGER)(reg := reg_code sh i)),
            xfers := xfers hw @ [Xfer_set AB8500_CHARGER reg (reg_code sh i)]\<rparr>"
  have ih: "step_down reg sh c (i - 1) 0 ?hw = (0, wrote ?hw reg sh (rev [c..i - 1]))"
    using Suc lt by (intro Suc.hyps(1)) auto
  have r: "rev [c..i] = i # rev [c..i - 1]" using lt by (simp add: upto_rec2)
  show ?case using lt Suc.prems
    by (subst step_down.simps) (simp add: set_ok Let_def ih r wrote_Cons)
qed

lemma drop_seen_step:
  "i \<le> j \<Longrightarrow>
   drop_seen irq (if irq i then ab8500_charger_vbuschdropend_handler di else di) (i + 1) j
     = drop_seen irq di i j"
proof -
  assume ij: "i \<le> j"
  have "(\<exists>m. i \<le> m \<and> m \<le> j \<and> irq m) \<longleftrightarrow> irq i \<or> (\<exists>m. i + 1 \<le> m \<and> m \<le> j \<and> irq m)"
  proof
    assume "\<exists>m. i \<le> m \<and> m \<le> j \<and> irq m"
    then obtain m where m: "i \<le> m" "m \<le> j" "irq m" by blast
    show "irq i \<or> (\<exists>m. i + 1 \<le> m \<and> m \<le> j \<and> irq m)"
    proof (cases "m = i")
      case True with m show ?thesis by simp
    next
      case False with m have "i + 1 \<le> m" by simp
      with m show ?thesis by blast
    qed
  next
    assume "irq i \<or> (\<exists>m. i + 1 \<le> m \<and> m \<le> j \<and> irq m)"
    then show "\<exists>m. i \<le> m \<and> m \<le> j \<and> irq m"
    proof
      assume "irq i" with ij show ?thesis by blast
    next
      assume "\<exists>m. i + 1 \<le> m \<and> m \<le> j \<and> irq m"
      then obtain m where "i + 1 \<le> m" "m \<le> j" "irq m" by blast
      then have "i \<le> m \<and> m \<le> j \<and> irq m" by simp
      then show ?thesis by blast
    qed
  qed
  then show ?thesis
    by (auto simp: drop_seen_iff ab8500_charger_vbuschdropend_handler_def)
qed

lemma drop_seen_single:
  "drop_seen irq di i i \<longleftrightarrow> vbus_drop_end (flags di) \<or> irq i"
  by (auto simp: drop_seen_iff)

lemma irq_step_eq:
  "(if irq i then ab8500_charger_vbuschdropend_handler di else di) = saw_drop irq i i di"
  by (cases "irq i")
     (auto simp: saw_drop_def drop_seen_single ab8500_charger_vbuschdropend_handler_def)

lemma drop_seen_saw_drop:
  "i \<le> j \<Longrightarrow> drop_seen irq (saw_drop irq i i di) (i + 1) j = drop_seen irq di i j"
  using drop_seen_step [of i j irq di] by (simp only: irq_step_eq)

lemma saw_drop_step:
  assumes "i \<le> j"
  shows "saw_drop irq (i + 1) j (saw_drop irq i i di) = saw_drop irq i j di"
proof -
  let ?d = "saw_drop irq i i di"
  have "saw_drop irq (i + 1) j ?d
          = ?d\<lparr>flags := (flags ?d)\<lparr>vbus_drop_end := drop_seen irq di i j\<rparr>\<rparr>"
    using drop_seen_saw_drop [OF assms, of irq di]
    by (simp only: saw_drop_def [of irq "i + 1" j])
  also have "\<dots> = saw_drop irq i j di"
    by (simp add: saw_drop_def)
  finally show ?thesis .
qed

lemma check_saw_drop:
  "ab8500_charger_check_continue_stepping (saw_drop irq i j di) reg
     \<longleftrightarrow> (reg = AB8500_USBCH_IPT_CRNTLVL_REG \<longrightarrow> \<not> drop_seen irq di i j)"
  by (cases reg) (simp_all add: ab8500_charger_check_continue_stepping_def saw_drop_def)

lemma step_up_stop:
  assumes "\<not> (i \<le> c \<and> allow)"
  shows "step_up irq reg sh c i allow ret di hw = (ret, di, hw)"
  by (subst step_up.simps) (simp only: assms if_False)

lemma step_up_run:
  assumes wr: "set_ret hw AB8500_CHARGER reg = 0"
      and ik: "i \<le> k" and kc: "k \<le> c"
      and go: "\<forall>j. i \<le> j \<and> j < k \<longrightarrow> (reg = AB8500_USBCH_IPT_CRNTLVL_REG \<longrightarrow> \<not> drop_seen irq di i j)"
      and stop: "k = c \<or> (reg = AB8500_USBCH_IPT_CRNTLVL_REG \<and> drop_seen irq di i k)"
  shows "step_up irq reg sh c i True ret di hw = (0, saw_drop irq i k di, wrote hw reg sh [i..k])"
  using wr ik go stop
proof (induction "nat (k - i)" arbitrary: i ret di hw)
  case 0
  then have [simp]: "i = k" by simp
  let ?hw = "hw\<lparr>regs := (regs hw)(AB8500_CHARGER := (regs hw AB8500_CHARGER)(reg := reg_code sh k)),
            xfers := xfers hw @ [Xfer_set AB8500_CHARGER reg (reg_code sh k)]\<rparr>"
  have fin: "step_up irq reg sh c (k + 1) (ab8500_charger_check_continue_stepping (saw_drop irq k k di) reg)
               0 (saw_drop irq k k di) ?hw = (0, saw_drop irq k k di, ?hw)"
    using "0.prems"(4) by (intro step_up_stop) (auto simp: check_saw_drop)
  show ?case using kc "0.prems"(1)
    by (subst step_up.simps) (simp add: set_ok Let_def irq_step_eq fin wrote_def)
next
  case (Suc n)
  then have lt: "i < k" by simp
  let ?hw = "hw\<lparr>regs := (regs hw)(AB8500_CHARGER := (regs hw AB8500_CHARGER)(reg := reg_code sh i)),
            xfers := xfers hw @ [Xfer_set AB8500_CHARGER reg (reg_code sh i)]\<rparr>"
  let ?di = "saw_drop irq i i di"
  from Suc.prems(3) lt have chk: "ab8500_charger_check_continue_stepping ?di reg"
    by (simp add: check_saw_drop)
  have ds: "\<And>j. i + 1 \<le> j \<Longrightarrow> drop_seen irq ?di (i + 1) j = drop_seen irq di i j"
    using drop_seen_step [of i _ irq di] by (simp add: irq_step_eq)
  have ih: "step_up irq reg sh c (i + 1) True 0 ?di ?hw
              = (0, saw_drop irq (i + 1) k ?di, wrote ?hw reg sh [i + 1..k])"
  proof (rule Suc.hyps(1))
    show "n = nat (k - (i + 1))" using Suc.hyps(2) by simp
    show "set_ret ?hw AB8500_CHARGER reg = 0" using Suc.prems(1) by simp
    show "i + 1 \<le> k" using lt by simp
    show "\<forall>j. i + 1 \<le> j \<and> j < k \<longrightarrow>
              (reg = AB8500_USBCH_IPT_CRNTLVL_REG \<longrightarrow> \<not> drop_seen irq ?di (i + 1) j)"
      using Suc.prems(3) by (simp add: ds)
    show "k = c \<or> (reg = AB8500_USBCH_IPT_CRNTLVL_REG \<and> drop_seen irq ?di (i + 1) k)"
      using Suc.prems(4) lt by (simp add: ds)
  qed
  have r: "[i..k] = i # [i + 1..k]" using lt by (simp add: upto_rec1)
  have ic: "i \<le> c" using lt kc by simp
  show ?case using ic Suc.prems(1) lt
    by (subst step_up.simps)
       (simp add: set_ok Let_def irq_step_eq chk ih r wrote_Cons saw_drop_step)
qed

lemma set_current_supported:
  assumes "supported_reg reg" "reads_ok hw reg"
  shows "ab8500_charger_set_current irq di hw ich reg =
           set_current_steps irq (session_begin di) (read_done hw reg) reg (read_ret hw reg)
             (shift_of reg) (prev_curr_index hw reg) (curr_index reg ich)
             (\<not> charger_present di reg)"
  using assms
  by (auto simp: supported_reg_def reads_ok_def ab8500_charger_set_current_def
        abx500_get_register_interruptible_def session_begin_def read_done_def read_ret_def
        shift_of_def prev_curr_index_def curr_index_def charger_present_def Let_def
        MAIN_CH_INPUT_CURR_SHIFT_def VBUS_IN_CURR_LIM_SHIFT_def AUTO_VBUS_IN_CURR_LIM_SHIFT_def)

lemma code_of_reg_code:
  "0 \<le> k \<Longrightarrow> k < 16 \<Longrightarrow> uint (drop_bit 4 (reg_code 4 k)) = k"
proof -
  assume "0 \<le> k" "k < 16"
  then have "k = 0 \<or> k = 1 \<or> k = 2 \<or> k = 3 \<or> k = 4 \<or> k = 5 \<or> k = 6 \<or> k = 7 \<or>
             k = 8 \<or> k = 9 \<or> k = 10 \<or> k = 11 \<or> k = 12 \<or> k = 13 \<or> k = 14 \<or> k = 15"
    by arith
  then show ?thesis by (elim disjE) (simp_all add: reg_code_def)
qed

lemma hw_writes_wrote:
  "hw_writes (wrote hw reg sh ks) =
     hw_writes hw @ map (\<lambda>k. Xfer_set AB8500_CHARGER reg (reg_code sh k)) ks"
  by (induction ks) (auto simp: hw_writes_def wrote_def)

lemma hw_writes_read_done [simp]: "hw_writes (read_done hw reg) = hw_writes hw"
  by (simp add: hw_writes_def read_done_def)

lemma set_ret_read_done [simp]: "set_ret (read_done hw reg) = set_ret hw"
  by (simp add: read_done_def)

lemma regs_wrote:
  "ks \<noteq> [] \<Longrightarrow> regs (wrote hw reg sh ks) AB8500_CHARGER reg = reg_code sh (last ks)"
  by (simp add: wrote_def)

lemma steps_down:
  assumes "set_ret hw AB8500_CHARGER reg = 0" "0 \<le> B" "B < A"
  shows "set_current_steps irq di hw reg ret sh A B False =
           exit_set_current 0 di (wrote hw reg sh (rev [B..A - 1]))"
  using assms step_down_ok [of hw reg B "A - 1" sh ret]
  by (simp add: set_current_steps_def Let_def)

lemma steps_up:
  assumes "set_ret hw AB8500_CHARGER reg = 0" "0 \<le> B" "A < k" "k \<le> B"
      and "\<forall>j. A + 1 \<le> j \<and> j < k \<longrightarrow>
             (reg = AB8500_USBCH_IPT_CRNTLVL_REG \<longrightarrow> \<not> drop_seen irq di (A + 1) j)"
      and "k = B \<or> (reg = AB8500_USBCH_IPT_CRNTLVL_REG \<and> drop_seen irq di (A + 1) k)"
  shows "set_current_steps irq di hw reg ret sh A B False =
           exit_set_current 0 (saw_drop irq (A + 1) k di) (wrote hw reg sh [A + 1..k])"
proof -
  have "step_up irq reg sh B (A + 1) True ret di hw =
          (0, saw_drop irq (A + 1) k di, wrote hw reg sh [A + 1..k])"
    using assms by (intro step_up_run) auto
  with assms(2,3,4) show ?thesis
    by (simp add: set_current_steps_def)
qed

lemma drop_seen_session_begin [simp]:
  "drop_seen irq (session_begin di) i j = drop_seen irq di i j"
  by (simp add: drop_seen_def session_begin_def)

lemma regval_scan_bound:
  "regval_scan tbl v s = Some r \<Longrightarrow> r < int (length tbl) - 1"
proof (induction tbl v s rule: regval_scan.induct)
  case (1 tbl v i)
  show ?case
  proof (cases "i < length tbl")
    case True
    show ?thesis
    proof (cases "v < tbl ! i")
      case True
      with \<open>i < length tbl\<close> "1.prems" show ?thesis
        by (subst (asm) regval_scan.simps) auto
    next
      case False
      with \<open>i < length tbl\<close> "1.prems" have "regval_scan tbl v (Suc i) = Some r"
        by (subst (asm) regval_scan.simps) simp
      with "1.IH" \<open>i < length tbl\<close> False show ?thesis by simp
    qed
  next
    case False
    with "1.prems" show ?thesis by (subst (asm) regval_scan.simps) simp
  qed
qed

lemma vbus_in_curr_to_regval_le: "ab8500_vbus_in_curr_to_regval v \<le> 15"
proof -
  have len: "int (length ab8500_charger_vbus_in_curr_map) = 16"
    by (simp add: ab8500_charger_vbus_in_curr_map_def)
  show ?thesis
  proof (cases "regval_scan ab8500_charger_vbus_in_curr_map v 0")
    case None
    then show ?thesis
      by (simp add: ab8500_vbus_in_curr_to_regval_def regval_last_def len)
  next
    case (Some r)
    with regval_scan_bound [OF Some] len show ?thesis
      by (simp add: ab8500_vbus_in_curr_to_regval_def)
  qed
qed

text \<open>
  C1. A call of \<^verbatim>\<open>ab8500_charger_set_current\<close> for one of the three current registers,
  with an encodable target code \<open>B\<close>, a previous code \<open>A \<noteq> B\<close> read from the chip, the
  charger of that register connected and no bus error: stepping down writes the codes
  \<open>A - 1, ..., B\<close> in this order; stepping up while the continue-stepping check holds
  after every write before the last writes \<open>A + 1, ..., B\<close> in this order; both are
  \<open>|B - A|\<close> writes. When the check first fails after the write of a code \<open>k < B\<close>,
  exactly \<open>A + 1, ..., k\<close> are written, the register is left at code \<open>k\<close>, below the
  target. The call returns 0 in all three cases.
\<close>

theorem set_current_ramp:
  assumes reg: "supported_reg reg"
      and rd: "reads_ok hw reg"
      and wr: "set_ret hw AB8500_CHARGER reg = 0"
      and B: "0 \<le> curr_index reg ich"
      and AB: "prev_curr_index hw reg \<noteq> curr_index reg ich"
      and conn: "charger_present di reg"
  shows
   "let A = prev_curr_index hw reg; B = curr_index reg ich;
        r = ab8500_charger_set_current irq di hw ich reg;
        W = (\<lambda>k. Xfer_set AB8500_CHARGER reg (reg_code (shift_of reg) k))
    in (B < A \<longrightarrow>
          fst r = 0 \<and>
          hw_writes (snd (snd r)) = hw_writes hw @ map W (rev [B..A - 1]) \<and>
          length (map W (rev [B..A - 1])) = nat \<bar>B - A\<bar>) \<and>
       (A < B \<and> (\<forall>j. A < j \<and> j < B \<longrightarrow>
                    ab8500_charger_check_continue_stepping (saw_drop irq (A + 1) j di) reg) \<longrightarrow>
          fst r = 0 \<and>
          hw_writes (snd (snd r)) = hw_writes hw @ map W [A + 1..B] \<and>
          length (map W [A + 1..B]) = nat \<bar>B - A\<bar>) \<and>
       (\<forall>k. A < k \<and> k < B \<and>
            (\<forall>j. A < j \<and> j < k \<longrightarrow>
                ab8500_charger_check_continue_stepping (saw_drop irq (A + 1) j di) reg) \<and>
            \<not> ab8500_charger_check_continue_stepping (saw_drop irq (A + 1) k di) reg \<longrightarrow>
          fst r = 0 \<and>
          hw_writes (snd (snd r)) = hw_writes hw @ map W [A + 1..k] \<and>
          uint (drop_bit (shift_of reg) (regs (snd (snd r)) AB8500_CHARGER reg)) = k)"
proof -
  let ?A = "prev_curr_index hw reg" and ?B = "curr_index reg ich"
  let ?sh = "shift_of reg"
  let ?r = "ab8500_charger_set_current irq di hw ich reg"
  let ?W = "\<lambda>k. Xfer_set AB8500_CHARGER reg (reg_code ?sh k)"
  have unf: "?r = set_current_steps irq (session_begin di) (read_done hw reg) reg (read_ret hw reg)
                    ?sh ?A ?B False"
    using set_current_supported [OF reg rd] conn by simp
  have wr': "set_ret (read_done hw reg) AB8500_CHARGER reg = 0" using wr by simp
  have A0: "0 \<le> ?A" by (simp add: prev_curr_index_def)
  have down: "fst ?r = 0 \<and> hw_writes (snd (snd ?r)) = hw_writes hw @ map ?W (rev [?B..?A - 1]) \<and>
          length (map ?W (rev [?B..?A - 1])) = nat \<bar>?B - ?A\<bar>" if "?B < ?A"
    using that by (simp add: unf steps_down [OF wr' B that] exit_set_current_def hw_writes_wrote)
  have up: "fst ?r = 0 \<and> hw_writes (snd (snd ?r)) = hw_writes hw @ map ?W [?A + 1..k] \<and>
          regs (snd (snd ?r)) AB8500_CHARGER reg = reg_code ?sh k"
    if k: "?A < k" "k \<le> ?B"
      and go: "\<forall>j. ?A < j \<and> j < k \<longrightarrow>
                 ab8500_charger_check_continue_stepping (saw_drop irq (?A + 1) j di) reg"
      and stop: "k = ?B \<or> \<not> ab8500_charger_check_continue_stepping (saw_drop irq (?A + 1) k di) reg"
    for k
  proof -
    have "set_current_steps irq (session_begin di) (read_done hw reg) reg (read_ret hw reg)
            ?sh ?A ?B False =
          exit_set_current 0 (saw_drop irq (?A + 1) k (session_begin di))
            (wrote (read_done hw reg) reg ?sh [?A + 1..k])"
      using go stop by (intro steps_up [OF wr' B k]) (auto simp: check_saw_drop)
    moreover have "[?A + 1..k] \<noteq> []" "last [?A + 1..k] = k" using k by (simp_all add: upto_rec2)
    ultimately show ?thesis
      by (simp add: unf exit_set_current_def hw_writes_wrote regs_wrote)
  qed
  have part3: "fst ?r = 0 \<and> hw_writes (snd (snd ?r)) = hw_writes hw @ map ?W [?A + 1..k] \<and>
          uint (drop_bit ?sh (regs (snd (snd ?r)) AB8500_CHARGER reg)) = k"
    if k: "?A < k" "k < ?B"
      and go: "\<forall>j. ?A < j \<and> j < k \<longrightarrow>
                 ab8500_charger_check_continue_stepping (saw_drop irq (?A + 1) j di) reg"
      and stop: "\<not> ab8500_charger_check_continue_stepping (saw_drop irq (?A + 1) k di) reg"
    for k
  proof -
    from stop have usb: "reg = AB8500_USBCH_IPT_CRNTLVL_REG" by (simp add: check_saw_drop)
    then have "?B \<le> 15" using vbus_in_curr_to_regval_le by (simp add: curr_index_def)
    with k A0 have "0 \<le> k" "k < 16" by simp_all
    then have "uint (drop_bit 4 (reg_code 4 k)) = k" by (rule code_of_reg_code)
    moreover have "?sh = 4" using usb by (simp add: shift_of_def VBUS_IN_CURR_LIM_SHIFT_def)
    ultimately show ?thesis using up [of k] k go stop by simp
  qed
  show ?thesis
    unfolding Let_def
  proof (intro conjI impI allI)
    assume "?B < ?A"
    from down [OF this]
    show "fst ?r = 0" "hw_writes (snd (snd ?r)) = hw_writes hw @ map ?W (rev [?B..?A - 1])"
      "length (map ?W (rev [?B..?A - 1])) = nat \<bar>?B - ?A\<bar>" by simp_all
  next
    assume a: "?A < ?B \<and> (\<forall>j. ?A < j \<and> j < ?B \<longrightarrow>
                    ab8500_charger_check_continue_stepping (saw_drop irq (?A + 1) j di) reg)"
    then have "fst ?r = 0 \<and> hw_writes (snd (snd ?r)) = hw_writes hw @ map ?W [?A + 1..?B]"
      using up [of ?B] by simp
    then show "fst ?r = 0" "hw_writes (snd (snd ?r)) = hw_writes hw @ map ?W [?A + 1..?B]"
      by simp_all
    from a show "length (map ?W [?A + 1..?B]) = nat \<bar>?B - ?A\<bar>" by simp
  next
    fix k
    assume a: "?A < k \<and> k < ?B \<and>
            (\<forall>j. ?A < j \<and> j < k \<longrightarrow>
                ab8500_charger_check_continue_stepping (saw_drop irq (?A + 1) j di) reg) \<and>
            \<not> ab8500_charger_check_continue_stepping (saw_drop irq (?A + 1) k di) reg"
    then have "fst ?r = 0 \<and> hw_writes (snd (snd ?r)) = hw_writes hw @ map ?W [?A + 1..k] \<and>
          uint (drop_bit ?sh (regs (snd (snd ?r)) AB8500_CHARGER reg)) = k"
      by (intro part3) simp_all
    then show "fst ?r = 0" "hw_writes (snd (snd ?r)) = hw_writes hw @ map ?W [?A + 1..k]"
      "uint (drop_bit ?sh (regs (snd (snd ?r)) AB8500_CHARGER reg)) = k" by simp_all
  qed
qed

lemma curr_index_500: "curr_index AB8500_USBCH_IPT_CRNTLVL_REG 500 = 6"
  using encodes_nth [OF ascending_vbus_in_curr_map encodes_vbus_in_curr, of 6]
  by (simp add: curr_index_def ab8500_charger_vbus_in_curr_map_def)

theorem set_current_ramp_witness:
  "supported_reg AB8500_USBCH_IPT_CRNTLVL_REG \<and>
   reads_ok (example_hw witness_regs) AB8500_USBCH_IPT_CRNTLVL_REG \<and>
   set_ret (example_hw witness_regs) AB8500_CHARGER AB8500_USBCH_IPT_CRNTLVL_REG = 0 \<and>
   curr_index AB8500_USBCH_IPT_CRNTLVL_REG 500 = 6 \<and>
   prev_curr_index (example_hw witness_regs) AB8500_USBCH_IPT_CRNTLVL_REG = 1 \<and>
   charger_present example_di AB8500_USBCH_IPT_CRNTLVL_REG \<and>
   ab8500_charger_check_continue_stepping (saw_drop (\<lambda>i. i = 3) 2 2 example_di)
     AB8500_USBCH_IPT_CRNTLVL_REG \<and>
   \<not> ab8500_charger_check_continue_stepping (saw_drop (\<lambda>i. i = 3) 2 3 example_di)
     AB8500_USBCH_IPT_CRNTLVL_REG \<and>
   fst (ab8500_charger_set_current (\<lambda>i. i = 3) example_di (example_hw witness_regs) 500
          AB8500_USBCH_IPT_CRNTLVL_REG) = 0 \<and>
   hw_writes (snd (snd (ab8500_charger_set_current (\<lambda>i. i = 3) example_di
          (example_hw witness_regs) 500 AB8500_USBCH_IPT_CRNTLVL_REG))) =
     [Xfer_set AB8500_CHARGER AB8500_USBCH_IPT_CRNTLVL_REG 0x20,
      Xfer_set AB8500_CHARGER AB8500_USBCH_IPT_CRNTLVL_REG 0x30] \<and>
   uint (drop_bit 4 (regs (snd (snd (ab8500_charger_set_current (\<lambda>i. i = 3) example_di
          (example_hw witness_regs) 500 AB8500_USBCH_IPT_CRNTLVL_REG)))
          AB8500_CHARGER AB8500_USBCH_IPT_CRNTLVL_REG)) = 3"
proof -
  let ?reg = AB8500_USBCH_IPT_CRNTLVL_REG and ?hw = "example_hw witness_regs"
  let ?irq = "\<lambda>i::int. i = 3"
  have h1: "supported_reg ?reg" by (simp add: supported_reg_def)
  have h2: "reads_ok ?hw ?reg" by (simp add: reads_ok_def example_hw_def)
  have h3: "set_ret ?hw AB8500_CHARGER ?reg = 0" by (simp add: example_hw_def)
  have B: "curr_index ?reg 500 = 6" by (rule curr_index_500)
  have A: "prev_curr_index ?hw ?reg = 1"
    by (simp add: prev_curr_index_def example_hw_def witness_regs_def
          VBUS_IN_CURR_LIM_SHIFT_def AUTO_VBUS_IN_CURR_LIM_SHIFT_def)
  have h6: "charger_present example_di ?reg" by (simp add: charger_present_def example_di_def)
  have g: "ab8500_charger_check_continue_stepping (saw_drop ?irq 2 2 example_di) ?reg"
    by (simp add: check_saw_drop drop_seen_def example_di_def)
  have st: "\<not> ab8500_charger_check_continue_stepping (saw_drop ?irq 2 3 example_di) ?reg"
    by (simp add: check_saw_drop drop_seen_def example_di_def upto_rec1)
  have go: "\<forall>j. 1 < j \<and> j < 3 \<longrightarrow>
              ab8500_charger_check_continue_stepping (saw_drop ?irq 2 j example_di) ?reg"
  proof (intro allI impI)
    fix j :: int assume "1 < j \<and> j < 3"
    then have "j = 2" by simp
    with g show "ab8500_charger_check_continue_stepping (saw_drop ?irq 2 j example_di) ?reg"
      by simp
  qed
  have sh: "shift_of ?reg = 4" by (simp add: shift_of_def VBUS_IN_CURR_LIM_SHIFT_def)
  have w0: "hw_writes ?hw = []" by (simp add: hw_writes_def example_hw_def)
  let ?r = "ab8500_charger_set_current ?irq example_di ?hw 500 ?reg"
  have T: "\<forall>k. 1 < k \<and> k < 6 \<and>
            (\<forall>j. 1 < j \<and> j < k \<longrightarrow>
                ab8500_charger_check_continue_stepping (saw_drop ?irq (1 + 1) j example_di) ?reg) \<and>
            \<not> ab8500_charger_check_continue_stepping (saw_drop ?irq (1 + 1) k example_di) ?reg \<longrightarrow>
          fst ?r = 0 \<and>
          hw_writes (snd (snd ?r)) = hw_writes ?hw @
            map (\<lambda>k. Xfer_set AB8500_CHARGER ?reg (reg_code (shift_of ?reg) k)) [1 + 1..k] \<and>
          uint (drop_bit (shift_of ?reg) (regs (snd (snd ?r)) AB8500_CHARGER ?reg)) = k"
    using set_current_ramp [OF h1 h2 h3, of 500 example_di ?irq] h6
    unfolding Let_def A B by simp
  have "fst ?r = 0 \<and>
        hw_writes (snd (snd ?r)) = hw_writes ?hw @
            map (\<lambda>k. Xfer_set AB8500_CHARGER ?reg (reg_code (shift_of ?reg) k)) [1 + 1..3] \<and>
        uint (drop_bit (shift_of ?reg) (regs (snd (snd ?r)) AB8500_CHARGER ?reg)) = 3"
    using T [rule_format, of 3] go st by simp
  then show ?thesis
    using h1 h2 h3 B A h6 g st
    by (simp add: sh w0 upto_rec1 reg_code_def)
qed

text \<open>
  C8. If the register id is not one of the three supported registers, or the requested
  current has a negative lookup result, \<^verbatim>\<open>ab8500_charger_set_current\<close> issues no register
  write and returns a negative error code; the code is \<open>-ENXIO\<close> whenever the register
  reads the function starts with succeed (a failed read returns the bus error instead).
\<close>

theorem set_current_rejects:
  assumes "\<not> supported_reg reg \<or> curr_index reg ich < 0"
  shows "hw_writes (snd (snd (ab8500_charger_set_current irq di hw ich reg))) = hw_writes hw \<and>
         fst (ab8500_charger_set_current irq di hw ich reg) < 0 \<and>
         (reads_ok hw reg \<longrightarrow> fst (ab8500_charger_set_current irq di hw ich reg) = - ENXIO)"
proof (cases "supported_reg reg \<and> reads_ok hw reg")
  case True
  with assms have neg: "curr_index reg ich < 0" by simp
  from True have "ab8500_charger_set_current irq di hw ich reg =
      exit_set_current (- ENXIO) (session_begin di) (read_done hw reg)"
    by (simp add: set_current_supported set_current_steps_def neg)
  then show ?thesis by (simp add: exit_set_current_def ENXIO_def)
next
  case False
  then show ?thesis
    by (cases reg)
       (auto simp: supported_reg_def reads_ok_def ab8500_charger_set_current_def
          abx500_get_register_interruptible_def exit_set_current_def hw_writes_def ENXIO_def
          Let_def)
qed

lemma set_current_up:
  assumes reg: "supported_reg reg"
      and rd: "reads_ok hw reg"
      and wr: "set_ret hw AB8500_CHARGER reg = 0"
      and B: "0 \<le> curr_index reg ich"
      and conn: "charger_present di reg"
      and k: "prev_curr_index hw reg < k" "k \<le> curr_index reg ich"
      and go: "\<forall>j. prev_curr_index hw reg < j \<and> j < k \<longrightarrow>
                 ab8500_charger_check_continue_stepping
                   (saw_drop irq (prev_curr_index hw reg + 1) j di) reg"
      and stop: "k = curr_index reg ich \<or>
                 \<not> ab8500_charger_check_continue_stepping
                     (saw_drop irq (prev_curr_index hw reg + 1) k di) reg"
  shows "ab8500_charger_set_current irq di hw ich reg =
           exit_set_current 0 (saw_drop irq (prev_curr_index hw reg + 1) k (session_begin di))
             (wrote (read_done hw reg) reg (shift_of reg) [prev_curr_index hw reg + 1..k])"
proof -
  have wr': "set_ret (read_done hw reg) AB8500_CHARGER reg = 0" using wr by simp
  have "set_current_steps irq (session_begin di) (read_done hw reg) reg (read_ret hw reg)
            (shift_of reg) (prev_curr_index hw reg) (curr_index reg ich) False =
          exit_set_current 0 (saw_drop irq (prev_curr_index hw reg + 1) k (session_begin di))
            (wrote (read_done hw reg) reg (shift_of reg) [prev_curr_index hw reg + 1..k])"
    using go stop by (intro steps_up [OF wr' B k]) (auto simp: check_saw_drop)
  then show ?thesis using set_current_supported [OF reg rd] conn by simp
qed

lemma curr_index_100_300:
  "supported_reg reg \<Longrightarrow> 0 \<le> curr_index reg 100 \<and> curr_index reg 300 = curr_index reg 100 + 2"
proof -
  have c100: "ab8500_current_to_regval 100 = 0"
    using encodes_nth [OF ascending_current_map encodes_current, of 0]
    by (simp add: ab8500_charger_current_map_def)
  have c300: "ab8500_current_to_regval 300 = 2"
    using encodes_nth [OF ascending_current_map encodes_current, of 2]
    by (simp add: ab8500_charger_current_map_def)
  have v100: "ab8500_vbus_in_curr_to_regval 100 = 1"
    using encodes_floor [OF encodes_vbus_in_curr, of 1 100]
    by (simp add: ab8500_charger_vbus_in_curr_map_def)
  have v300: "ab8500_vbus_in_curr_to_regval 300 = 3"
    using encodes_floor [OF encodes_vbus_in_curr, of 3 300]
    by (simp add: ab8500_charger_vbus_in_curr_map_def)
  show ?thesis by (simp add: curr_index_def c100 c300 v100 v300)
qed

lemma prev_curr_index_reg:
  "auto_limit_from hw reg (reg_curr_index hw reg) \<Longrightarrow> prev_curr_index hw reg = reg_curr_index hw reg"
  by (simp add: prev_curr_index_def reg_curr_index_def auto_limit_from_def auto_limit_index_def
        shift_of_def split: if_splits)

lemma prev_curr_index_auto:
  "auto_limit_index hw \<le> reg_curr_index hw AB8500_USBCH_IPT_CRNTLVL_REG \<Longrightarrow>
   prev_curr_index hw AB8500_USBCH_IPT_CRNTLVL_REG = auto_limit_index hw"
  by (simp add: prev_curr_index_def reg_curr_index_def auto_limit_index_def shift_of_def)

text \<open>
  C9, as amended. Setting 300 mA on a supported register that holds the code of 100 mA,
  with the charger connected and no bus error. If the ramp starts from the register's own
  code (always for the main-input and the output register; for the USB input register when
  the chip's automatic limit is not below that code) and the continue-stepping check holds
  after the first write, exactly two writes are issued: one intermediate write of the next
  code, then the final write of the target code. On the USB input register with the
  automatic limit at code 0 the ramp starts from code 0 instead: with the check holding
  after each of them, the intermediate writes are those of codes 1 and 2, followed by the
  final write of code 3.
\<close>

theorem set_current_300_from_100:
  assumes reg: "supported_reg reg"
      and rd: "reads_ok hw reg"
      and wr: "set_ret hw AB8500_CHARGER reg = 0"
      and conn: "charger_present di reg"
      and at100: "reg_curr_index hw reg = curr_index reg 100"
  shows "(auto_limit_from hw reg (curr_index reg 100) \<and>
          ab8500_charger_check_continue_stepping
            (saw_drop irq (curr_index reg 100 + 1) (curr_index reg 100 + 1) di) reg \<longrightarrow>
            fst (ab8500_charger_set_current irq di hw 300 reg) = 0 \<and>
            hw_writes (snd (snd (ab8500_charger_set_current irq di hw 300 reg))) =
              hw_writes hw @
                [Xfer_set AB8500_CHARGER reg (reg_code (shift_of reg) (curr_index reg 100 + 1)),
                 Xfer_set AB8500_CHARGER reg (reg_code (shift_of reg) (curr_index reg 300))]) \<and>
         (reg = AB8500_USBCH_IPT_CRNTLVL_REG \<and> auto_limit_index hw = 0 \<and>
          ab8500_charger_check_continue_stepping (saw_drop irq 1 1 di) reg \<and>
          ab8500_charger_check_continue_stepping (saw_drop irq 1 2 di) reg \<longrightarrow>
            fst (ab8500_charger_set_current irq di hw 300 reg) = 0 \<and>
            hw_writes (snd (snd (ab8500_charger_set_current irq di hw 300 reg))) =
              hw_writes hw @
                [Xfer_set AB8500_CHARGER reg (reg_code (shift_of reg) 1),
                 Xfer_set AB8500_CHARGER reg (reg_code (shift_of reg) 2),
                 Xfer_set AB8500_CHARGER reg (reg_code (shift_of reg) (curr_index reg 300))])"
proof (intro conjI impI)
  let ?A = "curr_index reg 100"
  from curr_index_100_300 [OF reg] have B: "curr_index reg 300 = ?A + 2" and A0: "0 \<le> ?A"
    by simp_all
  assume a: "auto_limit_from hw reg ?A \<and>
          ab8500_charger_check_continue_stepping (saw_drop irq (?A + 1) (?A + 1) di) reg"
  then have P: "prev_curr_index hw reg = ?A" using prev_curr_index_reg [of hw reg] at100 by simp
  have go': "\<forall>j. prev_curr_index hw reg < j \<and> j < ?A + 2 \<longrightarrow>
               ab8500_charger_check_continue_stepping
                 (saw_drop irq (prev_curr_index hw reg + 1) j di) reg"
  proof (intro allI impI)
    fix j assume "prev_curr_index hw reg < j \<and> j < ?A + 2"
    then have "j = ?A + 1" using P by simp
    with a P show "ab8500_charger_check_continue_stepping
                 (saw_drop irq (prev_curr_index hw reg + 1) j di) reg" by simp
  qed
  have eq: "ab8500_charger_set_current irq di hw 300 reg =
           exit_set_current 0 (saw_drop irq (?A + 1) (?A + 2) (session_begin di))
             (wrote (read_done hw reg) reg (shift_of reg) [?A + 1..?A + 2])"
    using set_current_up [OF reg rd wr _ conn, of 300 "?A + 2" irq] go' A0
    by (simp add: B P)
  have l: "[?A + 1..?A + 2] = [?A + 1, ?A + 2]" by (simp add: upto_rec1)
  show "fst (ab8500_charger_set_current irq di hw 300 reg) = 0"
    by (simp add: eq exit_set_current_def)
  show "hw_writes (snd (snd (ab8500_charger_set_current irq di hw 300 reg))) =
              hw_writes hw @
                [Xfer_set AB8500_CHARGER reg (reg_code (shift_of reg) (curr_index reg 100 + 1)),
                 Xfer_set AB8500_CHARGER reg (reg_code (shift_of reg) (curr_index reg 300))]"
    using l by (simp add: eq exit_set_current_def hw_writes_wrote B)
next
  assume a: "reg = AB8500_USBCH_IPT_CRNTLVL_REG \<and> auto_limit_index hw = 0 \<and>
          ab8500_charger_check_continue_stepping (saw_drop irq 1 1 di) reg \<and>
          ab8500_charger_check_continue_stepping (saw_drop irq 1 2 di) reg"
  have "0 \<le> reg_curr_index hw AB8500_USBCH_IPT_CRNTLVL_REG" by (simp add: reg_curr_index_def)
  with a have P: "prev_curr_index hw reg = 0" using prev_curr_index_auto [of hw] by simp
  from curr_index_100_300 [OF reg] a have B: "curr_index reg 300 = 3"
    using encodes_floor [OF encodes_vbus_in_curr, of 1 100]
    by (simp add: curr_index_def ab8500_charger_vbus_in_curr_map_def)
  have go': "\<forall>j. prev_curr_index hw reg < j \<and> j < 3 \<longrightarrow>
               ab8500_charger_check_continue_stepping
                 (saw_drop irq (prev_curr_index hw reg + 1) j di) reg"
  proof (intro allI impI)
    fix j :: int assume "prev_curr_index hw reg < j \<and> j < 3"
    then have "j = 1 \<or> j = 2" using P by auto
    with a P show "ab8500_charger_check_continue_stepping
                 (saw_drop irq (prev_curr_index hw reg + 1) j di) reg" by auto
  qed
  have eq: "ab8500_charger_set_current irq di hw 300 reg =
           exit_set_current 0 (saw_drop irq (0 + 1) 3 (session_begin di))
             (wrote (read_done hw reg) reg (shift_of reg) [0 + 1..3])"
    using set_current_up [OF reg rd wr _ conn, of 300 3 irq] go'
    by (simp add: B P)
  have l: "[0 + 1..3] = [1, 2, 3::int]" by (simp add: upto_rec1)
  show "fst (ab8500_charger_set_current irq di hw 300 reg) = 0"
    by (simp add: eq exit_set_current_def)
  show "hw_writes (snd (snd (ab8500_charger_set_current irq di hw 300 reg))) =
              hw_writes hw @
                [Xfer_set AB8500_CHARGER reg (reg_code (shift_of reg) 1),
                 Xfer_set AB8500_CHARGER reg (reg_code (shift_of reg) 2),
                 Xfer_set AB8500_CHARGER reg (reg_code (shift_of reg) (curr_index reg 300))]"
    using l by (simp add: eq exit_set_current_def hw_writes_wrote B)
qed

text \<open>
  C9 as stated fails: on the output-current register at the code of 100 mA (code 0) a
  request for 300 mA (code 2) writes code 1 and then code 2, so a single write precedes
  the final one, not two.
\<close>

theorem set_current_300_from_100_counterexample:
  "prev_curr_index (example_hw witness_regs) AB8500_CH_OPT_CRNTLVL_REG
     = curr_index AB8500_CH_OPT_CRNTLVL_REG 100 \<and>
   hw_writes (snd (snd (ab8500_charger_set_current no_irq example_di (example_hw witness_regs)
      300 AB8500_CH_OPT_CRNTLVL_REG))) =
     [Xfer_set AB8500_CHARGER AB8500_CH_OPT_CRNTLVL_REG 1,
      Xfer_set AB8500_CHARGER AB8500_CH_OPT_CRNTLVL_REG 2] \<and>
   curr_index AB8500_CH_OPT_CRNTLVL_REG 300 = 2 \<and>
   length (butlast (hw_writes (snd (snd (ab8500_charger_set_current no_irq example_di
      (example_hw witness_regs) 300 AB8500_CH_OPT_CRNTLVL_REG))))) \<noteq> 2"
proof -
  let ?reg = AB8500_CH_OPT_CRNTLVL_REG and ?hw = "example_hw witness_regs"
  have reg: "supported_reg ?reg" by (simp add: supported_reg_def)
  have c100: "curr_index ?reg 100 = 0"
    using encodes_nth [OF ascending_current_map encodes_current, of 0]
    by (simp add: curr_index_def ab8500_charger_current_map_def)
  have c300: "curr_index ?reg 300 = 2"
    using curr_index_100_300 [OF reg] c100 by simp
  have A: "prev_curr_index ?hw ?reg = 0"
    by (simp add: prev_curr_index_def shift_of_def example_hw_def witness_regs_def)
  have rd: "reads_ok ?hw ?reg" by (simp add: reads_ok_def example_hw_def)
  have wr: "set_ret ?hw AB8500_CHARGER ?reg = 0" by (simp add: example_hw_def)
  have conn: "charger_present example_di ?reg" by (simp add: charger_present_def example_di_def)
  have go: "\<forall>j. prev_curr_index ?hw ?reg < j \<and> j < 2 \<longrightarrow>
               ab8500_charger_check_continue_stepping
                 (saw_drop no_irq (prev_curr_index ?hw ?reg + 1) j example_di) ?reg"
    by (simp add: ab8500_charger_check_continue_stepping_def)
  have "ab8500_charger_set_current no_irq example_di ?hw 300 ?reg =
           exit_set_current 0 (saw_drop no_irq (0 + 1) 2 (session_begin example_di))
             (wrote (read_done ?hw ?reg) ?reg (shift_of ?reg) [0 + 1..2])"
    using set_current_up [OF reg rd wr _ conn, of 300 2 no_irq] go
    by (simp add: c300 A)
  moreover have "[0 + 1..2] = [1, 2::int]" by (simp add: upto_rec1)
  moreover have "hw_writes ?hw = []" by (simp add: hw_writes_def example_hw_def)
  moreover have "shift_of ?reg = 0" by (simp add: shift_of_def)
  ultimately show ?thesis
    by (simp add: exit_set_current_def hw_writes_wrote A c100 c300 reg_code_def)
qed

theorem set_current_300_from_100_witness:
  "supported_reg AB8500_USBCH_IPT_CRNTLVL_REG \<and>
   reads_ok (example_hw witness_regs) AB8500_USBCH_IPT_CRNTLVL_REG \<and>
   set_ret (example_hw witness_regs) AB8500_CHARGER AB8500_USBCH_IPT_CRNTLVL_REG = 0 \<and>
   charger_present example_di AB8500_USBCH_IPT_CRNTLVL_REG \<and>
   reg_curr_index (example_hw witness_regs) AB8500_USBCH_IPT_CRNTLVL_REG = 1 \<and>
   curr_index AB8500_USBCH_IPT_CRNTLVL_REG 100 = 1 \<and>
   curr_index AB8500_USBCH_IPT_CRNTLVL_REG 300 = 3 \<and>
   auto_limit_from (example_hw witness_regs) AB8500_USBCH_IPT_CRNTLVL_REG 1 \<and>
   ab8500_charger_check_continue_stepping (saw_drop no_irq 2 2 example_di)
     AB8500_USBCH_IPT_CRNTLVL_REG \<and>
   fst (ab8500_charger_set_current no_irq example_di (example_hw witness_regs) 300
          AB8500_USBCH_IPT_CRNTLVL_REG) = 0 \<and>
   hw_writes (snd (snd (ab8500_charger_set_current no_irq example_di (example_hw witness_regs)
          300 AB8500_USBCH_IPT_CRNTLVL_REG))) =
     [Xfer_set AB8500_CHARGER AB8500_USBCH_IPT_CRNTLVL_REG 0x20,
      Xfer_set AB8500_CHARGER AB8500_USBCH_IPT_CRNTLVL_REG 0x30] \<and>
   reads_ok (example_hw limited_regs) AB8500_USBCH_IPT_CRNTLVL_REG \<and>
   set_ret (example_hw limited_regs) AB8500_CHARGER AB8500_USBCH_IPT_CRNTLVL_REG = 0 \<and>
   reg_curr_index (example_hw limited_regs) AB8500_USBCH_IPT_CRNTLVL_REG = 1 \<and>
   auto_limit_index (example_hw limited_regs) = 0 \<and>
   ab8500_charger_check_continue_stepping (saw_drop no_irq 1 1 example_di)
     AB8500_USBCH_IPT_CRNTLVL_REG \<and>
   ab8500_charger_check_continue_stepping (saw_drop no_irq 1 2 example_di)
     AB8500_USBCH_IPT_CRNTLVL_REG \<and>
   hw_writes (snd (snd (ab8500_charger_set_current no_irq example_di (example_hw limited_regs)
          300 AB8500_USBCH_IPT_CRNTLVL_REG))) =
     [Xfer_set AB8500_CHARGER AB8500_USBCH_IPT_CRNTLVL_REG 0x10,
      Xfer_set AB8500_CHARGER AB8500_USBCH_IPT_CRNTLVL_REG 0x20,
      Xfer_set AB8500_CHARGER AB8500_USBCH_IPT_CRNTLVL_REG 0x30]"
proof -
  let ?reg = AB8500_USBCH_IPT_CRNTLVL_REG and ?hw = "example_hw witness_regs"
  let ?hl = "example_hw limited_regs"
  have h1: "supported_reg ?reg" by (simp add: supported_reg_def)
  have h2: "reads_ok ?hw ?reg" "reads_ok ?hl ?reg" by (simp_all add: reads_ok_def example_hw_def)
  have h3: "set_ret ?hw AB8500_CHARGER ?reg = 0" "set_ret ?hl AB8500_CHARGER ?reg = 0"
    by (simp_all add: example_hw_def)
  have h4: "charger_present example_di ?reg" by (simp add: charger_present_def example_di_def)
  have sh: "shift_of ?reg = 4" by (simp add: shift_of_def VBUS_IN_CURR_LIM_SHIFT_def)
  have c100: "curr_index ?reg 100 = 1"
    using encodes_floor [OF encodes_vbus_in_curr, of 1 100]
    by (simp add: curr_index_def ab8500_charger_vbus_in_curr_map_def)
  have c300: "curr_index ?reg 300 = 3" using curr_index_100_300 [OF h1] c100 by simp
  have A: "reg_curr_index ?hw ?reg = 1" "reg_curr_index ?hl ?reg = 1"
    by (simp_all add: reg_curr_index_def sh example_hw_def witness_regs_def limited_regs_def)
  have L: "auto_limit_from ?hw ?reg 1" "auto_limit_index ?hl = 0"
    by (simp_all add: auto_limit_from_def auto_limit_index_def example_hw_def witness_regs_def
          limited_regs_def AUTO_VBUS_IN_CURR_LIM_SHIFT_def)
  have g: "ab8500_charger_check_continue_stepping (saw_drop no_irq 2 2 example_di) ?reg"
     "ab8500_charger_check_continue_stepping (saw_drop no_irq 1 1 example_di) ?reg"
     "ab8500_charger_check_continue_stepping (saw_drop no_irq 1 2 example_di) ?reg"
    by (simp_all add: check_saw_drop drop_seen_def example_di_def no_irq_def list_ex_iff)
  have w0: "hw_writes ?hw = []" "hw_writes ?hl = []"
    by (simp_all add: hw_writes_def example_hw_def)
  from set_current_300_from_100 [OF h1 h2(1) h3(1) h4, of no_irq] A L g
  have p1: "fst (ab8500_charger_set_current no_irq example_di ?hw 300 ?reg) = 0 \<and>
     hw_writes (snd (snd (ab8500_charger_set_current no_irq example_di ?hw 300 ?reg))) =
       [Xfer_set AB8500_CHARGER ?reg 0x20, Xfer_set AB8500_CHARGER ?reg 0x30]"
    by (simp add: c100 c300 sh w0 reg_code_def)
  from set_current_300_from_100 [OF h1 h2(2) h3(2) h4, of no_irq] A L g
  have p2: "hw_writes (snd (snd (ab8500_charger_set_current no_irq example_di ?hl 300 ?reg))) =
       [Xfer_set AB8500_CHARGER ?reg 0x10, Xfer_set AB8500_CHARGER ?reg 0x20,
        Xfer_set AB8500_CHARGER ?reg 0x30]"
    by (simp add: c100 c300 sh w0 reg_code_def)
  show ?thesis using h1 h2 h3 h4 A L g c100 c300 p1 p2 by simp
qed

theorem set_current_rejects_witness:
  "\<not> supported_reg (AB8500_REG 0x99) \<and>
   reads_ok (example_hw witness_regs) (AB8500_REG 0x99) \<and>
   hw_writes (snd (snd (ab8500_charger_set_current no_irq example_di (example_hw witness_regs)
      300 (AB8500_REG 0x99)))) = hw_writes (example_hw witness_regs) \<and>
   fst (ab8500_charger_set_current no_irq example_di (example_hw witness_regs)
      300 (AB8500_REG 0x99)) = - ENXIO \<and>
   curr_index AB8500_CH_OPT_CRNTLVL_REG 1600 < 0 \<and>
   reads_ok (example_hw witness_regs) AB8500_CH_OPT_CRNTLVL_REG \<and>
   hw_writes (snd (snd (ab8500_charger_set_current no_irq example_di (example_hw witness_regs)
      1600 AB8500_CH_OPT_CRNTLVL_REG))) = hw_writes (example_hw witness_regs) \<and>
   fst (ab8500_charger_set_current no_irq example_di (example_hw witness_regs)
      1600 AB8500_CH_OPT_CRNTLVL_REG) = - ENXIO"
proof -
  let ?hw = "example_hw witness_regs"
  have a: "\<not> supported_reg (AB8500_REG 0x99)" by (simp add: supported_reg_def)
  have b: "reads_ok ?hw (AB8500_REG 0x99)" by (simp add: reads_ok_def example_hw_def)
  have c: "curr_index AB8500_CH_OPT_CRNTLVL_REG 1600 < 0"
    using encodes_above [OF encodes_current, of 1600]
    by (simp add: curr_index_def ab8500_charger_current_map_def)
  have d: "reads_ok ?hw AB8500_CH_OPT_CRNTLVL_REG" by (simp add: reads_ok_def example_hw_def)
  from set_current_rejects [where reg = "AB8500_REG 0x99" and ich = 300 and hw = ?hw
                               and irq = no_irq and di = example_di]
       set_current_rejects [where reg = AB8500_CH_OPT_CRNTLVL_REG and ich = 1600 and hw = ?hw
                               and irq = no_irq and di = example_di]
       a b c d
  show ?thesis by simp
qed

section \<open>Properties of the drop-end retry controller\<close>

lemma keeps_sample_refl [simp]: "keeps_sample hw hw"
  by (simp add: keeps_sample_def)

lemma keeps_sample_trans: "keeps_sample a b \<Longrightarrow> keeps_sample b c \<Longrightarrow> keeps_sample a c"
  by (simp add: keeps_sample_def)

lemma keeps_di_refl [simp]: "keeps_di di di"
proof -
  have "di = di\<lparr>flags := (flags di)\<lparr>vbus_drop_end := vbus_drop_end (flags di)\<rparr>\<rparr>" by simp
  then show ?thesis unfolding keeps_di_def by blast
qed

lemma keeps_di_trans:
  assumes "keeps_di a b" "keeps_di b c"
  shows "keeps_di a c"
proof -
  from assms obtain x y where b: "b = a\<lparr>flags := (flags a)\<lparr>vbus_drop_end := x\<rparr>\<rparr>"
    and c: "c = b\<lparr>flags := (flags b)\<lparr>vbus_drop_end := y\<rparr>\<rparr>"
    unfolding keeps_di_def by blast
  have "c = a\<lparr>flags := (flags a)\<lparr>vbus_drop_end := y\<rparr>\<rparr>" by (simp add: b c)
  then show ?thesis unfolding keeps_di_def by blast
qed

lemma keeps_di_set_flag [simp]:
  "keeps_di di (di\<lparr>flags := (flags di)\<lparr>vbus_drop_end := b\<rparr>\<rparr>)"
  unfolding keeps_di_def by blast

lemma keeps_di_fields:
  assumes "keeps_di di di'"
  shows "vbus_drop di' = vbus_drop di" "usb di' = usb di" "ac di' = ac di"
    "max_usb_in_curr di' = max_usb_in_curr di" "usb_state di' = usb_state di"
    "usb_curr_max di' = usb_curr_max di" "vbat di' = vbat di"
    "current_stepping_sessions di' = current_stepping_sessions di"
  using assms unfolding keeps_di_def by auto

lemma set_keeps_sample:
  "reg \<noteq> AB8500_CH_USBCH_STAT2_REG \<Longrightarrow>
   keeps_sample hw (snd (abx500_set_register_interruptible hw AB8500_CHARGER reg v))"
  by (simp add: keeps_sample_def abx500_set_register_interruptible_def)

lemma get_keeps_sample:
  "keeps_sample hw (snd (snd (abx500_get_register_interruptible hw bank reg v)))"
  by (simp add: keeps_sample_def abx500_get_register_interruptible_def)

lemma step_down_keeps:
  "reg \<noteq> AB8500_CH_USBCH_STAT2_REG \<Longrightarrow>
   keeps_sample hw (snd (step_down reg sh c i ret hw))"
proof (induction reg sh c i ret hw rule: step_down.induct)
  case (1 reg sh c i ret hw)
  let ?r = "abx500_set_register_interruptible hw AB8500_CHARGER reg (reg_code sh i)"
  have k: "keeps_sample hw (snd ?r)" using "1.prems" by (rule set_keeps_sample)
  show ?case
  proof (cases "c \<le> i")
    case False
    then show ?thesis by (subst step_down.simps) simp
  next
    case True
    show ?thesis
    proof (cases "fst ?r \<noteq> 0")
      case True
      with \<open>c \<le> i\<close> k show ?thesis by (subst step_down.simps) (simp add: Let_def)
    next
      case False
      with "1.IH" [OF \<open>c \<le> i\<close> refl False "1.prems"] k \<open>c \<le> i\<close>
      show ?thesis by (subst step_down.simps) (auto simp: Let_def intro: keeps_sample_trans)
    qed
  qed
qed

lemma handler_keeps_di: "keeps_di di (ab8500_charger_vbuschdropend_handler di)"
  by (simp add: ab8500_charger_vbuschdropend_handler_def)

lemma step_up_keeps:
  "reg \<noteq> AB8500_CH_USBCH_STAT2_REG \<Longrightarrow>
   keeps_di di (fst (snd (step_up irq reg sh c i allow ret di hw))) \<and>
   keeps_sample hw (snd (snd (step_up irq reg sh c i allow ret di hw)))"
proof (induction irq reg sh c i allow ret di hw rule: step_up.induct)
  case (1 irq reg sh c i allow ret di hw)
  let ?r = "abx500_set_register_interruptible hw AB8500_CHARGER reg (reg_code sh i)"
  let ?di = "if irq i then ab8500_charger_vbuschdropend_handler di else di"
  have k: "keeps_sample hw (snd ?r)" using "1.prems" by (rule set_keeps_sample)
  have kd: "keeps_di di ?di" by (simp add: handler_keeps_di)
  show ?case
  proof (cases "i \<le> c \<and> allow")
    case False
    then show ?thesis by (simp add: step_up_stop)
  next
    case True
    show ?thesis
    proof (cases "fst ?r \<noteq> 0")
      case True
      with \<open>i \<le> c \<and> allow\<close>
      have "step_up irq reg sh c i allow ret di hw = (fst ?r, di, snd ?r)"
        by (subst step_up.simps) (simp add: Let_def)
      with k show ?thesis by simp
    next
      case False
      from "1.IH" [OF \<open>i \<le> c \<and> allow\<close> refl False refl "1.prems"]
      have ih: "keeps_di ?di (fst (snd (step_up irq reg sh c (i + 1)
                   (ab8500_charger_check_continue_stepping ?di reg) (fst ?r) ?di (snd ?r))))"
        "keeps_sample (snd ?r) (snd (snd (step_up irq reg sh c (i + 1)
                   (ab8500_charger_check_continue_stepping ?di reg) (fst ?r) ?di (snd ?r))))"
        by simp_all
      have eq: "step_up irq reg sh c i allow ret di hw =
                step_up irq reg sh c (i + 1)
                   (ab8500_charger_check_continue_stepping ?di reg) (fst ?r) ?di (snd ?r)"
        using True False by (subst step_up.simps) (simp add: Let_def)
      show ?thesis unfolding eq
        using keeps_di_trans [OF kd ih(1)] keeps_sample_trans [OF k ih(2)] by simp
    qed
  qed
qed

lemma keeps_di_session:
  assumes "keeps_di (di\<lparr>current_stepping_sessions := current_stepping_sessions di + 1\<rparr>) d1"
  shows "keeps_di di (d1\<lparr>current_stepping_sessions := current_stepping_sessions d1 - 1\<rparr>)"
proof -
  from assms obtain b where
    "d1 = di\<lparr>current_stepping_sessions := current_stepping_sessions di + 1,
              flags := (flags di)\<lparr>vbus_drop_end := b\<rparr>\<rparr>"
    unfolding keeps_di_def by auto
  then have "d1\<lparr>current_stepping_sessions := current_stepping_sessions d1 - 1\<rparr>
               = di\<lparr>flags := (flags di)\<lparr>vbus_drop_end := b\<rparr>\<rparr>" by simp
  then show ?thesis unfolding keeps_di_def by blast
qed

lemma set_current_steps_exit:
  assumes reg: "reg \<noteq> AB8500_CH_USBCH_STAT2_REG"
  shows "\<exists>r d h. set_current_steps irq di hw reg ret sh A B ns = exit_set_current r d h \<and>
           keeps_di di d \<and> keeps_sample hw h"
proof -
  consider "B < 0" | "\<not> B < 0" "A = B" | "\<not> B < 0" "A \<noteq> B" "ns"
    | "\<not> B < 0" "A \<noteq> B" "\<not> ns" "B < A" | "\<not> B < 0" "A \<noteq> B" "\<not> ns" "\<not> B < A"
    by blast
  then show ?thesis
  proof cases
    case 1
    then have "set_current_steps irq di hw reg ret sh A B ns = exit_set_current (- ENXIO) di hw"
      by (simp add: set_current_steps_def)
    then show ?thesis using keeps_di_refl keeps_sample_refl by blast
  next
    case 2
    then have "set_current_steps irq di hw reg ret sh A B ns = exit_set_current 0 di hw"
      by (simp add: set_current_steps_def)
    then show ?thesis using keeps_di_refl keeps_sample_refl by blast
  next
    case 3
    let ?r = "abx500_set_register_interruptible hw AB8500_CHARGER reg (reg_code sh B)"
    from 3 have "set_current_steps irq di hw reg ret sh A B ns = exit_set_current (fst ?r) di (snd ?r)"
      by (simp add: set_current_steps_def Let_def)
    then show ?thesis using keeps_di_refl set_keeps_sample [OF reg] by blast
  next
    case 4
    let ?r = "step_down reg sh B (A - 1) ret hw"
    from 4 have "set_current_steps irq di hw reg ret sh A B ns = exit_set_current (fst ?r) di (snd ?r)"
      by (simp add: set_current_steps_def Let_def)
    then show ?thesis using keeps_di_refl step_down_keeps [OF reg] by blast
  next
    case 5
    let ?r = "step_up irq reg sh B (A + 1) True ret di hw"
    from 5 have "set_current_steps irq di hw reg ret sh A B ns =
        exit_set_current (fst ?r) (fst (snd ?r)) (snd (snd ?r))"
      by (simp add: set_current_steps_def split: prod.splits)
    then show ?thesis using step_up_keeps [OF reg] by blast
  qed
qed

lemma exit_set_current_keeps:
  assumes "keeps_di (di\<lparr>current_stepping_sessions := current_stepping_sessions di + 1\<rparr>) d"
      and "keeps_sample hw h"
  shows "keeps_di di (fst (snd (exit_set_current r d h))) \<and>
         keeps_sample hw (snd (snd (exit_set_current r d h)))"
  using keeps_di_session [OF assms(1)] assms(2) by (simp add: exit_set_current_def)

lemma set_current_keeps:
  assumes reg: "reg \<noteq> AB8500_CH_USBCH_STAT2_REG"
  shows "keeps_di di (fst (snd (ab8500_charger_set_current irq di hw ich reg))) \<and>
         keeps_sample hw (snd (snd (ab8500_charger_set_current irq di hw ich reg)))"
proof -
  let ?di = "di\<lparr>current_stepping_sessions := current_stepping_sessions di + 1\<rparr>"
  let ?g = "abx500_get_register_interruptible hw AB8500_CHARGER reg 0"
  let ?hw = "snd (snd ?g)"
  let ?g2 = "abx500_get_register_interruptible ?hw AB8500_CHARGER AB8500_CH_USBCH_STAT2_REG
               (fst (snd ?g))"
  let ?hw2 = "snd (snd ?g2)"
  have k1: "keeps_sample hw ?hw" by (rule get_keeps_sample)
  have k2: "keeps_sample hw ?hw2" using k1 get_keeps_sample by (rule keeps_sample_trans)
  have "\<exists>r d h. ab8500_charger_set_current irq di hw ich reg = exit_set_current r d h \<and>
          keeps_di ?di d \<and> keeps_sample hw h"
  proof (cases "fst ?g < 0")
    case True
    then have "ab8500_charger_set_current irq di hw ich reg = exit_set_current (fst ?g) ?di ?hw"
      by (simp add: ab8500_charger_set_current_def Let_def case_prod_beta)
    then show ?thesis using keeps_di_refl k1 by blast
  next
    case False
    note ok = this
    consider "reg = AB8500_MCH_IPT_CURLVL_REG" | "reg = AB8500_CH_OPT_CRNTLVL_REG"
      | "reg = AB8500_USBCH_IPT_CRNTLVL_REG" "fst ?g2 < 0"
      | "reg = AB8500_USBCH_IPT_CRNTLVL_REG" "\<not> fst ?g2 < 0"
      | "\<not> supported_reg reg"
      unfolding supported_reg_def by blast
    then show ?thesis
    proof cases
      case 1
      obtain r d h where
        "set_current_steps irq ?di ?hw reg (fst ?g) MAIN_CH_INPUT_CURR_SHIFT
           (uint (drop_bit MAIN_CH_INPUT_CURR_SHIFT (fst (snd ?g)))) (ab8500_current_to_regval ich)
           (charger_connected (ac ?di) = 0) = exit_set_current r d h"
        "keeps_di ?di d" "keeps_sample ?hw h"
        using set_current_steps_exit [OF reg] by blast
      moreover from this(3) k1 have "keeps_sample hw h" by (blast intro: keeps_sample_trans)
      ultimately show ?thesis using ok 1
        by (auto simp: ab8500_charger_set_current_def Let_def case_prod_beta)
    next
      case 2
      obtain r d h where
        "set_current_steps irq ?di ?hw reg (fst ?g) 0
           (uint (fst (snd ?g))) (ab8500_current_to_regval ich)
           (charger_connected (usb ?di) = 0 \<and> charger_connected (ac ?di) = 0) = exit_set_current r d h"
        "keeps_di ?di d" "keeps_sample ?hw h"
        using set_current_steps_exit [OF reg] by blast
      moreover from this(3) k1 have "keeps_sample hw h" by (blast intro: keeps_sample_trans)
      ultimately show ?thesis using ok 2
        by (auto simp: ab8500_charger_set_current_def Let_def case_prod_beta)
    next
      case 3
      then have "ab8500_charger_set_current irq di hw ich reg = exit_set_current (fst ?g2) ?di ?hw2"
        using ok by (simp add: ab8500_charger_set_current_def Let_def case_prod_beta)
      then show ?thesis using keeps_di_refl k2 by blast
    next
      case 4
      obtain r d h where
        "set_current_steps irq ?di ?hw2 reg (fst ?g2) VBUS_IN_CURR_LIM_SHIFT
           (min (uint (drop_bit VBUS_IN_CURR_LIM_SHIFT (fst (snd ?g))))
                (uint (drop_bit AUTO_VBUS_IN_CURR_LIM_SHIFT (fst (snd ?g2)))))
           (ab8500_vbus_in_curr_to_regval ich)
           (charger_connected (usb ?di) = 0) = exit_set_current r d h"
        "keeps_di ?di d" "keeps_sample ?hw2 h"
        using set_current_steps_exit [OF reg] by blast
      moreover from this(3) k2 have "keeps_sample hw h" by (blast intro: keeps_sample_trans)
      ultimately show ?thesis using ok 4
        by (auto simp: ab8500_charger_set_current_def Let_def case_prod_beta)
    next
      case 5
      then have "ab8500_charger_set_current irq di hw ich reg = exit_set_current (- ENXIO) ?di ?hw"
        using ok
        by (cases reg) (simp_all add: supported_reg_def ab8500_charger_set_current_def Let_def
              case_prod_beta)
      then show ?thesis using keeps_di_refl k1 by blast
    qed
  qed
  then obtain r d h where e: "ab8500_charger_set_current irq di hw ich reg = exit_set_current r d h"
    and kd: "keeps_di ?di d" and ks: "keeps_sample hw h" by blast
  show ?thesis unfolding e using exit_set_current_keeps [OF kd ks] .
qed

lemma drop_end_retry_keeps:
  "keeps_di di (fst (drop_end_retry irq di hw)) \<and> keeps_sample hw (snd (drop_end_retry irq di hw))"
  using set_current_keeps [of AB8500_USBCH_IPT_CRNTLVL_REG di irq hw]
  by (simp add: drop_end_retry_def ab8500_charger_set_vbus_in_curr_def Let_def)

lemma uint_shl1: "uint (t::32 word) \<le> 3840 \<Longrightarrow> uint (push_bit 1 t) = 2 * uint t"
proof -
  assume a: "uint t \<le> 3840"
  have "uint (push_bit 1 t) = (2 * uint t) mod 2 ^ 32"
    by (simp add: push_bit_eq_mult uint_word_ariths mult.commute)
  also have "\<dots> = 2 * uint t"
    using a by (intro mod_pos_pos_trivial) simp_all
  finally show ?thesis .
qed

lemma sint_shl1: "uint (t::32 word) \<le> 3840 \<Longrightarrow> sint (push_bit 1 t) = 2 * uint t"
proof -
  assume a: "uint t \<le> 3840"
  then have u: "uint (push_bit 1 t) = 2 * uint t" by (rule uint_shl1)
  have "sint (push_bit 1 t) = signed_take_bit 31 (uint (push_bit 1 t))"
    by (simp only: sint_uint) simp
  also have "\<dots> = uint (push_bit 1 t)"
  proof (rule signed_take_bit_int_eq_self)
    have "- (2 ^ 31) \<le> (0::int)" by simp
    also have "0 \<le> uint (push_bit 1 t)" by simp
    finally show "- (2 ^ 31) \<le> uint (push_bit 1 t)" .
    show "uint (push_bit 1 t) < 2 ^ 31" using a unfolding u by simp
  qed
  finally show ?thesis using u by simp
qed

lemma keeps_sample_sampled: "keeps_sample hw (sampled hw)"
  unfolding sampled_def
  by (rule keeps_sample_trans [OF set_keeps_sample get_keeps_sample]) simp

lemma hw_writes_sampled:
  "hw_writes (sampled hw) = hw_writes hw @ [Xfer_set AB8500_CHARGER AB8500_CHARGER_CTRL 0x01]"
  by (simp add: sampled_def hw_writes_def abx500_get_register_interruptible_def
        abx500_set_register_interruptible_def)

lemma keeps_sample_auto_limit: "keeps_sample hw hw' \<Longrightarrow> auto_limit_curr hw' = auto_limit_curr hw"
  by (simp add: keeps_sample_def auto_limit_curr_def)

lemma keeps_sample_get_ret:
  "keeps_sample hw hw' \<Longrightarrow> get_ret hw' = get_ret hw"
  by (simp add: keeps_sample_def)

lemma drop_end_work_sampled:
  assumes rd: "0 \<le> get_ret hw AB8500_CHARGER AB8500_CH_USBCH_STAT2_REG"
  shows "ab8500_charger_vbus_drop_end_work irq di hw =
     (let d = drop_cleared di; vd = vbus_drop di; c = auto_limit_curr hw
      in if snd (real_max_usb_in_curr vd) \<noteq> c then
           drop_end_retry irq
             (d\<lparr>vbus_drop := vd\<lparr>real_max_usb_in_curr := (fst (real_max_usb_in_curr vd), c),
                                  retry_current_time := VBUS_IN_CURR_LIM_RETRY_SET_TIME\<rparr>\<rparr>)
             (sampled hw)
         else if sint (push_bit 1 (retry_current_time vd)) > VBUS_IN_CURR_LIM_RETRY_MAX_TIME then
           (d\<lparr>vbus_drop := vd\<lparr>real_max_usb_in_curr :=
                (snd (real_max_usb_in_curr vd), snd (real_max_usb_in_curr vd))\<rparr>\<rparr>, sampled hw)
         else
           drop_end_retry irq
             (d\<lparr>vbus_drop := vd\<lparr>retry_current_time := push_bit 1 (retry_current_time vd)\<rparr>\<rparr>)
             (sampled hw))"
  using rd
  by (simp add: ab8500_charger_vbus_drop_end_work_def Let_def case_prod_beta sampled_def
        drop_cleared_def auto_limit_curr_def abx500_get_register_interruptible_def
        abx500_set_register_interruptible_def)

lemma vbus_drop_retry [simp]: "vbus_drop (fst (drop_end_retry irq di hw)) = vbus_drop di"
  using drop_end_retry_keeps [of di irq hw] by (simp add: keeps_di_fields)

lemma keeps_sample_retry: "keeps_sample hw0 hw \<Longrightarrow> keeps_sample hw0 (snd (drop_end_retry irq di hw))"
  using drop_end_retry_keeps [of di irq hw] by (blast intro: keeps_sample_trans)

lemma drop_end_work_differs:
  assumes "0 \<le> get_ret hw AB8500_CHARGER AB8500_CH_USBCH_STAT2_REG"
      and "auto_limit_curr hw \<noteq> snd (real_max_usb_in_curr (vbus_drop di))"
  shows "vbus_drop (fst (ab8500_charger_vbus_drop_end_work irq di hw)) =
           (vbus_drop di)\<lparr>real_max_usb_in_curr :=
               (fst (real_max_usb_in_curr (vbus_drop di)), auto_limit_curr hw),
             retry_current_time := 30\<rparr>"
  using assms
  by (simp add: drop_end_work_sampled Let_def VBUS_IN_CURR_LIM_RETRY_SET_TIME_def)

lemma drop_end_work_doubles:
  assumes "0 \<le> get_ret hw AB8500_CHARGER AB8500_CH_USBCH_STAT2_REG"
      and "auto_limit_curr hw = snd (real_max_usb_in_curr (vbus_drop di))"
      and "uint (retry_current_time (vbus_drop di)) \<le> 1920"
  shows "vbus_drop (fst (ab8500_charger_vbus_drop_end_work irq di hw)) =
           (vbus_drop di)\<lparr>retry_current_time := push_bit 1 (retry_current_time (vbus_drop di))\<rparr>"
proof -
  from assms(3) have "sint (push_bit 1 (retry_current_time (vbus_drop di))) \<le> 3840"
    using sint_shl1 [of "retry_current_time (vbus_drop di)"] by simp
  with assms(1,2) show ?thesis
    by (simp add: drop_end_work_sampled Let_def VBUS_IN_CURR_LIM_RETRY_MAX_TIME_def)
qed

lemma drop_end_work_freezes:
  assumes "0 \<le> get_ret hw AB8500_CHARGER AB8500_CH_USBCH_STAT2_REG"
      and "auto_limit_curr hw = snd (real_max_usb_in_curr (vbus_drop di))"
      and "1920 < uint (retry_current_time (vbus_drop di))"
          "uint (retry_current_time (vbus_drop di)) \<le> 3840"
  shows "ab8500_charger_vbus_drop_end_work irq di hw =
           ((drop_cleared di)\<lparr>vbus_drop := (vbus_drop di)\<lparr>real_max_usb_in_curr :=
                (auto_limit_curr hw, auto_limit_curr hw)\<rparr>\<rparr>, sampled hw)"
proof -
  from assms(3,4) have "sint (push_bit 1 (retry_current_time (vbus_drop di))) > 3840"
    using sint_shl1 [of "retry_current_time (vbus_drop di)"] by simp
  with assms(1,2) show ?thesis
    by (simp add: drop_end_work_sampled Let_def VBUS_IN_CURR_LIM_RETRY_MAX_TIME_def)
qed

lemma drop_end_work_keeps_sample:
  assumes "0 \<le> get_ret hw AB8500_CHARGER AB8500_CH_USBCH_STAT2_REG"
  shows "keeps_sample hw (snd (ab8500_charger_vbus_drop_end_work irq di hw))"
  using assms keeps_sample_sampled [of hw]
  by (simp add: drop_end_work_sampled Let_def keeps_sample_retry)

lemma handler_vbus_drop [simp]:
  "vbus_drop (ab8500_charger_vbuschdropend_handler di) = vbus_drop di"
  by (simp add: ab8500_charger_vbuschdropend_handler_def)

lemma pow2_le_64: "n \<le> 6 \<Longrightarrow> (2::int) ^ n \<le> 64"
  using power_increasing [of n 6 "2::int"] by simp

lemma drop_end_events_run:
  assumes rd: "0 \<le> get_ret hw AB8500_CHARGER AB8500_CH_USBCH_STAT2_REG"
      and c: "auto_limit_curr hw = snd (real_max_usb_in_curr (vbus_drop di))"
      and t: "uint (retry_current_time (vbus_drop di)) = 30"
  shows "keeps_sample hw (snd (drop_end_events irqs n (di, hw))) \<and>
         (n \<le> 7 \<longrightarrow>
            uint (retry_current_time (vbus_drop (fst (drop_end_events irqs n (di, hw))))) = 30 * 2 ^ n \<and>
            real_max_usb_in_curr (vbus_drop (fst (drop_end_events irqs n (di, hw)))) =
              real_max_usb_in_curr (vbus_drop di)) \<and>
         (8 \<le> n \<longrightarrow>
            uint (retry_current_time (vbus_drop (fst (drop_end_events irqs n (di, hw))))) = 3840 \<and>
            real_max_usb_in_curr (vbus_drop (fst (drop_end_events irqs n (di, hw)))) =
              (auto_limit_curr hw, auto_limit_curr hw))"
proof (induction n)
  case 0
  show ?case using t by simp
next
  case (Suc n)
  let ?s = "drop_end_events irqs n (di, hw)"
  let ?d = "ab8500_charger_vbuschdropend_handler (fst ?s)"
  let ?w = "ab8500_charger_vbus_drop_end_work (irqs n) ?d (snd ?s)"
  from Suc.IH have ks: "keeps_sample hw (snd ?s)" by simp
  then have rd': "0 \<le> get_ret (snd ?s) AB8500_CHARGER AB8500_CH_USBCH_STAT2_REG"
    and c': "auto_limit_curr (snd ?s) = auto_limit_curr hw"
    using rd by (simp_all add: keeps_sample_get_ret keeps_sample_auto_limit)
  have step: "drop_end_events irqs (Suc n) (di, hw) = ?w" by (simp add: drop_end_event_def)
  have ks': "keeps_sample hw (snd ?w)"
    using keeps_sample_trans [OF ks drop_end_work_keeps_sample [OF rd']] .
  consider "n \<le> 6" | "n = 7" | "8 \<le> n" by linarith
  then show ?case
  proof cases
    case 1
    with Suc.IH have tn: "uint (retry_current_time (vbus_drop (fst ?s))) = 30 * 2 ^ n"
      and rm: "real_max_usb_in_curr (vbus_drop (fst ?s)) = real_max_usb_in_curr (vbus_drop di)"
      by simp_all
    from pow2_le_64 [OF 1] tn have le: "uint (retry_current_time (vbus_drop ?d)) \<le> 1920" by simp
    have same: "auto_limit_curr (snd ?s) = snd (real_max_usb_in_curr (vbus_drop ?d))"
      using c c' rm by simp
    have "vbus_drop (fst ?w) =
            (vbus_drop ?d)\<lparr>retry_current_time := push_bit 1 (retry_current_time (vbus_drop ?d))\<rparr>"
      by (rule drop_end_work_doubles [OF rd' same le])
    moreover have "uint (push_bit 1 (retry_current_time (vbus_drop ?d))) = 30 * 2 ^ Suc n"
      using uint_shl1 [of "retry_current_time (vbus_drop ?d)"] le tn by simp
    ultimately show ?thesis using ks' rm 1 unfolding step by simp
  next
    case 2
    with Suc.IH have tn: "uint (retry_current_time (vbus_drop (fst ?s))) = 3840"
      and rm: "real_max_usb_in_curr (vbus_drop (fst ?s)) = real_max_usb_in_curr (vbus_drop di)"
      by simp_all
    have same: "auto_limit_curr (snd ?s) = snd (real_max_usb_in_curr (vbus_drop ?d))"
      using c c' rm by simp
    have "?w = ((drop_cleared ?d)\<lparr>vbus_drop := (vbus_drop ?d)\<lparr>real_max_usb_in_curr :=
                (auto_limit_curr (snd ?s), auto_limit_curr (snd ?s))\<rparr>\<rparr>, sampled (snd ?s))"
      using tn by (intro drop_end_work_freezes [OF rd' same]) simp_all
    then show ?thesis using ks' tn c' 2 unfolding step by (simp add: drop_cleared_def)
  next
    case 3
    with Suc.IH have tn: "uint (retry_current_time (vbus_drop (fst ?s))) = 3840"
      and rm: "real_max_usb_in_curr (vbus_drop (fst ?s)) = (auto_limit_curr hw, auto_limit_curr hw)"
      by simp_all
    have same: "auto_limit_curr (snd ?s) = snd (real_max_usb_in_curr (vbus_drop ?d))"
      using c' rm by simp
    have "?w = ((drop_cleared ?d)\<lparr>vbus_drop := (vbus_drop ?d)\<lparr>real_max_usb_in_curr :=
                (auto_limit_curr (snd ?s), auto_limit_curr (snd ?s))\<rparr>\<rparr>, sampled (snd ?s))"
      using tn by (intro drop_end_work_freezes [OF rd' same]) simp_all
    then show ?thesis using ks' tn c' 3 unfolding step by (simp add: drop_cleared_def)
  qed
qed

lemma drop_end_event_frozen:
  assumes rd: "0 \<le> get_ret hw AB8500_CHARGER AB8500_CH_USBCH_STAT2_REG"
      and c: "auto_limit_curr hw = snd (real_max_usb_in_curr (vbus_drop di))"
      and t: "uint (retry_current_time (vbus_drop di)) = 30"
      and n: "7 \<le> n"
  shows "hw_writes (snd (drop_end_event (irqs n) (drop_end_events irqs n (di, hw)))) =
           hw_writes (snd (drop_end_events irqs n (di, hw))) @
             [Xfer_set AB8500_CHARGER AB8500_CHARGER_CTRL 0x01]"
proof -
  let ?s = "drop_end_events irqs n (di, hw)"
  let ?d = "ab8500_charger_vbuschdropend_handler (fst ?s)"
  note run = drop_end_events_run [OF rd c t, of irqs n]
  from run have ks: "keeps_sample hw (snd ?s)" by simp
  then have rd': "0 \<le> get_ret (snd ?s) AB8500_CHARGER AB8500_CH_USBCH_STAT2_REG"
    and c': "auto_limit_curr (snd ?s) = auto_limit_curr hw"
    using rd by (simp_all add: keeps_sample_get_ret keeps_sample_auto_limit)
  from run n have tn: "uint (retry_current_time (vbus_drop (fst ?s))) = 3840"
    by (cases "n = 7") auto
  from run n c have "snd (real_max_usb_in_curr (vbus_drop (fst ?s))) = auto_limit_curr hw"
    by (cases "n = 7") auto
  then have same: "auto_limit_curr (snd ?s) = snd (real_max_usb_in_curr (vbus_drop ?d))"
    using c' by simp
  have "ab8500_charger_vbus_drop_end_work (irqs n) ?d (snd ?s) =
          ((drop_cleared ?d)\<lparr>vbus_drop := (vbus_drop ?d)\<lparr>real_max_usb_in_curr :=
                (auto_limit_curr (snd ?s), auto_limit_curr (snd ?s))\<rparr>\<rparr>, sampled (snd ?s))"
    using tn by (intro drop_end_work_freezes [OF rd' same]) simp_all
  then show ?thesis by (simp add: drop_end_event_def hw_writes_sampled)
qed

text \<open>
  C3, as amended. In the drop-end work, once the auto-limit register has been sampled: a
  ceiling that differs from the last observed one is recorded and the backoff is set to
  30 s; a ceiling equal to the last observed one doubles the backoff as long as the double
  does not exceed 3840 s; when the double would exceed 3840 s the raw ceiling is set to the
  last retried ceiling and the work returns having written nothing but the drop-counter
  reset, so no retry current is applied. The freeze lasts as long as the observations stay
  identical: over a run of identical observations that starts at the 30 s seed the backoff
  is 30, 60, ..., 3840 after 0, 1, ..., 7 observations, and from the eighth observation on
  the raw ceiling stays frozen, the backoff stays at 3840 s and no observation applies a
  retry current.
\<close>

theorem vbus_drop_end_backoff:
  assumes rd: "0 \<le> get_ret hw AB8500_CHARGER AB8500_CH_USBCH_STAT2_REG"
  shows
   "(auto_limit_curr hw \<noteq> snd (real_max_usb_in_curr (vbus_drop di)) \<longrightarrow>
       real_max_usb_in_curr (vbus_drop (fst (ab8500_charger_vbus_drop_end_work irq di hw))) =
         (fst (real_max_usb_in_curr (vbus_drop di)), auto_limit_curr hw) \<and>
       retry_current_time (vbus_drop (fst (ab8500_charger_vbus_drop_end_work irq di hw))) = 30) \<and>
    (auto_limit_curr hw = snd (real_max_usb_in_curr (vbus_drop di)) \<and>
     uint (retry_current_time (vbus_drop di)) \<le> 1920 \<longrightarrow>
       real_max_usb_in_curr (vbus_drop (fst (ab8500_charger_vbus_drop_end_work irq di hw))) =
         real_max_usb_in_curr (vbus_drop di) \<and>
       uint (retry_current_time (vbus_drop (fst (ab8500_charger_vbus_drop_end_work irq di hw)))) =
         2 * uint (retry_current_time (vbus_drop di))) \<and>
    (auto_limit_curr hw = snd (real_max_usb_in_curr (vbus_drop di)) \<and>
     1920 < uint (retry_current_time (vbus_drop di)) \<and>
     uint (retry_current_time (vbus_drop di)) \<le> 3840 \<longrightarrow>
       real_max_usb_in_curr (vbus_drop (fst (ab8500_charger_vbus_drop_end_work irq di hw))) =
         (auto_limit_curr hw, auto_limit_curr hw) \<and>
       retry_current_time (vbus_drop (fst (ab8500_charger_vbus_drop_end_work irq di hw))) =
         retry_current_time (vbus_drop di) \<and>
       hw_writes (snd (ab8500_charger_vbus_drop_end_work irq di hw)) =
         hw_writes hw @ [Xfer_set AB8500_CHARGER AB8500_CHARGER_CTRL 0x01]) \<and>
    (auto_limit_curr hw = snd (real_max_usb_in_curr (vbus_drop di)) \<and>
     uint (retry_current_time (vbus_drop di)) = 30 \<longrightarrow>
       (\<forall>n\<le>7.
          uint (retry_current_time (vbus_drop (fst (drop_end_events irqs n (di, hw))))) = 30 * 2 ^ n \<and>
          real_max_usb_in_curr (vbus_drop (fst (drop_end_events irqs n (di, hw)))) =
            real_max_usb_in_curr (vbus_drop di)) \<and>
       (\<forall>n\<ge>7.
          uint (retry_current_time (vbus_drop (fst (drop_end_events irqs (Suc n) (di, hw))))) = 3840 \<and>
          real_max_usb_in_curr (vbus_drop (fst (drop_end_events irqs (Suc n) (di, hw)))) =
            (auto_limit_curr hw, auto_limit_curr hw) \<and>
          hw_writes (snd (drop_end_events irqs (Suc n) (di, hw))) =
            hw_writes (snd (drop_end_events irqs n (di, hw))) @
              [Xfer_set AB8500_CHARGER AB8500_CHARGER_CTRL 0x01]))"
proof (intro conjI impI allI)
  assume a: "auto_limit_curr hw \<noteq> snd (real_max_usb_in_curr (vbus_drop di))"
  from drop_end_work_differs [OF rd a, of irq]
  show "real_max_usb_in_curr (vbus_drop (fst (ab8500_charger_vbus_drop_end_work irq di hw))) =
         (fst (real_max_usb_in_curr (vbus_drop di)), auto_limit_curr hw)"
    and "retry_current_time (vbus_drop (fst (ab8500_charger_vbus_drop_end_work irq di hw))) = 30"
    by simp_all
next
  assume a: "auto_limit_curr hw = snd (real_max_usb_in_curr (vbus_drop di)) \<and>
     uint (retry_current_time (vbus_drop di)) \<le> 1920"
  then have eq: "vbus_drop (fst (ab8500_charger_vbus_drop_end_work irq di hw)) =
      (vbus_drop di)\<lparr>retry_current_time := push_bit 1 (retry_current_time (vbus_drop di))\<rparr>"
    by (intro drop_end_work_doubles [OF rd]) simp_all
  show "real_max_usb_in_curr (vbus_drop (fst (ab8500_charger_vbus_drop_end_work irq di hw))) =
         real_max_usb_in_curr (vbus_drop di)" by (simp add: eq)
  show "uint (retry_current_time (vbus_drop (fst (ab8500_charger_vbus_drop_end_work irq di hw)))) =
         2 * uint (retry_current_time (vbus_drop di))"
    using a uint_shl1 [of "retry_current_time (vbus_drop di)"] by (simp add: eq)
next
  assume a: "auto_limit_curr hw = snd (real_max_usb_in_curr (vbus_drop di)) \<and>
     1920 < uint (retry_current_time (vbus_drop di)) \<and>
     uint (retry_current_time (vbus_drop di)) \<le> 3840"
  then have eq: "ab8500_charger_vbus_drop_end_work irq di hw =
           ((drop_cleared di)\<lparr>vbus_drop := (vbus_drop di)\<lparr>real_max_usb_in_curr :=
                (auto_limit_curr hw, auto_limit_curr hw)\<rparr>\<rparr>, sampled hw)"
    by (intro drop_end_work_freezes [OF rd]) simp_all
  show "real_max_usb_in_curr (vbus_drop (fst (ab8500_charger_vbus_drop_end_work irq di hw))) =
         (auto_limit_curr hw, auto_limit_curr hw)" by (simp add: eq)
  show "retry_current_time (vbus_drop (fst (ab8500_charger_vbus_drop_end_work irq di hw))) =
         retry_current_time (vbus_drop di)" by (simp add: eq)
  show "hw_writes (snd (ab8500_charger_vbus_drop_end_work irq di hw)) =
         hw_writes hw @ [Xfer_set AB8500_CHARGER AB8500_CHARGER_CTRL 0x01]"
    by (simp add: eq hw_writes_sampled)
next
  fix n :: nat
  assume a: "auto_limit_curr hw = snd (real_max_usb_in_curr (vbus_drop di)) \<and>
     uint (retry_current_time (vbus_drop di)) = 30" and n: "n \<le> 7"
  from a have c: "auto_limit_curr hw = snd (real_max_usb_in_curr (vbus_drop di))"
    and t: "uint (retry_current_time (vbus_drop di)) = 30" by simp_all
  from drop_end_events_run [OF rd c t, of irqs n] n
  show "uint (retry_current_time (vbus_drop (fst (drop_end_events irqs n (di, hw))))) = 30 * 2 ^ n"
    and "real_max_usb_in_curr (vbus_drop (fst (drop_end_events irqs n (di, hw)))) =
            real_max_usb_in_curr (vbus_drop di)" by simp_all
next
  fix n :: nat
  assume a: "auto_limit_curr hw = snd (real_max_usb_in_curr (vbus_drop di)) \<and>
     uint (retry_current_time (vbus_drop di)) = 30" and n: "7 \<le> n"
  from a have c: "auto_limit_curr hw = snd (real_max_usb_in_curr (vbus_drop di))"
    and t: "uint (retry_current_time (vbus_drop di)) = 30" by simp_all
  from n have "8 \<le> Suc n" by simp
  with drop_end_events_run [OF rd c t, of irqs "Suc n"]
  show "uint (retry_current_time (vbus_drop (fst (drop_end_events irqs (Suc n) (di, hw))))) = 3840"
    and "real_max_usb_in_curr (vbus_drop (fst (drop_end_events irqs (Suc n) (di, hw)))) =
            (auto_limit_curr hw, auto_limit_curr hw)" by blast+
  from drop_end_event_frozen [OF rd c t n, of irqs]
  show "hw_writes (snd (drop_end_events irqs (Suc n) (di, hw))) =
            hw_writes (snd (drop_end_events irqs n (di, hw))) @
              [Xfer_set AB8500_CHARGER AB8500_CHARGER_CTRL 0x01]" by simp
qed

theorem vbus_drop_end_backoff_witness:
  "0 \<le> get_ret (example_hw drop_regs) AB8500_CHARGER AB8500_CH_USBCH_STAT2_REG \<and>
   auto_limit_curr (example_hw drop_regs) = 450 \<and>
   snd (real_max_usb_in_curr (vbus_drop (drop_di 500 960))) = 500 \<and>
   retry_current_time (vbus_drop (fst (ab8500_charger_vbus_drop_end_work no_irq
      (drop_di 500 960) (example_hw drop_regs)))) = 30 \<and>
   snd (real_max_usb_in_curr (vbus_drop (drop_di 450 960))) = 450 \<and>
   uint (retry_current_time (vbus_drop (drop_di 450 960))) = 960 \<and>
   uint (retry_current_time (vbus_drop (fst (ab8500_charger_vbus_drop_end_work no_irq
      (drop_di 450 960) (example_hw drop_regs))))) = 1920 \<and>
   uint (retry_current_time (vbus_drop (drop_di 450 3840))) = 3840 \<and>
   real_max_usb_in_curr (vbus_drop (fst (ab8500_charger_vbus_drop_end_work no_irq
      (drop_di 450 3840) (example_hw drop_regs)))) = (450, 450) \<and>
   hw_writes (snd (ab8500_charger_vbus_drop_end_work no_irq
      (drop_di 450 3840) (example_hw drop_regs))) =
     [Xfer_set AB8500_CHARGER AB8500_CHARGER_CTRL 0x01] \<and>
   uint (retry_current_time (vbus_drop (drop_di 450 30))) = 30 \<and>
   uint (retry_current_time (vbus_drop (fst (drop_end_events no_irqs 3
      (drop_di 450 30, example_hw drop_regs))))) = 240 \<and>
   real_max_usb_in_curr (vbus_drop (fst (drop_end_events no_irqs (Suc 8)
      (drop_di 450 30, example_hw drop_regs)))) = (450, 450)"
proof -
  let ?hw = "example_hw drop_regs"
  have rd: "0 \<le> get_ret ?hw AB8500_CHARGER AB8500_CH_USBCH_STAT2_REG"
    by (simp add: example_hw_def)
  have c: "auto_limit_curr ?hw = 450"
    by (simp add: auto_limit_curr_def example_hw_def drop_regs_def
          AUTO_VBUS_IN_CURR_LIM_SHIFT_def ab8500_charger_vbus_in_curr_map_def)
  have d [simp]: "\<And>x y. vbus_drop (drop_di x y) =
      \<lparr>real_max_usb_in_curr = (500, x), retry_current_time = y\<rparr>"
    by (simp add: drop_di_def)
  have w0: "hw_writes ?hw = []" by (simp add: hw_writes_def example_hw_def)
  note T = vbus_drop_end_backoff [OF rd]
  have a1: "retry_current_time (vbus_drop (fst (ab8500_charger_vbus_drop_end_work no_irq
      (drop_di 500 960) ?hw))) = 30"
    using T [of "drop_di 500 960" no_irq no_irqs] c by simp
  have a2: "uint (retry_current_time (vbus_drop (fst (ab8500_charger_vbus_drop_end_work no_irq
      (drop_di 450 960) ?hw)))) = 1920"
    using T [of "drop_di 450 960" no_irq no_irqs] c by simp
  have a3: "real_max_usb_in_curr (vbus_drop (fst (ab8500_charger_vbus_drop_end_work no_irq
      (drop_di 450 3840) ?hw))) = (450, 450) \<and>
     hw_writes (snd (ab8500_charger_vbus_drop_end_work no_irq (drop_di 450 3840) ?hw)) =
       [Xfer_set AB8500_CHARGER AB8500_CHARGER_CTRL 0x01]"
    using T [of "drop_di 450 3840" no_irq no_irqs] c w0 by simp
  have a4: "uint (retry_current_time (vbus_drop (fst (drop_end_events no_irqs 3
      (drop_di 450 30, ?hw))))) = 240 \<and>
     real_max_usb_in_curr (vbus_drop (fst (drop_end_events no_irqs (Suc 8)
      (drop_di 450 30, ?hw)))) = (450, 450)"
  proof -
    from T [of "drop_di 450 30" no_irq no_irqs] c
    have run: "(\<forall>n\<le>7.
          uint (retry_current_time (vbus_drop (fst (drop_end_events no_irqs n (drop_di 450 30, ?hw))))) = 30 * 2 ^ n \<and>
          real_max_usb_in_curr (vbus_drop (fst (drop_end_events no_irqs n (drop_di 450 30, ?hw)))) =
            real_max_usb_in_curr (vbus_drop (drop_di 450 30))) \<and>
       (\<forall>n\<ge>7.
          uint (retry_current_time (vbus_drop (fst (drop_end_events no_irqs (Suc n) (drop_di 450 30, ?hw))))) = 3840 \<and>
          real_max_usb_in_curr (vbus_drop (fst (drop_end_events no_irqs (Suc n) (drop_di 450 30, ?hw)))) =
            (auto_limit_curr ?hw, auto_limit_curr ?hw) \<and>
          hw_writes (snd (drop_end_events no_irqs (Suc n) (drop_di 450 30, ?hw))) =
            hw_writes (snd (drop_end_events no_irqs n (drop_di 450 30, ?hw))) @
              [Xfer_set AB8500_CHARGER AB8500_CHARGER_CTRL 0x01])"
      by simp
    from run [THEN conjunct1, rule_format, of 3] run [THEN conjunct2, rule_format, of 8] c
    show ?thesis by simp
  qed
  show ?thesis using rd c a1 a2 a3 a4 by simp
qed

lemma hw_writes_auto_limit_reports: "hw_writes (auto_limit_reports hw v) = hw_writes hw"
  by (simp add: hw_writes_def auto_limit_reports_def)

lemma frozen_state_eq:
  "frozen_state =
     ((drop_di 450 3840)\<lparr>vbus_drop := \<lparr>real_max_usb_in_curr = (450, 450),
                                        retry_current_time = 3840\<rparr>\<rparr>,
      sampled (example_hw drop_regs))"
proof -
  let ?hw = "example_hw drop_regs"
  let ?d = "ab8500_charger_vbuschdropend_handler (drop_di 450 3840)"
  have rd: "0 \<le> get_ret ?hw AB8500_CHARGER AB8500_CH_USBCH_STAT2_REG"
    by (simp add: example_hw_def)
  have c: "auto_limit_curr ?hw = 450"
    by (simp add: auto_limit_curr_def example_hw_def drop_regs_def
          AUTO_VBUS_IN_CURR_LIM_SHIFT_def ab8500_charger_vbus_in_curr_map_def)
  have v: "vbus_drop (drop_di 450 3840) =
             \<lparr>real_max_usb_in_curr = (500, 450), retry_current_time = 3840\<rparr>"
    by (simp add: drop_di_def)
  have "ab8500_charger_vbus_drop_end_work no_irq ?d ?hw =
          ((drop_cleared ?d)\<lparr>vbus_drop := (vbus_drop ?d)\<lparr>real_max_usb_in_curr :=
                (auto_limit_curr ?hw, auto_limit_curr ?hw)\<rparr>\<rparr>, sampled ?hw)"
    by (rule drop_end_work_freezes [OF rd]) (simp_all add: c v)
  moreover have "drop_cleared ?d = drop_di 450 3840"
    by (simp add: drop_cleared_def ab8500_charger_vbuschdropend_handler_def drop_di_def
          example_di_def)
  ultimately show ?thesis
    by (simp add: frozen_state_def drop_end_event_def c v)
qed

text \<open>
  C3 as stated fails: the freeze is not permanent for the connection session. Take the
  state a drop-end observation at the 3840 s cap leaves (raw ceiling frozen at 450 mA, USB
  still connected). If the next observation samples another ceiling (code 3, 290 mA), the
  backoff goes back to 30 s and the work steps the input-current register again (codes 4
  and 5): a retry current is applied. And a re-classification of the link as a dedicated
  charger, still in the same session, overwrites the raw ceiling with 1500 mA.
\<close>

theorem vbus_drop_end_backoff_counterexample:
  "real_max_usb_in_curr (vbus_drop (fst frozen_state)) = (450, 450) \<and>
   retry_current_time (vbus_drop (fst frozen_state)) = 3840 \<and>
   charger_connected (usb (fst frozen_state)) = 1 \<and>
   hw_writes (snd frozen_state) = [Xfer_set AB8500_CHARGER AB8500_CHARGER_CTRL 0x01] \<and>
   retry_current_time (vbus_drop (fst (drop_end_event no_irq
      (fst frozen_state, auto_limit_reports (snd frozen_state) 0x30)))) = 30 \<and>
   hw_writes (snd (drop_end_event no_irq
      (fst frozen_state, auto_limit_reports (snd frozen_state) 0x30))) =
     [Xfer_set AB8500_CHARGER AB8500_CHARGER_CTRL 0x01,
      Xfer_set AB8500_CHARGER AB8500_CHARGER_CTRL 0x01,
      Xfer_set AB8500_CHARGER AB8500_USBCH_IPT_CRNTLVL_REG 0x40,
      Xfer_set AB8500_CHARGER AB8500_USBCH_IPT_CRNTLVL_REG 0x50] \<and>
   charger_connected (usb (fst (snd (ab8500_charger_max_usb_curr (fst frozen_state)
      (snd frozen_state) 0 USB_STAT_DEDICATED_CHG)))) = 1 \<and>
   fst (real_max_usb_in_curr (vbus_drop (fst (snd (ab8500_charger_max_usb_curr
      (fst frozen_state) (snd frozen_state) 0 USB_STAT_DEDICATED_CHG))))) = 1500"
proof -
  let ?reg = AB8500_USBCH_IPT_CRNTLVL_REG
  let ?fd = "(drop_di 450 3840)\<lparr>vbus_drop := \<lparr>real_max_usb_in_curr = (450, 450),
                                        retry_current_time = 3840\<rparr>\<rparr>"
  let ?hw = "auto_limit_reports (sampled (example_hw drop_regs)) 0x30"
  let ?h = "ab8500_charger_vbuschdropend_handler ?fd"
  define d2 where
    "d2 = ?fd\<lparr>vbus_drop := \<lparr>real_max_usb_in_curr = (450, 290), retry_current_time = 30\<rparr>\<rparr>"
  define hw2 where "hw2 = sampled ?hw"
  have w1: "hw_writes (sampled (example_hw drop_regs)) =
              [Xfer_set AB8500_CHARGER AB8500_CHARGER_CTRL 0x01]"
    by (simp add: hw_writes_sampled) (simp add: hw_writes_def example_hw_def)
  have rd: "0 \<le> get_ret ?hw AB8500_CHARGER AB8500_CH_USBCH_STAT2_REG"
    by (simp add: auto_limit_reports_def sampled_def example_hw_def
          abx500_get_register_interruptible_def abx500_set_register_interruptible_def)
  have c: "auto_limit_curr ?hw = 290"
    by (simp add: auto_limit_curr_def auto_limit_reports_def
          AUTO_VBUS_IN_CURR_LIM_SHIFT_def ab8500_charger_vbus_in_curr_map_def)
  have dc: "drop_cleared ?h = ?fd"
    by (simp add: drop_cleared_def ab8500_charger_vbuschdropend_handler_def drop_di_def
          example_di_def)
  have work: "ab8500_charger_vbus_drop_end_work no_irq ?h ?hw = drop_end_retry no_irq d2 hw2"
    using c by (simp add: drop_end_work_sampled [OF rd] Let_def dc d2_def hw2_def
          VBUS_IN_CURR_LIM_RETRY_SET_TIME_def)
  have regs2: "regs hw2 AB8500_CHARGER ?reg = 0x60"
              "regs hw2 AB8500_CHARGER AB8500_CH_USBCH_STAT2_REG = 0x30"
              "get_ret hw2 = (\<lambda>bank reg. 0)" "set_ret hw2 = (\<lambda>bank reg. 0)"
    by (simp_all add: hw2_def auto_limit_reports_def sampled_def example_hw_def drop_regs_def
          abx500_get_register_interruptible_def abx500_set_register_interruptible_def)
  have h1: "supported_reg ?reg" by (simp add: supported_reg_def)
  have h2: "reads_ok hw2 ?reg" by (simp add: reads_ok_def regs2)
  have h3: "set_ret hw2 AB8500_CHARGER ?reg = 0" by (simp add: regs2)
  have h4: "charger_present d2 ?reg"
    by (simp add: charger_present_def d2_def drop_di_def example_di_def)
  have B: "curr_index ?reg 450 = 5"
    using encodes_nth [OF ascending_vbus_in_curr_map encodes_vbus_in_curr, of 5]
    by (simp add: curr_index_def ab8500_charger_vbus_in_curr_map_def)
  have A: "prev_curr_index hw2 ?reg = 3"
    by (simp add: prev_curr_index_def regs2 VBUS_IN_CURR_LIM_SHIFT_def
          AUTO_VBUS_IN_CURR_LIM_SHIFT_def)
  have go: "\<forall>j. 3 < j \<and> j < 5 \<longrightarrow>
              ab8500_charger_check_continue_stepping (saw_drop no_irq (3 + 1) j d2) ?reg"
    by (simp add: check_saw_drop drop_seen_def no_irq_def list_ex_iff d2_def drop_di_def
          example_di_def)
  have sc: "ab8500_charger_set_current no_irq d2 hw2 450 ?reg =
           exit_set_current 0 (saw_drop no_irq (3 + 1) 5 (session_begin d2))
             (wrote (read_done hw2 ?reg) ?reg (shift_of ?reg) [3 + 1..5])"
    using set_current_up [OF h1 h2 h3 _ h4, of 450 5 no_irq] go by (simp add: A B)
  have sv: "ab8500_charger_set_vbus_in_curr no_irq d2 hw2 (max_usb_in_curr d2) =
              ab8500_charger_set_current no_irq d2 hw2 450 ?reg"
    by (simp add: ab8500_charger_set_vbus_in_curr_def Let_def d2_def drop_di_def example_di_def)
  have l: "[3 + 1..5] = [4, 5::int]" by (simp add: upto_rec1)
  have sh: "shift_of ?reg = 4" by (simp add: shift_of_def VBUS_IN_CURR_LIM_SHIFT_def)
  have w2: "hw_writes hw2 =
              [Xfer_set AB8500_CHARGER AB8500_CHARGER_CTRL 0x01,
               Xfer_set AB8500_CHARGER AB8500_CHARGER_CTRL 0x01]"
    using w1 by (simp add: hw2_def hw_writes_sampled hw_writes_auto_limit_reports)
  have conn: "charger_connected (usb d2) \<noteq> 0" by (simp add: d2_def drop_di_def example_di_def)
  have "drop_end_retry no_irq d2 hw2 = snd (ab8500_charger_set_current no_irq d2 hw2 450 ?reg)"
    using conn by (simp add: drop_end_retry_def sv)
  then have wr: "hw_writes (snd (drop_end_retry no_irq d2 hw2)) =
     [Xfer_set AB8500_CHARGER AB8500_CHARGER_CTRL 0x01,
      Xfer_set AB8500_CHARGER AB8500_CHARGER_CTRL 0x01,
      Xfer_set AB8500_CHARGER ?reg 0x40,
      Xfer_set AB8500_CHARGER ?reg 0x50]"
    by (simp add: sc exit_set_current_def hw_writes_wrote l sh w2 reg_code_def)
  have t: "retry_current_time (vbus_drop (fst (drop_end_retry no_irq d2 hw2))) = 30"
    by (simp add: d2_def)
  have cl: "charger_connected (usb (fst (snd (ab8500_charger_max_usb_curr ?fd
              (sampled (example_hw drop_regs)) 0 USB_STAT_DEDICATED_CHG)))) = 1 \<and>
        fst (real_max_usb_in_curr (vbus_drop (fst (snd (ab8500_charger_max_usb_curr ?fd
              (sampled (example_hw drop_regs)) 0 USB_STAT_DEDICATED_CHG))))) = 1500"
    by (simp add: ab8500_charger_max_usb_curr_def set_usb_type_def USB_CH_IP_CUR_LVL_1P5_def
          drop_di_def example_di_def)
  have f: "charger_connected (usb ?fd) = 1" by (simp add: drop_di_def example_di_def)
  show ?thesis
    unfolding frozen_state_eq fst_conv snd_conv drop_end_event_def work
    using w1 wr t cl f by simp
qed

section \<open>Properties of connection teardown, classification and the exposed properties\<close>

text \<open>
  C4, as amended. When the USB connection tears down (the connected state goes from true
  to false), the drop bookkeeping is reset: both elements of
  \<^verbatim>\<open>real_max_usb_in_curr\<close> are 0 and \<^verbatim>\<open>retry_current_time\<close> is the 30 s seed, and it
  still is after a following reconnection. The USB link bookkeeping (\<^verbatim>\<open>usb_current\<close>,
  \<^verbatim>\<open>usb_current_tmp\<close>, \<^verbatim>\<open>state\<close>, \<^verbatim>\<open>state_tmp\<close>) is left as it was.
\<close>

theorem set_usb_connected_teardown:
  assumes "charger_connected (usb di) \<noteq> 0"
  shows "vbus_drop (ab8500_charger_set_usb_connected di False) =
           \<lparr>real_max_usb_in_curr = (0, 0), retry_current_time = 30\<rparr> \<and>
         charger_connected (usb (ab8500_charger_set_usb_connected di False)) = 0 \<and>
         usb_state (ab8500_charger_set_usb_connected di False) = usb_state di \<and>
         \<not> vbus_drop_end (flags (ab8500_charger_set_usb_connected di False)) \<and>
         retry_current_time (vbus_drop
           (ab8500_charger_set_usb_connected (ab8500_charger_set_usb_connected di False) True)) = 30"
  using assms
  by (simp add: ab8500_charger_set_usb_connected_def bool_to_int_def Let_def
        VBUS_IN_CURR_LIM_RETRY_SET_TIME_def)

theorem set_usb_connected_teardown_witness:
  "charger_connected (usb example_di) \<noteq> 0 \<and>
   vbus_drop (ab8500_charger_set_usb_connected example_di False) =
     \<lparr>real_max_usb_in_curr = (0, 0), retry_current_time = 30\<rparr> \<and>
   usb_state (ab8500_charger_set_usb_connected example_di False) = usb_state example_di \<and>
   usb_current (usb_state example_di) = 500"
proof -
  have c: "charger_connected (usb example_di) \<noteq> 0" by (simp add: example_di_def)
  have u: "usb_current (usb_state example_di) = 500" by (simp add: example_di_def)
  from set_usb_connected_teardown [OF c] c u show ?thesis by simp
qed

text \<open>
  C4 as stated fails: after a teardown from a configured 500 mA link the USB link
  bookkeeping still holds 500 mA and the configured state, not the values the probe
  function gives it.
\<close>

theorem set_usb_connected_teardown_counterexample:
  "charger_connected (usb example_di) = 1 \<and>
   charger_connected (usb (ab8500_charger_set_usb_connected example_di False)) = 0 \<and>
   usb_current (usb_state (ab8500_charger_set_usb_connected example_di False)) = 500 \<and>
   state (usb_state (ab8500_charger_set_usb_connected example_di False)) =
     AB8500_BM_USB_STATE_CONFIGURED \<and>
   usb_state (ab8500_charger_set_usb_connected example_di False) \<noteq> probe_usb_state"
  by (simp add: ab8500_charger_set_usb_connected_def bool_to_int_def Let_def example_di_def
        probe_usb_state_def)

lemma usb_stat_reserved_polled:
  assumes "0 \<le> get_ret hw AB8500_CHARGER (AB8500_REG 0x02)"
  shows "fst (usb_stat_reserved di hw val0) =
           (if regs hw AB8500_CHARGER (AB8500_REG 0x02) AND 0x04 \<noteq> 0 then 0 else - EBUSY)"
    and "fst (snd (usb_stat_reserved di hw val0)) =
           di\<lparr>flags := (flags di)\<lparr>vbus_collapse :=
                 (regs hw AB8500_CHARGER (AB8500_REG 0x02) AND 0x04 = 0)\<rparr>\<rparr>"
    and "regs (snd (snd (usb_stat_reserved di hw val0))) AB8500_CHARGER (AB8500_REG 0x02) =
           regs hw AB8500_CHARGER (AB8500_REG 0x02)"
  using assms
  by (simp_all add: usb_stat_reserved_def abx500_get_register_interruptible_def
        abx500_set_register_interruptible_def abx500_mask_and_set_register_interruptible_def)

lemma usb_stat_reserved_xfers:
  "xfers (snd (snd (usb_stat_reserved di hw val0))) =
     xfers hw @
       [Xfer_get (AB8500_BANK 0x02) AB8500_MAIN_WDOG_CTRL_REG,
        Xfer_mask_set AB8500_CHARGER AB8500_USBCH_CTRL1_REG 0x03 0x02,
        Xfer_set AB8500_CHARGER AB8500_CHARGER_CTRL 0x01,
        Xfer_mask_set AB8500_CHARGER AB8500_USBCH_CTRL1_REG 0x03 0x03,
        Xfer_get AB8500_CHARGER (AB8500_REG 0x02)]"
  by (simp add: usb_stat_reserved_def abx500_get_register_interruptible_def
        abx500_set_register_interruptible_def abx500_mask_and_set_register_interruptible_def)

lemma usb_stat_reserved_flags:
  "flags (fst (snd (usb_stat_reserved di hw val0))) =
     (flags di)\<lparr>vbus_collapse := vbus_collapse (flags (fst (snd (usb_stat_reserved di hw val0))))\<rparr>"
  by (simp add: usb_stat_reserved_def abx500_get_register_interruptible_def
        abx500_set_register_interruptible_def abx500_mask_and_set_register_interruptible_def)

lemma max_usb_curr_reserved:
  "ab8500_charger_max_usb_curr di hw val0 USB_STAT_RESERVED =
     (fst (usb_stat_reserved di hw val0),
      (fst (snd (usb_stat_reserved di hw val0)))
        \<lparr>vbus_drop := (vbus_drop (fst (snd (usb_stat_reserved di hw val0))))
           \<lparr>real_max_usb_in_curr :=
              (max_usb_in_curr (fst (snd (usb_stat_reserved di hw val0))),
               snd (real_max_usb_in_curr (vbus_drop (fst (snd (usb_stat_reserved di hw val0))))))\<rparr>\<rparr>,
      snd (snd (usb_stat_reserved di hw val0)))"
  by (simp add: ab8500_charger_max_usb_curr_def case_prod_beta)

text \<open>
  C7. For the \<^verbatim>\<open>RESERVED\<close> link status the classification issues the recovery sequence
  on the bus (read the watchdog register, force-disable the charge path, reset the drop
  counter, force-enable the charge path, poll the charger status). With the status
  polled: if its charger-on bit \<open>0x04\<close> is set, \<^verbatim>\<open>flags.vbus_collapse\<close> is cleared and
  the result is 0; if the bit is clear, the flag is set and the result is \<open>-EBUSY\<close>.
\<close>

theorem max_usb_curr_reserved_recovery:
  assumes "0 \<le> get_ret hw AB8500_CHARGER (AB8500_REG 0x02)"
  shows
   "xfers (snd (snd (ab8500_charger_max_usb_curr di hw val0 USB_STAT_RESERVED))) =
      xfers hw @
        [Xfer_get (AB8500_BANK 0x02) AB8500_MAIN_WDOG_CTRL_REG,
         Xfer_mask_set AB8500_CHARGER AB8500_USBCH_CTRL1_REG 0x03 0x02,
         Xfer_set AB8500_CHARGER AB8500_CHARGER_CTRL 0x01,
         Xfer_mask_set AB8500_CHARGER AB8500_USBCH_CTRL1_REG 0x03 0x03,
         Xfer_get AB8500_CHARGER (AB8500_REG 0x02)] \<and>
    (regs (snd (snd (ab8500_charger_max_usb_curr di hw val0 USB_STAT_RESERVED)))
        AB8500_CHARGER (AB8500_REG 0x02) AND 0x04 \<noteq> 0 \<longrightarrow>
       fst (ab8500_charger_max_usb_curr di hw val0 USB_STAT_RESERVED) = 0 \<and>
       \<not> vbus_collapse (flags (fst (snd (ab8500_charger_max_usb_curr di hw val0 USB_STAT_RESERVED))))) \<and>
    (regs (snd (snd (ab8500_charger_max_usb_curr di hw val0 USB_STAT_RESERVED)))
        AB8500_CHARGER (AB8500_REG 0x02) AND 0x04 = 0 \<longrightarrow>
       fst (ab8500_charger_max_usb_curr di hw val0 USB_STAT_RESERVED) = - EBUSY \<and>
       vbus_collapse (flags (fst (snd (ab8500_charger_max_usb_curr di hw val0 USB_STAT_RESERVED)))))"
proof -
  note p = usb_stat_reserved_polled [OF assms, of di val0]
  show ?thesis
    by (simp add: max_usb_curr_reserved usb_stat_reserved_xfers p)
qed

theorem max_usb_curr_reserved_recovery_witness:
  "0 \<le> get_ret (example_hw witness_regs) AB8500_CHARGER (AB8500_REG 0x02) \<and>
   regs (snd (snd (ab8500_charger_max_usb_curr example_di (example_hw witness_regs) 0
      USB_STAT_RESERVED))) AB8500_CHARGER (AB8500_REG 0x02) AND 0x04 = 0 \<and>
   fst (ab8500_charger_max_usb_curr example_di (example_hw witness_regs) 0 USB_STAT_RESERVED)
     = - EBUSY \<and>
   vbus_collapse (flags (fst (snd (ab8500_charger_max_usb_curr example_di
      (example_hw witness_regs) 0 USB_STAT_RESERVED))))"
proof -
  let ?hw = "example_hw witness_regs"
  have rd: "0 \<le> get_ret ?hw AB8500_CHARGER (AB8500_REG 0x02)" by (simp add: example_hw_def)
  have "regs ?hw AB8500_CHARGER (AB8500_REG 0x02) = 0"
    by (simp add: example_hw_def witness_regs_def)
  then have "regs (snd (snd (usb_stat_reserved example_di ?hw 0))) AB8500_CHARGER (AB8500_REG 0x02) = 0"
    by (simp only: usb_stat_reserved_polled(3) [OF rd])
  then have v: "regs (snd (snd (ab8500_charger_max_usb_curr example_di ?hw 0 USB_STAT_RESERVED)))
      AB8500_CHARGER (AB8500_REG 0x02) AND 0x04 = 0"
    by (simp add: max_usb_curr_reserved)
  from max_usb_curr_reserved_recovery [OF rd, of example_di 0] v rd
  show ?thesis by simp
qed

lemma step_up_flag:
  "vbus_drop_end (flags (fst (snd (step_up irq reg sh c i allow ret di hw)))) \<Longrightarrow>
   vbus_drop_end (flags di) \<or> (\<exists>j. irq j)"
proof (induction irq reg sh c i allow ret di hw rule: step_up.induct)
  case (1 irq reg sh c i allow ret di hw)
  let ?r = "abx500_set_register_interruptible hw AB8500_CHARGER reg (reg_code sh i)"
  let ?di = "if irq i then ab8500_charger_vbuschdropend_handler di else di"
  show ?case
  proof (cases "i \<le> c \<and> allow")
    case False
    with "1.prems" show ?thesis by (simp add: step_up_stop)
  next
    case True
    show ?thesis
    proof (cases "fst ?r \<noteq> 0")
      case True
      with \<open>i \<le> c \<and> allow\<close>
      have "step_up irq reg sh c i allow ret di hw = (fst ?r, di, snd ?r)"
        by (subst step_up.simps) (simp add: Let_def)
      with "1.prems" show ?thesis by simp
    next
      case False
      have eq: "step_up irq reg sh c i allow ret di hw =
                step_up irq reg sh c (i + 1)
                   (ab8500_charger_check_continue_stepping ?di reg) (fst ?r) ?di (snd ?r)"
        using True False by (subst step_up.simps) (simp add: Let_def)
      from "1.IH" [OF \<open>i \<le> c \<and> allow\<close> refl False refl] "1.prems"
      have "vbus_drop_end (flags ?di) \<or> (\<exists>j. irq j)" unfolding eq by simp
      then show ?thesis
        by (auto simp: ab8500_charger_vbuschdropend_handler_def split: if_splits)
    qed
  qed
qed

lemma set_current_steps_flag:
  "vbus_drop_end (flags (fst (snd (set_current_steps irq di hw reg ret sh A B ns)))) \<Longrightarrow>
   vbus_drop_end (flags di) \<or> (\<exists>j. irq j)"
  by (auto simp: set_current_steps_def exit_set_current_def Let_def case_prod_beta
           dest: step_up_flag split: if_splits)

lemma set_current_flag:
  assumes "vbus_drop_end (flags (fst (snd (ab8500_charger_set_current irq di hw ich reg))))"
  shows "vbus_drop_end (flags di) \<or> (\<exists>j. irq j)"
proof (rule ccontr)
  assume n: "\<not> (vbus_drop_end (flags di) \<or> (\<exists>j. irq j))"
  let ?di = "di\<lparr>current_stepping_sessions := current_stepping_sessions di + 1\<rparr>"
  have s: "\<And>hw reg ret sh A B ns.
     \<not> vbus_drop_end (flags (fst (snd (set_current_steps irq ?di hw reg ret sh A B ns))))"
    using set_current_steps_flag [of irq ?di] n by auto
  have e: "\<And>r h. \<not> vbus_drop_end (flags (fst (snd (exit_set_current r ?di h))))"
    using n by (simp add: exit_set_current_def)
  have "\<not> vbus_drop_end (flags (fst (snd (ab8500_charger_set_current irq di hw ich reg))))"
    unfolding ab8500_charger_set_current_def Let_def case_prod_beta
    by (cases reg) (simp_all add: s e)
  with assms show False by simp
qed

lemma drop_end_work_flags:
  "\<exists>b. flags (fst (ab8500_charger_vbus_drop_end_work irq di hw)) =
          (flags di)\<lparr>vbus_drop_end := b\<rparr> \<and> (b \<longrightarrow> (\<exists>j. irq j))"
proof -
  have r: "\<And>(d::ab8500_charger) h. \<not> vbus_drop_end (flags d) \<Longrightarrow>
             \<exists>b. flags (fst (drop_end_retry irq d h)) = (flags d)\<lparr>vbus_drop_end := b\<rparr> \<and>
                 (b \<longrightarrow> (\<exists>j. irq j))"
  proof -
    fix d :: ab8500_charger and h assume n: "\<not> vbus_drop_end (flags d)"
    from drop_end_retry_keeps [of d irq h] obtain b where
      b: "fst (drop_end_retry irq d h) = d\<lparr>flags := (flags d)\<lparr>vbus_drop_end := b\<rparr>\<rparr>"
      unfolding keeps_di_def by blast
    have "b \<longrightarrow> (\<exists>j. irq j)"
    proof
      assume b
      with b have "vbus_drop_end (flags (fst (drop_end_retry irq d h)))" by simp
      then show "\<exists>j. irq j" using n set_current_flag [of irq d h _ AB8500_USBCH_IPT_CRNTLVL_REG]
        by (auto simp: drop_end_retry_def ab8500_charger_set_vbus_in_curr_def Let_def
                 split: if_splits)
    qed
    with b show "\<exists>b. flags (fst (drop_end_retry irq d h)) = (flags d)\<lparr>vbus_drop_end := b\<rparr> \<and>
                 (b \<longrightarrow> (\<exists>j. irq j))" by auto
  qed
  let ?d = "drop_cleared di"
  have c: "\<And>(d'::ab8500_charger) b. flags d' = flags ?d \<Longrightarrow> (flags d')\<lparr>vbus_drop_end := b\<rparr> = (flags di)\<lparr>vbus_drop_end := b\<rparr>"
    by (simp add: drop_cleared_def)
  have n: "\<And>d'::ab8500_charger. flags d' = flags ?d \<Longrightarrow> \<not> vbus_drop_end (flags d')"
    by (simp add: drop_cleared_def)
  have w: "\<And>(d'::ab8500_charger) h. flags d' = flags ?d \<Longrightarrow>
             \<exists>b. flags (fst (drop_end_retry irq d' h)) = (flags di)\<lparr>vbus_drop_end := b\<rparr> \<and>
                 (b \<longrightarrow> (\<exists>j. irq j))"
    using r n c by metis
  have f: "\<exists>b. flags ?d = (flags di)\<lparr>vbus_drop_end := b\<rparr> \<and> (b \<longrightarrow> (\<exists>j. irq j))"
    by (rule exI [of _ False]) (simp add: drop_cleared_def)
  show ?thesis
    unfolding ab8500_charger_vbus_drop_end_work_def Let_def case_prod_beta
      drop_cleared_def [symmetric]
    using f by (auto intro!: w)
qed

lemma set_usb_connected_flags:
  "flags (ab8500_charger_set_usb_connected di connected) = flags di \<or>
   \<not> connected \<and> flags (ab8500_charger_set_usb_connected di connected) =
      (flags di)\<lparr>vbus_drop_end := False, report_charger_no_charge := False\<rparr>"
  by (simp add: ab8500_charger_set_usb_connected_def Let_def)

lemma max_usb_curr_flags_other:
  "link_status \<noteq> USB_STAT_RESERVED \<Longrightarrow>
   flags (fst (snd (ab8500_charger_max_usb_curr di hw val0 link_status))) = flags di"
  by (cases link_status)
     (simp_all add: ab8500_charger_max_usb_curr_def set_usb_type_def usb_stat_not_configured_def)

lemma max_usb_curr_flags:
  "\<exists>b. flags (fst (snd (ab8500_charger_max_usb_curr di hw val0 link_status))) =
         (flags di)\<lparr>vbus_collapse := b\<rparr>"
proof (cases "link_status = USB_STAT_RESERVED")
  case True
  then show ?thesis
    using usb_stat_reserved_flags [of di hw val0] by (auto simp: max_usb_curr_reserved)
next
  case False
  have "flags di = (flags di)\<lparr>vbus_collapse := vbus_collapse (flags di)\<rparr>" by simp
  with max_usb_curr_flags_other [OF False] show ?thesis by metis
qed

lemma max_usb_curr_ENXIO_flags:
  "fst (ab8500_charger_max_usb_curr di hw val0 link_status) = - ENXIO \<Longrightarrow>
   flags (fst (snd (ab8500_charger_max_usb_curr di hw val0 link_status))) = flags di"
proof (cases "link_status = USB_STAT_RESERVED")
  case False
  then show ?thesis by (rule max_usb_curr_flags_other)
next
  case True
  assume "fst (ab8500_charger_max_usb_curr di hw val0 link_status) = - ENXIO"
  with True have False
    by (simp add: max_usb_curr_reserved usb_stat_reserved_def case_prod_beta ENXIO_def EBUSY_def
          split: if_splits)
  then show ?thesis ..
qed

lemma read_usb_type_flags:
  "flags (fst (snd (ab8500_charger_read_usb_type di hw val0))) = flags di \<or>
   link_status_of (usb_link_status (regs hw AB8500_USB AB8500_USB_LINE_STAT_REG)) =
     USB_STAT_RESERVED \<and>
   fst (ab8500_charger_read_usb_type di hw val0) \<noteq> - ENXIO \<and>
   (\<exists>b. flags (fst (snd (ab8500_charger_read_usb_type di hw val0))) =
          (flags di)\<lparr>vbus_collapse := b\<rparr>)"
proof -
  let ?g = "abx500_get_register_interruptible hw AB8500_INTERRUPT AB8500_IT_SOURCE21_REG 0"
  let ?g2 = "abx500_get_register_interruptible (snd (snd ?g)) AB8500_USB AB8500_USB_LINE_STAT_REG
               (fst (snd ?g))"
  let ?ls = "link_status_of (usb_link_status (fst (snd ?g2)))"
  let ?m = "ab8500_charger_max_usb_curr di (snd (snd ?g2)) val0 ?ls"
  consider "fst ?g < 0" | "\<not> fst ?g < 0" "fst ?g2 < 0" | "\<not> fst ?g < 0" "\<not> fst ?g2 < 0"
    by blast
  then show ?thesis
  proof cases
    case 1
    then show ?thesis by (simp add: ab8500_charger_read_usb_type_def case_prod_beta)
  next
    case 2
    then show ?thesis by (simp add: ab8500_charger_read_usb_type_def case_prod_beta)
  next
    case 3
    then have e: "ab8500_charger_read_usb_type di hw val0 = ?m"
      by (simp add: ab8500_charger_read_usb_type_def case_prod_beta)
    from 3 have v: "fst (snd ?g2) = regs hw AB8500_USB AB8500_USB_LINE_STAT_REG"
      by (simp add: abx500_get_register_interruptible_def)
    show ?thesis
    proof (cases "?ls = USB_STAT_RESERVED")
      case False
      then show ?thesis unfolding e by (simp add: max_usb_curr_flags_other)
    next
      case True
      have "fst ?m = - ENXIO \<longrightarrow> flags (fst (snd ?m)) = flags di"
        using max_usb_curr_ENXIO_flags by blast
      then show ?thesis
        unfolding e using True max_usb_curr_flags [of di "snd (snd ?g2)" val0 ?ls] v by auto
    qed
  qed
qed

lemma usb_link_status_detected_flags:
  assumes "flags d = flags di"
  shows "flags (fst (usb_link_status_detected d hw det val0)) = flags di \<or>
   det AND USB_PW_CONN = 0 \<and>
   flags (fst (usb_link_status_detected d hw det val0)) =
      (flags di)\<lparr>vbus_drop_end := False, report_charger_no_charge := False\<rparr> \<or>
   flags (fst (usb_link_status_detected d hw det val0)) =
      (flags di)\<lparr>report_charger_no_charge := True\<rparr> \<or>
   link_status_of (usb_link_status (regs hw AB8500_USB AB8500_USB_LINE_STAT_REG)) =
     USB_STAT_RESERVED \<and>
   (\<exists>b. flags (fst (usb_link_status_detected d hw det val0)) = (flags di)\<lparr>vbus_collapse := b\<rparr>)"
proof (cases "det AND USB_PW_CONN = 0")
  case True
  then show ?thesis
    using set_usb_connected_flags [of "d\<lparr>vbus_detected := False\<rparr>" False] assms
    by (auto simp: usb_link_status_detected_def)
next
  case False
  let ?r = "ab8500_charger_read_usb_type (d\<lparr>vbus_detected := True\<rparr>) hw val0"
  have c: "\<And>x::ab8500_charger. flags (ab8500_charger_set_usb_connected x True) = flags x"
    by (simp add: ab8500_charger_set_usb_connected_def Let_def)
  from read_usb_type_flags [of "d\<lparr>vbus_detected := True\<rparr>" hw val0] assms
  show ?thesis
    using False
    by (auto simp: usb_link_status_detected_def case_prod_beta c)
qed

lemma detect_chargers_regs [simp]:
  "regs (snd (ab8500_charger_detect_chargers hw probe)) = regs hw"
  by (simp add: ab8500_charger_detect_chargers_def abx500_get_register_interruptible_def)

lemma get_regs [simp]:
  "regs (snd (snd (abx500_get_register_interruptible hw bank reg v))) = regs hw"
  by (simp add: abx500_get_register_interruptible_def)

lemma mask_and_set_line_stat [simp]:
  "regs (snd (abx500_mask_and_set_register_interruptible hw AB8500_USB AB8500_USB_LINE_CTRL2_REG m v))
     AB8500_USB AB8500_USB_LINE_STAT_REG = regs hw AB8500_USB AB8500_USB_LINE_STAT_REG"
  by (simp add: abx500_mask_and_set_register_interruptible_def)

lemma usb_link_status_work_flags:
  "flags (fst (ab8500_charger_usb_link_status_work di hw val0)) = flags di \<or>
   fst (ab8500_charger_detect_chargers hw False) AND USB_PW_CONN = 0 \<and>
   flags (fst (ab8500_charger_usb_link_status_work di hw val0)) =
      (flags di)\<lparr>vbus_drop_end := False, report_charger_no_charge := False\<rparr> \<or>
   flags (fst (ab8500_charger_usb_link_status_work di hw val0)) =
      (flags di)\<lparr>report_charger_no_charge := True\<rparr> \<or>
   link_status_of (usb_link_status (regs hw AB8500_USB AB8500_USB_LINE_STAT_REG)) =
     USB_STAT_RESERVED \<and>
   (\<exists>b. flags (fst (ab8500_charger_usb_link_status_work di hw val0)) =
      (flags di)\<lparr>vbus_collapse := b\<rparr>)"
proof -
  let ?dc = "ab8500_charger_detect_chargers hw False"
  let ?g = "abx500_get_register_interruptible (snd ?dc) AB8500_USB AB8500_USB_LINE_STAT_REG 0"
  let ?h3 = "snd (abx500_mask_and_set_register_interruptible (snd (snd ?g))
                             AB8500_USB AB8500_USB_LINE_CTRL2_REG 0x01 0x00)"
  define P where "P = (\<lambda>r :: ab8500_charger \<times> ab8500_hw.
     flags (fst r) = flags di \<or>
     fst ?dc AND USB_PW_CONN = 0 \<and>
     flags (fst r) = (flags di)\<lparr>vbus_drop_end := False, report_charger_no_charge := False\<rparr> \<or>
     flags (fst r) = (flags di)\<lparr>report_charger_no_charge := True\<rparr> \<or>
     link_status_of (usb_link_status (regs hw AB8500_USB AB8500_USB_LINE_STAT_REG)) =
       USB_STAT_RESERVED \<and>
     (\<exists>b. flags (fst r) = (flags di)\<lparr>vbus_collapse := b\<rparr>))"
  note D = usb_link_status_detected_flags
  have r1: "regs ?h3 AB8500_USB AB8500_USB_LINE_STAT_REG = regs hw AB8500_USB AB8500_USB_LINE_STAT_REG"
    by simp
  have r2: "regs (snd (snd ?g)) = regs hw" by simp
  have r3: "regs (snd ?dc) = regs hw" by simp
  have d1: "P (usb_link_status_detected (di\<lparr>invalid_charger_detect_state := 2\<rparr>) ?h3 (fst ?dc) val0)"
    unfolding P_def
    using D [of "di\<lparr>invalid_charger_detect_state := 2\<rparr>" di ?h3 "fst ?dc" val0]
    unfolding r1 by simp
  have d2: "P (usb_link_status_detected di (snd (snd ?g)) (fst ?dc) val0)"
    unfolding P_def
    using D [of di di "snd (snd ?g)" "fst ?dc" val0] unfolding r2 by simp
  have d3: "P (usb_link_status_detected (di\<lparr>invalid_charger_detect_state := 0\<rparr>) (snd ?dc)
              (fst ?dc) val0)"
    unfolding P_def
    using D [of "di\<lparr>invalid_charger_detect_state := 0\<rparr>" di "snd ?dc" "fst ?dc" val0]
    unfolding r3 by simp
  have d4: "\<And>h. P (di, h)" "\<And>h. P (di\<lparr>invalid_charger_detect_state := 1\<rparr>, h)"
    by (simp_all add: P_def)
  have "P (ab8500_charger_usb_link_status_work di hw val0)"
    unfolding ab8500_charger_usb_link_status_work_def case_prod_beta Let_def
    by (simp add: d1 d2 d3 d4)
  then show ?thesis unfolding P_def .
qed

lemma check_hw_failure_work_flags:
  "flags (fst (ab8500_charger_check_hw_failure_work di hw)) = flags di \<or>
   flags (fst (ab8500_charger_check_hw_failure_work di hw)) = (flags di)\<lparr>vbus_ovv := False\<rparr>"
  by (simp add: ab8500_charger_check_hw_failure_work_def case_prod_beta)

lemma check_usbchargernotok_work_flags:
  "flags (fst (ab8500_charger_check_usbchargernotok_work di hw)) = flags di \<or>
   flags (fst (ab8500_charger_check_usbchargernotok_work di hw)) =
     (flags di)\<lparr>usbchargernotok := True\<rparr> \<or>
   flags (fst (ab8500_charger_check_usbchargernotok_work di hw)) =
     (flags di)\<lparr>usbchargernotok := False, vbus_collapse := False\<rparr>"
  by (simp add: ab8500_charger_check_usbchargernotok_work_def case_prod_beta)

lemma check_usb_thermal_prot_work_flags:
  "flags (fst (ab8500_charger_check_usb_thermal_prot_work di hw)) = flags di \<or>
   flags (fst (ab8500_charger_check_usb_thermal_prot_work di hw)) =
     (flags di)\<lparr>usb_thermal_prot := True\<rparr> \<or>
   flags (fst (ab8500_charger_check_usb_thermal_prot_work di hw)) =
     (flags di)\<lparr>usb_thermal_prot := False\<rparr>"
  by (simp add: ab8500_charger_check_usb_thermal_prot_work_def case_prod_beta)

lemma flags_after_writer:
  "flags_after (Set_usb_connected c) di hw = flags (ab8500_charger_set_usb_connected di c)"
  "flags_after (Max_usb_curr val0 ls) di hw = flags (fst (snd (ab8500_charger_max_usb_curr di hw val0 ls)))"
  "flags_after Check_hw_failure_work di hw = flags (fst (ab8500_charger_check_hw_failure_work di hw))"
  "flags_after Check_usbchargernotok_work di hw =
     flags (fst (ab8500_charger_check_usbchargernotok_work di hw))"
  "flags_after Check_usb_thermal_prot_work di hw =
     flags (fst (ab8500_charger_check_usb_thermal_prot_work di hw))"
  "flags_after (Usb_link_status_work val0) di hw =
     flags (fst (ab8500_charger_usb_link_status_work di hw val0))"
  "flags_after (Vbus_drop_end_work irq) di hw =
     flags (fst (ab8500_charger_vbus_drop_end_work irq di hw))"
  "flags_after Vbuschdropend_handler di hw = (flags di)\<lparr>vbus_drop_end := True\<rparr>"
  "flags_after Vbusovv_handler di hw = (flags di)\<lparr>vbus_ovv := True\<rparr>"
  by (simp_all add: flags_after_def ab8500_charger_vbuschdropend_handler_def
        ab8500_charger_vbusovv_handler_def)

text \<open>
  C5, as amended. Over all the functions that assign an event flag:
  \<^verbatim>\<open>mainextchnotok\<close>, \<^verbatim>\<open>main_thermal_prot\<close> and \<^verbatim>\<open>chgwdexp\<close> never change.
  \<^verbatim>\<open>vbus_ovv\<close> goes from false to true only in the overvoltage interrupt handler and from
  true to false only in the hardware-failure check task. \<^verbatim>\<open>vbus_drop_end\<close> goes from
  false to true only in the drop-end interrupt handler (also when that interrupt is served
  while the drop-end task steps the current) and from true to false only in the drop-end
  task or at the USB teardown. \<^verbatim>\<open>usbchargernotok\<close> and \<^verbatim>\<open>usb_thermal_prot\<close> change
  only in their own check task, which their interrupt queues. \<^verbatim>\<open>report_charger_no_charge\<close>
  goes from false to true only in the link-status task and from true to false only at the
  USB teardown. \<^verbatim>\<open>vbus_collapse\<close> is the exception to the rule that the classification
  changes no flag: it goes from false to true only in the classification of the
  \<^verbatim>\<open>RESERVED\<close> link status, and from true to false only there or in the charger-not-ok
  check task. The classification changes no flag for any other link status; for
  \<^verbatim>\<open>RESERVED\<close>, with the status polled after the recovery sequence, it leaves every other
  flag as it was and sets \<^verbatim>\<open>vbus_collapse\<close> when the charger-on bit \<open>0x04\<close> of the status
  is clear and clears it when the bit is set.
\<close>

theorem event_flag_writers:
  "(mainextchnotok (flags_after w di hw) = mainextchnotok (flags di) \<and>
    main_thermal_prot (flags_after w di hw) = main_thermal_prot (flags di) \<and>
    chgwdexp (flags_after w di hw) = chgwdexp (flags di)) \<and>
   (\<not> vbus_ovv (flags di) \<and> vbus_ovv (flags_after w di hw) \<longrightarrow> w = Vbusovv_handler) \<and>
   (vbus_ovv (flags di) \<and> \<not> vbus_ovv (flags_after w di hw) \<longrightarrow> w = Check_hw_failure_work) \<and>
   (\<not> vbus_drop_end (flags di) \<and> vbus_drop_end (flags_after w di hw) \<longrightarrow>
      w = Vbuschdropend_handler \<or> (\<exists>irq j. w = Vbus_drop_end_work irq \<and> irq j)) \<and>
   (vbus_drop_end (flags di) \<and> \<not> vbus_drop_end (flags_after w di hw) \<longrightarrow>
      is_drop_end_work w \<or> tears_down w hw) \<and>
   (usbchargernotok (flags_after w di hw) \<noteq> usbchargernotok (flags di) \<longrightarrow>
      w = Check_usbchargernotok_work) \<and>
   (usb_thermal_prot (flags_after w di hw) \<noteq> usb_thermal_prot (flags di) \<longrightarrow>
      w = Check_usb_thermal_prot_work) \<and>
   (\<not> report_charger_no_charge (flags di) \<and> report_charger_no_charge (flags_after w di hw) \<longrightarrow>
      is_link_status_work w) \<and>
   (report_charger_no_charge (flags di) \<and> \<not> report_charger_no_charge (flags_after w di hw) \<longrightarrow>
      tears_down w hw) \<and>
   (\<not> vbus_collapse (flags di) \<and> vbus_collapse (flags_after w di hw) \<longrightarrow>
      classifies_reserved w hw) \<and>
   (vbus_collapse (flags di) \<and> \<not> vbus_collapse (flags_after w di hw) \<longrightarrow>
      classifies_reserved w hw \<or> w = Check_usbchargernotok_work) \<and>
   (link_status \<noteq> USB_STAT_RESERVED \<longrightarrow>
      flags_after (Max_usb_curr val0 link_status) di hw = flags di) \<and>
   (0 \<le> get_ret hw AB8500_CHARGER (AB8500_REG 0x02) \<longrightarrow>
      flags_after (Max_usb_curr val0 USB_STAT_RESERVED) di hw =
        (flags di)\<lparr>vbus_collapse := (regs hw AB8500_CHARGER (AB8500_REG 0x02) AND 0x04 = 0)\<rparr>)"
proof -
  have T: "(mainextchnotok (flags_after w di hw) = mainextchnotok (flags di) \<and>
    main_thermal_prot (flags_after w di hw) = main_thermal_prot (flags di) \<and>
    chgwdexp (flags_after w di hw) = chgwdexp (flags di)) \<and>
   (\<not> vbus_ovv (flags di) \<and> vbus_ovv (flags_after w di hw) \<longrightarrow> w = Vbusovv_handler) \<and>
   (vbus_ovv (flags di) \<and> \<not> vbus_ovv (flags_after w di hw) \<longrightarrow> w = Check_hw_failure_work) \<and>
   (\<not> vbus_drop_end (flags di) \<and> vbus_drop_end (flags_after w di hw) \<longrightarrow>
      w = Vbuschdropend_handler \<or> (\<exists>irq j. w = Vbus_drop_end_work irq \<and> irq j)) \<and>
   (vbus_drop_end (flags di) \<and> \<not> vbus_drop_end (flags_after w di hw) \<longrightarrow>
      is_drop_end_work w \<or> tears_down w hw) \<and>
   (usbchargernotok (flags_after w di hw) \<noteq> usbchargernotok (flags di) \<longrightarrow>
      w = Check_usbchargernotok_work) \<and>
   (usb_thermal_prot (flags_after w di hw) \<noteq> usb_thermal_prot (flags di) \<longrightarrow>
      w = Check_usb_thermal_prot_work) \<and>
   (\<not> report_charger_no_charge (flags di) \<and> report_charger_no_charge (flags_after w di hw) \<longrightarrow>
      is_link_status_work w) \<and>
   (report_charger_no_charge (flags di) \<and> \<not> report_charger_no_charge (flags_after w di hw) \<longrightarrow>
      tears_down w hw) \<and>
   (\<not> vbus_collapse (flags di) \<and> vbus_collapse (flags_after w di hw) \<longrightarrow>
      classifies_reserved w hw) \<and>
   (vbus_collapse (flags di) \<and> \<not> vbus_collapse (flags_after w di hw) \<longrightarrow>
      classifies_reserved w hw \<or> w = Check_usbchargernotok_work)"
  proof (cases w)
    case (Set_usb_connected c)
    with set_usb_connected_flags [of di c] show ?thesis
      by (auto simp: flags_after_writer tears_down_def)
  next
    case (Max_usb_curr val0 ls)
    show ?thesis
    proof (cases "ls = USB_STAT_RESERVED")
      case True
      with Max_usb_curr max_usb_curr_flags [of di hw val0 ls] show ?thesis
        by (auto simp: flags_after_writer classifies_reserved_def)
    next
      case False
      with Max_usb_curr max_usb_curr_flags_other [of ls di hw val0] show ?thesis
        by (simp add: flags_after_writer)
    qed
  next
    case Check_hw_failure_work
    with check_hw_failure_work_flags [of di hw] show ?thesis
      by (auto simp: flags_after_writer)
  next
    case Check_usbchargernotok_work
    with check_usbchargernotok_work_flags [of di hw] show ?thesis
      by (auto simp: flags_after_writer)
  next
    case Check_usb_thermal_prot_work
    with check_usb_thermal_prot_work_flags [of di hw] show ?thesis
      by (auto simp: flags_after_writer)
  next
    case (Usb_link_status_work val0)
    with usb_link_status_work_flags [of di hw val0] show ?thesis
      by (auto simp: flags_after_writer tears_down_def classifies_reserved_def
            is_link_status_work_def)
  next
    case (Vbus_drop_end_work irq)
    with drop_end_work_flags [of irq di hw] show ?thesis
      by (auto simp: flags_after_writer is_drop_end_work_def)
  next
    case Vbuschdropend_handler
    then show ?thesis by (simp add: flags_after_writer)
  next
    case Vbusovv_handler
    then show ?thesis by (simp add: flags_after_writer)
  qed
  have C1: "link_status \<noteq> USB_STAT_RESERVED \<longrightarrow>
      flags_after (Max_usb_curr val0 link_status) di hw = flags di"
    by (simp add: flags_after_writer max_usb_curr_flags_other)
  have C2: "0 \<le> get_ret hw AB8500_CHARGER (AB8500_REG 0x02) \<longrightarrow>
      flags_after (Max_usb_curr val0 USB_STAT_RESERVED) di hw =
        (flags di)\<lparr>vbus_collapse := (regs hw AB8500_CHARGER (AB8500_REG 0x02) AND 0x04 = 0)\<rparr>"
    by (simp add: flags_after_writer max_usb_curr_reserved usb_stat_reserved_polled(2))
  show ?thesis using T C1 C2 by (elim conjE) (intro conjI; assumption)
qed

theorem event_flag_writers_witness:
  "USB_STAT_DEDICATED_CHG \<noteq> USB_STAT_RESERVED \<and>
   flags_after (Max_usb_curr 0 USB_STAT_DEDICATED_CHG) example_di (example_hw witness_regs) =
     flags example_di \<and>
   0 \<le> get_ret (example_hw witness_regs) AB8500_CHARGER (AB8500_REG 0x02) \<and>
   regs (example_hw witness_regs) AB8500_CHARGER (AB8500_REG 0x02) AND 0x04 = 0 \<and>
   flags_after (Max_usb_curr 0 USB_STAT_RESERVED) example_di (example_hw witness_regs) =
     (flags example_di)\<lparr>vbus_collapse := True\<rparr> \<and>
   Check_hw_failure_work \<noteq> Vbusovv_handler \<and>
   \<not> vbus_ovv (flags example_di) \<and>
   \<not> vbus_ovv (flags_after Check_hw_failure_work example_di (example_hw witness_regs))"
proof -
  let ?hw = "example_hw witness_regs"
  have rd: "0 \<le> get_ret ?hw AB8500_CHARGER (AB8500_REG 0x02)" by (simp add: example_hw_def)
  have v: "regs ?hw AB8500_CHARGER (AB8500_REG 0x02) AND 0x04 = 0"
    by (simp add: example_hw_def witness_regs_def)
  have o: "\<not> vbus_ovv (flags example_di)" by (simp add: example_di_def)
  from event_flag_writers [of "Max_usb_curr 0 USB_STAT_DEDICATED_CHG" example_di ?hw
         USB_STAT_DEDICATED_CHG 0]
  have a: "flags_after (Max_usb_curr 0 USB_STAT_DEDICATED_CHG) example_di ?hw = flags example_di"
    by simp
  from event_flag_writers [of "Max_usb_curr 0 USB_STAT_RESERVED" example_di ?hw
         USB_STAT_RESERVED 0] rd v
  have b: "flags_after (Max_usb_curr 0 USB_STAT_RESERVED) example_di ?hw =
             (flags example_di)\<lparr>vbus_collapse := True\<rparr>"
    by simp
  from event_flag_writers [of Check_hw_failure_work example_di ?hw USB_STAT_RESERVED 0] o
  have c: "\<not> vbus_ovv (flags_after Check_hw_failure_work example_di ?hw)"
    by auto
  from a b c rd v o show ?thesis by simp
qed

text \<open>
  C5 as stated fails: classifying the \<^verbatim>\<open>RESERVED\<close> link status on a chip whose status
  byte has the charger-on bit clear turns \<^verbatim>\<open>flags.vbus_collapse\<close> from false to true.
  And the USB teardown, which is neither an interrupt handler nor a check task, turns
  \<^verbatim>\<open>flags.vbus_drop_end\<close> and \<^verbatim>\<open>flags.report_charger_no_charge\<close> from true to
  false.
\<close>

theorem event_flag_writers_counterexample:
  "\<not> vbus_collapse (flags example_di) \<and>
   vbus_collapse (flags (fst (snd (ab8500_charger_max_usb_curr example_di
      (example_hw witness_regs) 0 USB_STAT_RESERVED)))) \<and>
   flags (fst (snd (ab8500_charger_max_usb_curr example_di
      (example_hw witness_regs) 0 USB_STAT_RESERVED))) \<noteq> flags example_di \<and>
   vbus_drop_end (flags (ab8500_charger_vbuschdropend_handler example_di)) \<and>
   \<not> vbus_drop_end (flags (ab8500_charger_set_usb_connected
        (ab8500_charger_vbuschdropend_handler example_di) False)) \<and>
   report_charger_no_charge (flags (health_di True)) \<and>
   \<not> report_charger_no_charge (flags (ab8500_charger_set_usb_connected (health_di True) False))"
proof -
  let ?hw = "example_hw witness_regs"
  have rd: "0 \<le> get_ret ?hw AB8500_CHARGER (AB8500_REG 0x02)" by (simp add: example_hw_def)
  have v: "regs ?hw AB8500_CHARGER (AB8500_REG 0x02) = 0"
    by (simp add: example_hw_def witness_regs_def)
  have a: "\<not> vbus_collapse (flags example_di)" by (simp add: example_di_def)
  have b: "vbus_collapse (flags (fst (snd (ab8500_charger_max_usb_curr example_di ?hw 0
      USB_STAT_RESERVED))))"
    by (simp add: max_usb_curr_reserved usb_stat_reserved_polled(2) [OF rd] v)
  have c: "vbus_drop_end (flags (ab8500_charger_vbuschdropend_handler example_di)) \<and>
     \<not> vbus_drop_end (flags (ab8500_charger_set_usb_connected
        (ab8500_charger_vbuschdropend_handler example_di) False))"
    by (simp add: ab8500_charger_vbuschdropend_handler_def ab8500_charger_set_usb_connected_def
          bool_to_int_def Let_def example_di_def)
  have d: "report_charger_no_charge (flags (health_di True)) \<and>
     \<not> report_charger_no_charge (flags (ab8500_charger_set_usb_connected (health_di True) False))"
    by (simp add: ab8500_charger_set_usb_connected_def bool_to_int_def Let_def health_di_def
          example_di_def)
  from a b c d show ?thesis by auto
qed

text \<open>
  C6. For either registered power supply the health property follows the priority order
  no-charger-detected (UNKNOWN), charger-not-ok (UNSPEC_FAILURE), watchdog-expired (DEAD),
  thermal protection (OVERHEAT), overvoltage (OVERVOLTAGE), GOOD: each value is reported
  exactly when its condition holds and no earlier one does. In particular, between the
  watchdog and the thermal protection the watchdog wins: in a state where a
  watchdog-expired flag and the USB thermal-protection flag are both set, the property
  reports DEAD (the two conditions that precede the watchdog in the order being absent)
  and never OVERHEAT.
\<close>

theorem usb_health_priority:
  assumes "psy_type = POWER_SUPPLY_TYPE_MAINS \<or> psy_type = POWER_SUPPLY_TYPE_USB"
  shows
   "(report_charger_no_charge (flags di) \<longrightarrow>
       usb_health di hw psy_type = Some (Health POWER_SUPPLY_HEALTH_UNKNOWN)) \<and>
    (\<not> report_charger_no_charge (flags di) \<and> usbchargernotok (flags di) \<longrightarrow>
       usb_health di hw psy_type = Some (Health POWER_SUPPLY_HEALTH_UNSPEC_FAILURE)) \<and>
    (\<not> report_charger_no_charge (flags di) \<and> \<not> usbchargernotok (flags di) \<and>
     (wd_expired (ac di) \<or> wd_expired (usb di)) \<longrightarrow>
       usb_health di hw psy_type = Some (Health POWER_SUPPLY_HEALTH_DEAD)) \<and>
    (\<not> report_charger_no_charge (flags di) \<and> \<not> usbchargernotok (flags di) \<and>
     \<not> wd_expired (ac di) \<and> \<not> wd_expired (usb di) \<and> usb_thermal_prot (flags di) \<longrightarrow>
       usb_health di hw psy_type = Some (Health POWER_SUPPLY_HEALTH_OVERHEAT)) \<and>
    (\<not> report_charger_no_charge (flags di) \<and> \<not> usbchargernotok (flags di) \<and>
     \<not> wd_expired (ac di) \<and> \<not> wd_expired (usb di) \<and> \<not> usb_thermal_prot (flags di) \<and>
     vbus_ovv (flags di) \<longrightarrow>
       usb_health di hw psy_type = Some (Health POWER_SUPPLY_HEALTH_OVERVOLTAGE)) \<and>
    (\<not> report_charger_no_charge (flags di) \<and> \<not> usbchargernotok (flags di) \<and>
     \<not> wd_expired (ac di) \<and> \<not> wd_expired (usb di) \<and> \<not> usb_thermal_prot (flags di) \<and>
     \<not> vbus_ovv (flags di) \<longrightarrow>
       usb_health di hw psy_type = Some (Health POWER_SUPPLY_HEALTH_GOOD)) \<and>
    ((wd_expired (ac di) \<or> wd_expired (usb di)) \<and> usb_thermal_prot (flags di) \<longrightarrow>
       usb_health di hw psy_type \<noteq> Some (Health POWER_SUPPLY_HEALTH_OVERHEAT)) \<and>
    fst (ab8500_charger_usb_get_property di hw psy_type POWER_SUPPLY_PROP_HEALTH) = 0"
  using assms
  by (auto simp: usb_health_def ab8500_charger_usb_get_property_def)

theorem usb_health_priority_witness:
  "\<not> report_charger_no_charge (flags (health_di False)) \<and>
   \<not> usbchargernotok (flags (health_di False)) \<and>
   wd_expired (usb (health_di False)) \<and>
   usb_thermal_prot (flags (health_di False)) \<and>
   usb_health (health_di False) (example_hw witness_regs) POWER_SUPPLY_TYPE_USB =
     Some (Health POWER_SUPPLY_HEALTH_DEAD)"
proof -
  have a: "\<not> report_charger_no_charge (flags (health_di False))"
    "\<not> usbchargernotok (flags (health_di False))"
    "wd_expired (usb (health_di False))" "usb_thermal_prot (flags (health_di False))"
    by (simp_all add: health_di_def example_di_def)
  from usb_health_priority [of POWER_SUPPLY_TYPE_USB "health_di False" "example_hw witness_regs"] a
  show ?thesis by simp
qed

text \<open>
  C10. \<^verbatim>\<open>ab8500_charger_detect_chargers\<close> reports USB exactly when the status register
  was read and both debounced VBUS-detected bits are set; whatever the chip holds, it
  never reports \<^verbatim>\<open>AC_PW_CONN\<close>, alone or together with USB.
\<close>

theorem detect_chargers_never_reports_ac:
  "fst (ab8500_charger_detect_chargers hw probe) \<noteq> AC_PW_CONN \<and>
   fst (ab8500_charger_detect_chargers hw probe) \<noteq> AC_PW_CONN + USB_PW_CONN \<and>
   (fst (ab8500_charger_detect_chargers hw probe) = USB_PW_CONN) =
     (0 \<le> get_ret hw AB8500_CHARGER AB8500_CH_USBCH_STAT1_REG \<and>
      regs hw AB8500_CHARGER AB8500_CH_USBCH_STAT1_REG AND VBUS_DET_DBNC1 \<noteq> 0 \<and>
      regs hw AB8500_CHARGER AB8500_CH_USBCH_STAT1_REG AND VBUS_DET_DBNC100 \<noteq> 0)"
  by (auto simp: ab8500_charger_detect_chargers_def abx500_get_register_interruptible_def
        NO_PW_CONN_def AC_PW_CONN_def USB_PW_CONN_def)

end
